(* ===== verification/Prelude.thy ===== *)
theory Prelude
  imports Main "HOL-Library.Word" "HOL-Library.Sublist"
begin

text \<open>
  Shared vocabulary of the development: the machine integers of the code, its
  \<open>Result\<close> values, the collections of facts that the component theories extend, and
  lemmas on lists and association lists that several components use.

  A Rust \<open>anyhow::Error\<close> is the list of its messages, outermost context first:
  \<open>bail!(m)\<close> is \<open>Inl [m]\<close>, \<open>.context(c)\<close> puts \<open>c\<close> in front,
  \<open>error.to_string()\<close> shows the first message and \<open>{error:#}\<close> shows all of them
  separated by colons.
\<close>

named_theorems result_simps \<open>evaluation of the Result combinators\<close>
named_theorems model_defs \<open>definitions that evaluate a model on concrete input\<close>

type_synonym u64 = "64 word"
type_synonym u32 = "32 word"
type_synonym u16 = "16 word"

type_synonym error = "string list"
type_synonym 'a result = "error + 'a"

lemma unat_of_nat_u64: "n < 2 ^ 64 \<Longrightarrow> unat (of_nat n :: u64) = n"
  by (simp add: unat_of_nat take_bit_nat_eq_self_iff)

lemma inj_of_nat_u64: "inj_on (of_nat :: nat \<Rightarrow> u64) {..<2 ^ 64}"
  by (rule inj_on_inverseI[where g = unat]) (simp add: unat_of_nat_u64)

text \<open>\<open>u64::checked_add\<close>.\<close>

definition checked_add :: "u64 \<Rightarrow> u64 \<Rightarrow> u64 option" where
  "checked_add a b = (if unat a + unat b < 2 ^ 64 then Some (a + b) else None)"

lemma unat_plus_u64: "unat a + unat b < 2 ^ 64 \<Longrightarrow> unat (a + b :: u64) = unat a + unat b"
  by (simp add: unat_plus_if')

lemma checked_add_Some:
  "checked_add a b = Some c \<longleftrightarrow> unat a + unat b < 2 ^ 64 \<and> c = a + b \<and> unat c = unat a + unat b"
  using unat_plus_u64[of a b] by (auto simp: checked_add_def)

section \<open>Results\<close>

definition and_then :: "'e + 'a \<Rightarrow> ('a \<Rightarrow> 'e + 'b) \<Rightarrow> 'e + 'b" where
  "and_then r f = (case r of Inl e \<Rightarrow> Inl e | Inr x \<Rightarrow> f x)"

definition map_err :: "('e \<Rightarrow> 'f) \<Rightarrow> 'e + 'a \<Rightarrow> 'f + 'a" where
  "map_err f r = (case r of Inl e \<Rightarrow> Inl (f e) | Inr x \<Rightarrow> Inr x)"

definition map_ok :: "('a \<Rightarrow> 'b) \<Rightarrow> 'e + 'a \<Rightarrow> 'e + 'b" where
  "map_ok f r = (case r of Inl e \<Rightarrow> Inl e | Inr x \<Rightarrow> Inr (f x))"

definition ok_or :: "'a option \<Rightarrow> 'e \<Rightarrow> 'e + 'a" where
  "ok_or v e = (case v of None \<Rightarrow> Inl e | Some x \<Rightarrow> Inr x)"

definition bail :: "string \<Rightarrow> 'a result" where
  "bail m = Inl [m]"

definition with_context :: "string \<Rightarrow> 'a result \<Rightarrow> 'a result" where
  "with_context c r = map_err (\<lambda>e. c # e) r"

definition is_ok :: "'e + 'a \<Rightarrow> bool" where
  "is_ok r = (case r of Inl _ \<Rightarrow> False | Inr _ \<Rightarrow> True)"

fun error_to_string :: "error \<Rightarrow> string" where
  "error_to_string [] = []"
| "error_to_string (m # _) = m"

fun error_chain :: "error \<Rightarrow> string" where
  "error_chain [] = []"
| "error_chain [m] = m"
| "error_chain (m # ms) = m @ '': '' @ error_chain ms"

lemma and_then_simps [simp, result_simps]:
  "and_then (Inl e) f = Inl e"
  "and_then (Inr x) f = f x"
  by (simp_all add: and_then_def)

lemma map_err_simps [simp, result_simps]:
  "map_err g (Inl e) = Inl (g e)"
  "map_err g (Inr x) = Inr x"
  by (simp_all add: map_err_def)

lemma map_ok_simps [simp, result_simps]:
  "map_ok g (Inl e) = Inl e"
  "map_ok g (Inr x) = Inr (g x)"
  by (simp_all add: map_ok_def)

lemma ok_or_simps [simp, result_simps]:
  "ok_or None e = Inl e"
  "ok_or (Some x) e = Inr x"
  by (simp_all add: ok_or_def)

lemma with_context_simps [simp, result_simps]:
  "with_context c (Inl e) = Inl (c # e)"
  "with_context c (Inr x) = Inr x"
  by (simp_all add: with_context_def)

lemma is_ok_simps [simp, result_simps]:
  "is_ok (Inl e) = False"
  "is_ok (Inr x) = True"
  by (simp_all add: is_ok_def)

lemma and_then_eq_Inr: "and_then r f = Inr y \<longleftrightarrow> (\<exists>x. r = Inr x \<and> f x = Inr y)"
  by (cases r) auto

lemma map_err_eq_Inr [simp]: "map_err g r = Inr y \<longleftrightarrow> r = Inr y"
  by (cases r) auto

lemma map_ok_eq_Inr: "map_ok g r = Inr y \<longleftrightarrow> (\<exists>x. r = Inr x \<and> y = g x)"
  by (cases r) auto

lemma with_context_eq_Inr [simp]: "with_context c r = Inr y \<longleftrightarrow> r = Inr y"
  by (cases r) auto

lemma ok_or_eq_Inr [simp]: "ok_or v e = Inr y \<longleftrightarrow> v = Some y"
  by (cases v) auto

lemma bail_neq_Inr [simp]: "bail m = Inr y \<longleftrightarrow> False"
  by (simp add: bail_def)

lemma is_ok_iff: "is_ok r \<longleftrightarrow> (\<exists>x. r = Inr x)"
  by (cases r) auto

lemmas result_inversion = and_then_eq_Inr map_ok_eq_Inr

section \<open>Effects\<close>

text \<open>
  Code that acts on a world of type \<open>'w\<close> (the file system, child processes) is a function
  from the world to its result and the world afterwards; \<open>?\<close> is \<open>io_then\<close>.
\<close>

type_synonym ('w, 'a) io = "'w \<Rightarrow> 'a result \<times> 'w"

definition io_return :: "'a \<Rightarrow> ('w, 'a) io" where
  "io_return x w = (Inr x, w)"

definition io_result :: "'a result \<Rightarrow> ('w, 'a) io" where
  "io_result r w = (r, w)"

definition io_then :: "('w, 'a) io \<Rightarrow> ('a \<Rightarrow> ('w, 'b) io) \<Rightarrow> ('w, 'b) io" where
  "io_then m f w = (case m w of (Inl e, w') \<Rightarrow> (Inl e, w') | (Inr x, w') \<Rightarrow> f x w')"

definition io_map_err :: "(error \<Rightarrow> error) \<Rightarrow> ('w, 'a) io \<Rightarrow> ('w, 'a) io" where
  "io_map_err g m w = (case m w of (r, w') \<Rightarrow> (map_err g r, w'))"

definition io_context :: "string \<Rightarrow> ('w, 'a) io \<Rightarrow> ('w, 'a) io" where
  "io_context c m = io_map_err (\<lambda>e. c # e) m"

text \<open>The outcome as a value, as in \<open>match f() { Ok(..) => .., Err(..) => .. }\<close>.\<close>

definition io_try :: "('w, 'a) io \<Rightarrow> ('a result \<Rightarrow> ('w, 'b) io) \<Rightarrow> ('w, 'b) io" where
  "io_try m f w = (case m w of (r, w') \<Rightarrow> f r w')"

fun io_each :: "('a \<Rightarrow> ('w, unit) io) \<Rightarrow> 'a list \<Rightarrow> ('w, unit) io" where
  "io_each f [] = io_return ()"
| "io_each f (x # xs) = io_then (f x) (\<lambda>_. io_each f xs)"

fun io_collect :: "('a \<Rightarrow> ('w, 'b) io) \<Rightarrow> 'a list \<Rightarrow> ('w, 'b list) io" where
  "io_collect f [] = io_return []"
| "io_collect f (x # xs) =
     io_then (f x) (\<lambda>y. io_then (io_collect f xs) (\<lambda>ys. io_return (y # ys)))"

lemma io_return_apply [simp, result_simps]: "io_return x w = (Inr x, w)"
  and io_result_apply [simp, result_simps]: "io_result r w = (r, w)"
  by (simp_all add: io_return_def io_result_def)

lemma io_then_eq_Inr:
  "io_then m f w = (Inr y, w'') \<longleftrightarrow> (\<exists>x w'. m w = (Inr x, w') \<and> f x w' = (Inr y, w''))"
  by (auto simp: io_then_def split: prod.splits sum.splits)

lemma io_thenE:
  assumes "io_then m f w = (r, w')"
  obtains (err) e where "m w = (Inl e, w')" "r = Inl e"
  | (ok) x w1 where "m w = (Inr x, w1)" "f x w1 = (r, w')"
  using assms by (auto simp: io_then_def split: prod.splits sum.splits)

lemma io_then_Inl: "m w = (Inl e, w') \<Longrightarrow> io_then m f w = (Inl e, w')"
  and io_then_Inr: "m w = (Inr x, w') \<Longrightarrow> io_then m f w = f x w'"
  and io_try_eq: "m w = (r, w') \<Longrightarrow> io_try m g w = g r w'"
  by (simp_all add: io_then_def io_try_def)

lemma io_map_err_eq_Inr [simp]: "io_map_err g m w = (Inr y, w') \<longleftrightarrow> m w = (Inr y, w')"
  by (auto simp: io_map_err_def split: prod.splits)

lemma io_context_eq_Inr [simp]: "io_context c m w = (Inr y, w') \<longleftrightarrow> m w = (Inr y, w')"
  by (simp add: io_context_def)

lemma snd_io_map_err [simp]: "snd (io_map_err g m w) = snd (m w)"
  and snd_io_context [simp]: "snd (io_context c m w) = snd (m w)"
  by (simp_all add: io_context_def io_map_err_def split: prod.split)

text \<open>A relation between the worlds before and after that the parts of a program keep.\<close>

definition io_keeps :: "('w \<Rightarrow> 'w \<Rightarrow> bool) \<Rightarrow> ('w, 'a) io \<Rightarrow> bool" where
  "io_keeps R m \<longleftrightarrow> (\<forall>w. R w (snd (m w)))"

named_theorems keeps_intros \<open>programs that keep a relation on their world\<close>

lemma io_keepsD: "io_keeps R m \<Longrightarrow> m w = (r, w') \<Longrightarrow> R w w'"
  by (metis io_keeps_def snd_conv)

lemma io_keeps_return: "reflp R \<Longrightarrow> io_keeps R (io_return x)"
  and io_keeps_result: "reflp R \<Longrightarrow> io_keeps R (io_result r)"
  by (simp_all add: io_keeps_def reflp_def)

lemma io_keeps_then:
  assumes R: "transp R" and m: "io_keeps R m" and f: "\<And>x. io_keeps R (f x)"
  shows "io_keeps R (io_then m f)"
  unfolding io_keeps_def
proof
  fix w
  obtain r w' where mw: "m w = (r, w')" by fastforce
  then have 1: "R w w'" using m by (blast dest: io_keepsD)
  show "R w (snd (io_then m f w))"
  proof (cases r)
    case (Inr x)
    have "R w' (snd (f x w'))" using f[of x] by (simp add: io_keeps_def)
    with 1 have "R w (snd (f x w'))" by (rule transpD[OF R])
    then show ?thesis using mw Inr by (simp add: io_then_def)
  qed (use mw 1 in \<open>simp add: io_then_def\<close>)
qed

lemma io_keeps_try:
  assumes R: "transp R" and m: "io_keeps R m" and f: "\<And>x. io_keeps R (f x)"
  shows "io_keeps R (io_try m f)"
  unfolding io_keeps_def
proof
  fix w
  obtain r w' where mw: "m w = (r, w')" by fastforce
  then have 1: "R w w'" using m by (blast dest: io_keepsD)
  have "R w' (snd (f r w'))" using f[of r] by (simp add: io_keeps_def)
  with 1 have "R w (snd (f r w'))" by (rule transpD[OF R])
  then show "R w (snd (io_try m f w))" using mw by (simp add: io_try_def)
qed

lemma io_keeps_map_err [keeps_intros]: "io_keeps R m \<Longrightarrow> io_keeps R (io_map_err g m)"
  and io_keeps_context [keeps_intros]: "io_keeps R m \<Longrightarrow> io_keeps R (io_context c m)"
  by (simp_all add: io_keeps_def)

section \<open>Input and output errors\<close>

text \<open>The kinds of \<open>std::io::ErrorKind\<close> that the code distinguishes, and the error's text.\<close>

datatype io_kind =
    KNotFound | KAlreadyExists | KAddrInUse | KConnectionRefused | KUnexpectedEof | KInvalidData
  | KWouldBlock | KInterrupted | KConnectionAborted | KOther

record io_error =
  io_kind :: io_kind
  io_text :: string

definition any_io :: "io_error + 'a \<Rightarrow> 'a result" where
  "any_io r = map_err (\<lambda>e. [io_text e]) r"

lemma any_io_simps [simp, result_simps]:
  "any_io (Inl e) = Inl [io_text e]"
  "any_io (Inr x) = Inr x"
  by (simp_all add: any_io_def)

lemma any_io_eq_Inr [simp]: "any_io r = Inr y \<longleftrightarrow> r = Inr y"
  by (simp add: any_io_def)

section \<open>The last bytes of a buffer\<close>

text \<open>The last \<open>n\<close> elements of a list, all of it when it is shorter.\<close>

definition take_last :: "nat \<Rightarrow> 'a list \<Rightarrow> 'a list" where
  "take_last n xs = drop (length xs - n) xs"

lemma length_take_last [simp]: "length (take_last n xs) = min n (length xs)"
  by (auto simp: take_last_def)

lemma take_last_all [simp]: "length xs \<le> n \<Longrightarrow> take_last n xs = xs"
  by (simp add: take_last_def)

lemma take_last_append:
  "take_last n (xs @ ys) = take_last (n - length ys) xs @ take_last n ys"
  by (cases "length ys \<le> n") (auto simp: take_last_def)

lemma take_last_append_long: "n \<le> length ys \<Longrightarrow> take_last n (xs @ ys) = take_last n ys"
  by (simp add: take_last_append) (simp add: take_last_def)

lemma take_last_take_last_append:
  "take_last n (take_last n xs @ ys) = take_last n (xs @ ys)"
proof (cases "length ys \<le> n")
  case True
  then show ?thesis
    by (cases "length xs + length ys \<le> n") (simp_all add: take_last_append, simp_all add: take_last_def)
next
  case False
  then show ?thesis by (simp add: take_last_append_long)
qed

lemma suffix_take_last: "suffix (take_last n xs) xs"
  by (simp add: take_last_def suffix_drop)

section \<open>Association lists\<close>

text \<open>
  A \<open>HashMap\<close> is an association list whose order stands for the unspecified iteration
  order; its keys are distinct.
\<close>

definition alist_del :: "'k \<Rightarrow> ('k \<times> 'v) list \<Rightarrow> ('k \<times> 'v) list" where
  "alist_del k xs = filter (\<lambda>(k', _). k' \<noteq> k) xs"

definition alist_put :: "'k \<Rightarrow> 'v \<Rightarrow> ('k \<times> 'v) list \<Rightarrow> ('k \<times> 'v) list" where
  "alist_put k v xs = (k, v) # alist_del k xs"

lemma map_of_alist_del [simp]: "map_of (alist_del k xs) = (map_of xs)(k := None)"
  by (induction xs) (auto simp: alist_del_def)

lemma map_of_alist_put [simp]: "map_of (alist_put k v xs) = (map_of xs)(k \<mapsto> v)"
  by (simp add: alist_put_def)

lemma set_alist_del: "set (alist_del k xs) = {(k', v) \<in> set xs. k' \<noteq> k}"
  by (auto simp: alist_del_def)

lemma keys_alist_del [simp]: "fst ` set (alist_del k xs) = fst ` set xs - {k}"
  by (force simp: set_alist_del)

lemma distinct_alist_del: "distinct (map fst xs) \<Longrightarrow> distinct (map fst (alist_del k xs))"
  by (induction xs) (auto simp: alist_del_def)

lemma distinct_alist_put: "distinct (map fst xs) \<Longrightarrow> distinct (map fst (alist_put k v xs))"
  using distinct_alist_del[of xs k] keys_alist_del[of k xs]
  by (auto simp: alist_put_def)

lemma alist_del_notin: "map_of xs k = None \<Longrightarrow> alist_del k xs = xs"
  by (induction xs) (auto simp: alist_del_def map_of_eq_None_iff split: if_splits)

lemma map_of_SomeD_mem: "map_of xs k = Some v \<Longrightarrow> (k, v) \<in> set xs"
  by (rule map_of_SomeD)

lemma find_Some_mem: "List.find P xs = Some x \<Longrightarrow> x \<in> set xs \<and> P x"
  by (auto simp: find_Some_iff)

section \<open>State machines\<close>

text \<open>
  The interface of every state machine of the development: an initial-state predicate, a
  step relation and an invariant that the steps keep. A component that interprets it gets
  the invariant in every reachable state.
\<close>

inductive reach :: "('s \<Rightarrow> bool) \<Rightarrow> ('s \<Rightarrow> 's \<Rightarrow> bool) \<Rightarrow> 's \<Rightarrow> bool"
  for init :: "'s \<Rightarrow> bool" and step :: "'s \<Rightarrow> 's \<Rightarrow> bool" where
  reach_init: "init s \<Longrightarrow> reach init step s"
| reach_step: "reach init step s \<Longrightarrow> step s t \<Longrightarrow> reach init step t"

locale invariant_machine =
  fixes init :: "'s \<Rightarrow> bool" and step :: "'s \<Rightarrow> 's \<Rightarrow> bool" and inv :: "'s \<Rightarrow> bool"
  assumes inv_init: "init s \<Longrightarrow> inv s"
    and inv_step: "inv s \<Longrightarrow> step s t \<Longrightarrow> inv t"
begin

lemma inv_reach: "reach init step s \<Longrightarrow> inv s"
  by (induction rule: reach.induct) (auto intro: inv_init inv_step)

end

text \<open>
  A machine that ends extends it by a well-founded order in which every step descends and by a
  predicate for the states in which it may stop: no schedule of it goes on for ever, it stops nowhere
  else, and from every reachable state it can get there.
\<close>

locale terminating_machine = invariant_machine +
  fixes rank :: "('a \<times> 'a) set" and finished :: "'a \<Rightarrow> bool"
  assumes wf_rank: "wf rank"
    and step_descends: "step s t \<Longrightarrow> (t, s) \<in> rank"
    and progress: "inv s \<Longrightarrow> \<not> finished s \<Longrightarrow> \<exists>t. step s t"
begin

lemma steps_wf: "wfP (\<lambda>t s. step s t)"
  unfolding wfp_def by (rule wf_subset[OF wf_rank]) (auto dest: step_descends)

lemma no_infinite_run: "\<not> (\<exists>f. \<forall>i. step (f i) (f (Suc i)))"
  using wf_rank step_descends unfolding wf_iff_no_infinite_down_chain by blast

lemma stuck_finished: "inv s \<Longrightarrow> \<forall>t. \<not> step s t \<Longrightarrow> finished s"
  using progress by blast

lemma can_finish: "inv s \<Longrightarrow> \<exists>t. step\<^sup>*\<^sup>* s t \<and> finished t"
proof (induction s rule: wf_induct_rule[OF wf_rank])
  case (1 s)
  show ?case
  proof (cases "finished s")
    case False
    with progress 1(2) obtain t where t: "step s t" by blast
    with 1 step_descends inv_step obtain u where "step\<^sup>*\<^sup>* t u" "finished u" by blast
    with t show ?thesis by (meson converse_rtranclp_into_rtranclp)
  qed blast
qed

end

end
