(* ===== verification/Text_Ops.thy ===== *)
theory Text_Ops
  imports Prelude "HOL-Library.Char_ord" "HOL-Library.List_Lexorder"
begin

text \<open>
  The operations of Rust's \<open>str\<close> that the program uses. A \<open>str\<close> is its UTF-8 bytes, so
  it is a \<open>string\<close>, one \<open>char\<close> per byte; \<open>len\<close> counts bytes, as in Rust, and the
  order of strings is the byte-wise lexicographic one. Operations on characters beyond
  ASCII look at their byte sequences.
\<close>

section \<open>Bytes\<close>

definition code :: "char \<Rightarrow> nat" where
  "code c = of_char c"

definition is_ascii_digit :: "char \<Rightarrow> bool" where
  "is_ascii_digit c = (48 \<le> code c \<and> code c \<le> 57)"

definition is_ascii_alphanumeric :: "char \<Rightarrow> bool" where
  "is_ascii_alphanumeric c =
     (is_ascii_digit c \<or> 65 \<le> code c \<and> code c \<le> 90 \<or> 97 \<le> code c \<and> code c \<le> 122)"

definition is_ascii_hexdigit :: "char \<Rightarrow> bool" where
  "is_ascii_hexdigit c =
     (is_ascii_digit c \<or> 65 \<le> code c \<and> code c \<le> 70 \<or> 97 \<le> code c \<and> code c \<le> 102)"

definition is_continuation :: "char \<Rightarrow> bool" where
  "is_continuation c = (128 \<le> code c \<and> code c < 192)"

definition to_ascii_lowercase_char :: "char \<Rightarrow> char" where
  "to_ascii_lowercase_char c =
     (if 65 \<le> code c \<and> code c \<le> 90 then char_of (code c + 32) else c)"

definition to_ascii_lowercase :: "string \<Rightarrow> string" where
  "to_ascii_lowercase s = map to_ascii_lowercase_char s"

definition eq_ignore_ascii_case :: "string \<Rightarrow> string \<Rightarrow> bool" where
  "eq_ignore_ascii_case a b = (to_ascii_lowercase a = to_ascii_lowercase b)"

lemma code_inject [simp]: "code a = code b \<longleftrightarrow> a = b"
  by (simp add: code_def)

lemma code_char_of [simp]: "n < 256 \<Longrightarrow> code (char_of n) = n"
  by (simp add: code_def)

lemma length_to_ascii_lowercase [simp]: "length (to_ascii_lowercase s) = length s"
  by (simp add: to_ascii_lowercase_def)

lemma lowercase_char_idem [simp]:
  "to_ascii_lowercase_char (to_ascii_lowercase_char c) = to_ascii_lowercase_char c"
  by (auto simp: to_ascii_lowercase_char_def)

lemma to_ascii_lowercase_idem [simp]:
  "to_ascii_lowercase (to_ascii_lowercase s) = to_ascii_lowercase s"
  by (simp add: to_ascii_lowercase_def)

lemma eq_ignore_ascii_case_refl [simp]: "eq_ignore_ascii_case a a"
  by (simp add: eq_ignore_ascii_case_def)

section \<open>White space\<close>

text \<open>
  The bytes of a \<open>White_Space\<close> character at the start of a string: 0 when there is none.
  \<open>trim\<close> removes them at both ends. At the end of a string the same sequences are looked
  up backwards.
\<close>

definition white_space :: "nat list list" where
  "white_space =
     map (\<lambda>n. [n]) [9, 10, 11, 12, 13, 32]
     @ [[194, 133], [194, 160], [225, 154, 128], [226, 128, 168], [226, 128, 169],
        [226, 128, 175], [226, 129, 159], [227, 128, 128]]
     @ map (\<lambda>n. [226, 128, n]) [128, 129, 130, 131, 132, 133, 134, 135, 136, 137, 138]"

definition is_white :: "string \<Rightarrow> bool" where
  "is_white w = List.member white_space (map code w)"

definition white_head :: "string \<Rightarrow> nat" where
  "white_head s =
     (if s = [] then 0 else if is_white (take 1 s) then 1
      else if is_white (take 2 s) then 2 else if is_white (take 3 s) then 3 else 0)"

definition white_last :: "string \<Rightarrow> nat" where
  "white_last s =
     (if s = [] then 0 else if is_white (take_last 1 s) then 1
      else if is_white (take_last 2 s) then 2 else if is_white (take_last 3 s) then 3 else 0)"

lemma white_head_pos_nonempty: "0 < white_head s \<Longrightarrow> s \<noteq> []"
  by (auto simp: white_head_def)

lemma white_last_pos_nonempty: "0 < white_last s \<Longrightarrow> s \<noteq> []"
  by (auto simp: white_last_def)

function trim_start :: "string \<Rightarrow> string" where
  "trim_start s = (if 0 < white_head s then trim_start (drop (white_head s) s) else s)"
  by pat_completeness auto
termination
  by (relation "measure length") (auto simp: diff_less white_head_pos_nonempty)

function trim_end :: "string \<Rightarrow> string" where
  "trim_end s =
     (if 0 < white_last s then trim_end (take (length s - white_last s) s) else s)"
  by pat_completeness auto
termination
  by (relation "measure length") (auto simp: diff_less white_last_pos_nonempty)

declare trim_start.simps [simp del] trim_end.simps [simp del]

definition trim :: "string \<Rightarrow> string" where
  "trim s = trim_end (trim_start s)"

lemma suffix_trim_start: "suffix (trim_start s) s"
proof (induction s rule: trim_start.induct)
  case (1 s)
  show ?case
  proof (cases "0 < white_head s")
    case True
    with "1" have "suffix (trim_start (drop (white_head s) s)) (drop (white_head s) s)"
      by simp
    with True show ?thesis
      by (subst trim_start.simps) (auto intro: suffix_order.trans suffix_drop)
  qed (subst trim_start.simps, simp)
qed

lemma prefix_trim_end: "prefix (trim_end s) s"
proof (induction s rule: trim_end.induct)
  case (1 s)
  show ?case
  proof (cases "0 < white_last s")
    case True
    with "1" have "prefix (trim_end (take (length s - white_last s) s))
        (take (length s - white_last s) s)"
      by simp
    with True show ?thesis
      by (subst trim_end.simps) (auto intro: prefix_order.trans take_is_prefix)
  qed (subst trim_end.simps, simp)
qed

lemma white_last_trim_end: "white_last (trim_end s) = 0"
proof (induction s rule: trim_end.induct)
  case (1 s)
  then show ?case by (cases "0 < white_last s") (subst trim_end.simps, simp)+
qed

lemma trim_end_idem [simp]: "trim_end (trim_end s) = trim_end s"
  by (subst trim_end.simps) (simp add: white_last_trim_end)

lemma trim_Nil [simp]: "trim [] = []"
proof -
  have "trim_start [] = []" by (subst trim_start.simps) (simp add: white_head_def)
  moreover have "trim_end [] = []" by (subst trim_end.simps) (simp add: white_last_def)
  ultimately show ?thesis by (simp add: trim_def)
qed

section \<open>Searching and splitting\<close>

definition strip_prefix :: "string \<Rightarrow> string \<Rightarrow> string option" where
  "strip_prefix p s = (if prefix p s then Some (drop (length p) s) else None)"

definition strip_suffix :: "string \<Rightarrow> string \<Rightarrow> string option" where
  "strip_suffix p s = (if suffix p s then Some (take (length s - length p) s) else None)"

definition contains :: "string \<Rightarrow> string \<Rightarrow> bool" where
  "contains s pat = sublist pat s"

fun split_char :: "char \<Rightarrow> string \<Rightarrow> string list" where
  "split_char c [] = [[]]"
| "split_char c (x # xs) =
     (if x = c then [] # split_char c xs
      else case split_char c xs of [] \<Rightarrow> [[x]] | w # ws \<Rightarrow> (x # w) # ws)"

fun split_once :: "char \<Rightarrow> string \<Rightarrow> (string \<times> string) option" where
  "split_once c [] = None"
| "split_once c (x # xs) =
     (if x = c then Some ([], xs) else map_option (\<lambda>(a, b). (x # a, b)) (split_once c xs))"

text \<open>The greatest index at which the pattern occurs.\<close>

definition rfind :: "string \<Rightarrow> string \<Rightarrow> nat option" where
  "rfind pat s = List.find (\<lambda>i. prefix pat (drop i s)) (rev [0..<Suc (length s)])"

fun trim_start_matches :: "char \<Rightarrow> string \<Rightarrow> string" where
  "trim_start_matches c [] = []"
| "trim_start_matches c (x # xs) = (if x = c then trim_start_matches c xs else x # xs)"

definition trim_matches :: "char \<Rightarrow> string \<Rightarrow> string" where
  "trim_matches c s = rev (trim_start_matches c (rev (trim_start_matches c s)))"

definition join :: "string \<Rightarrow> string list \<Rightarrow> string" where
  "join sep xs = (case xs of [] \<Rightarrow> [] | y # ys \<Rightarrow> y @ concat (map (\<lambda>z. sep @ z) ys))"

lemma strip_prefix_Some: "strip_prefix p s = Some r \<longleftrightarrow> s = p @ r"
  by (auto simp: strip_prefix_def prefix_def)

lemma strip_prefix_append [simp]: "strip_prefix p (p @ r) = Some r"
  by (simp add: strip_prefix_Some)

lemma strip_prefix_None: "strip_prefix p s = None \<longleftrightarrow> \<not> prefix p s"
  by (simp add: strip_prefix_def)

lemma split_char_nonempty [simp]: "split_char c s \<noteq> []"
  by (cases s) (auto split: list.splits)

lemma split_once_Some: "split_once c s = Some (a, b) \<Longrightarrow> s = a @ c # b \<and> c \<notin> set a"
  by (induction s arbitrary: a) (auto split: if_splits)

lemma split_once_None: "split_once c s = None \<longleftrightarrow> c \<notin> set s"
  by (induction s) auto

lemma split_once_append: "c \<notin> set a \<Longrightarrow> split_once c (a @ c # b) = Some (a, b)"
  by (induction a) auto

lemma trim_start_matches_dropWhile: "trim_start_matches c s = dropWhile (\<lambda>x. x = c) s"
  by (induction s) auto

lemma find_rev_upt:
  assumes "P i" "i < n" "\<And>j. i < j \<Longrightarrow> j < n \<Longrightarrow> \<not> P j"
  shows "List.find P (rev [0..<n]) = Some i"
  using assms by (induction n) (auto simp: less_Suc_eq)

lemma rfind_Some:
  assumes "rfind pat s = Some i"
  shows "i \<le> length s" "prefix pat (drop i s)"
  using find_Some_mem[OF assms[unfolded rfind_def]] by auto

lemma rfind_eqI:
  assumes "prefix pat (drop i s)" "i \<le> length s"
    and "\<And>j. i < j \<Longrightarrow> j \<le> length s \<Longrightarrow> \<not> prefix pat (drop j s)"
  shows "rfind pat s = Some i"
  unfolding rfind_def using assms by (intro find_rev_upt) auto

lemma rfind_None: "rfind pat s = None \<longleftrightarrow> (\<forall>i\<le>length s. \<not> prefix pat (drop i s))"
  unfolding rfind_def find_None_iff by (simp del: upt_Suc add: less_Suc_eq_le)

section \<open>Numbers\<close>

fun show_nat :: "nat \<Rightarrow> string" where
  "show_nat n = (if n < 10 then [char_of (48 + n)] else show_nat (n div 10) @ [char_of (48 + n mod 10)])"

declare show_nat.simps [simp del]

definition show_u64 :: "u64 \<Rightarrow> string" where
  "show_u64 w = show_nat (unat w)"

definition show_u16 :: "u16 \<Rightarrow> string" where
  "show_u16 w = show_nat (unat w)"

definition hex_digit :: "nat \<Rightarrow> char" where
  "hex_digit n = (if n < 10 then char_of (48 + n) else char_of (87 + n))"

definition hex_byte :: "char \<Rightarrow> string" where
  "hex_byte c = [hex_digit (code c div 16), hex_digit (code c mod 16)]"

definition hex_encode :: "string \<Rightarrow> string" where
  "hex_encode bs = concat (map hex_byte bs)"

lemma show_nat_nonempty [simp]: "show_nat n \<noteq> []"
  by (subst show_nat.simps) simp

lemma show_nat_digits: "c \<in> set (show_nat n) \<Longrightarrow> is_ascii_digit c"
proof (induction n rule: show_nat.induct)
  case (1 n)
  have small: "k < 10 \<Longrightarrow> is_ascii_digit (char_of (48 + k))" for k :: nat
    by (simp add: is_ascii_digit_def)
  show ?case
  proof (cases "n < 10")
    case True
    then show ?thesis using "1.prems" small[of n] by (subst (asm) show_nat.simps) simp
  next
    case False
    then show ?thesis
      using "1.prems" "1.IH" small[of "n mod 10"]
      by (auto simp: show_nat.simps[of n])
  qed
qed

lemma length_hex_encode [simp]: "length (hex_encode bs) = 2 * length bs"
  by (induction bs) (auto simp: hex_encode_def hex_byte_def)

lemma code_less_256 [simp]: "code c < 256"
  by (metis code_def mod_less_divisor of_char_mod_256 zero_less_numeral)

section \<open>Debug output of strings\<close>

text \<open>
  \<open>{s:?}\<close>: the string in double quotes, with quote, backslash and control characters
  escaped. Characters beyond ASCII are shown as they are (Rust escapes the unprintable
  ones among them).
\<close>

definition dq :: string where "dq = [CHR 0x22]"
definition sq :: string where "sq = [CHR 0x27]"
definition nl :: string where "nl = [CHR 0x0A]"

definition show_hex :: "nat \<Rightarrow> string" where
  "show_hex n = (if n < 16 then [hex_digit n] else [hex_digit (n div 16), hex_digit (n mod 16)])"

definition debug_char :: "char \<Rightarrow> string" where
  "debug_char c =
     (if c = CHR 0x22 \<or> c = CHR 0x5C then [CHR 0x5C, c]
      else if c = CHR 0x0A then [CHR 0x5C, CHR ''n'']
      else if c = CHR 0x0D then [CHR 0x5C, CHR ''r'']
      else if c = CHR 0x09 then [CHR 0x5C, CHR ''t'']
      else if c = CHR 0x00 then [CHR 0x5C, CHR ''0'']
      else if code c < 32 \<or> code c = 127 then CHR 0x5C # ''u{'' @ show_hex (code c) @ ''}''
      else [c])"

definition debug_str :: "string \<Rightarrow> string" where
  "debug_str s = dq @ concat (map debug_char s) @ dq"

text \<open>An absolute path is the list of its components.\<close>

type_synonym path = "string list"

definition path_display :: "path \<Rightarrow> string" where
  "path_display p = (if p = [] then ''/'' else concat (map (\<lambda>c. CHR ''/'' # c) p))"

text \<open>\<open>Path::join\<close> on Unix.\<close>

definition path_join :: "string \<Rightarrow> string \<Rightarrow> string" where
  "path_join p c =
     (if prefix ''/'' c \<or> p = [] then c else if suffix ''/'' p then p @ c else p @ ''/'' @ c)"

definition quoted :: "string \<Rightarrow> string" where
  "quoted s = dq @ s @ dq"

end
