(* ===== verification/Agent_Health.thy ===== *)
theory Agent_Health
  imports Text_Ops
begin

text \<open>
  \<open>src/src/serve/runtime.rs\<close>: the launch health of a route. \<open>AgentHealth\<close> counts
  launch outcomes and keeps the outcome of the newest generation; a \<open>LaunchState\<close>
  collects what one connection shows (the initialize request, the captured stderr tail) and
  makes sure its outcome is recorded once; \<open>LaunchGuard\<close> records the outcome of a
  connection that ends or is dropped. The launches of one route run concurrently and share
  the health record; \<open>health_step\<close> interleaves them.

  A mutex-protected update and a compare-and-exchange are atomic steps. The
  compare-and-exchange of a launch touches that launch only, so it is taken together with
  the health update that follows it.
\<close>

section \<open>Health of a route\<close>

record ReadinessFailure =
  rf_at :: nat
  rf_detail :: string

record AgentHealthState =
  attempts :: u64
  failures :: u64
  outcome_generation :: u64
  last_attempt_failed :: bool
  last_failure :: "ReadinessFailure option"

record AgentHealth =
  health_state :: AgentHealthState
  next_gen :: u64

definition AgentHealthState_default :: AgentHealthState where
  "AgentHealthState_default =
     \<lparr>attempts = 0, failures = 0, outcome_generation = 0, last_attempt_failed = False,
      last_failure = None\<rparr>"

definition AgentHealth_default :: AgentHealth where
  "AgentHealth_default = \<lparr>health_state = AgentHealthState_default, next_gen = 0\<rparr>"

definition next_generation :: "AgentHealth \<Rightarrow> u64 \<times> AgentHealth" where
  "next_generation h = (next_gen h + 1, h\<lparr>next_gen := next_gen h + 1\<rparr>)"

definition record_ok :: "u64 \<Rightarrow> AgentHealthState \<Rightarrow> AgentHealthState" where
  "record_ok generation s =
     (let s1 = s\<lparr>attempts := attempts s + 1\<rparr>
      in if generation > outcome_generation s1
         then s1\<lparr>outcome_generation := generation, last_attempt_failed := False\<rparr>
         else s1)"

definition record_failure :: "nat \<Rightarrow> u64 \<Rightarrow> string \<Rightarrow> AgentHealthState \<Rightarrow> AgentHealthState" where
  "record_failure now generation detail s =
     (let s1 = s\<lparr>attempts := attempts s + 1, failures := failures s + 1\<rparr>
      in if generation > outcome_generation s1
         then s1\<lparr>outcome_generation := generation, last_attempt_failed := True,
                 last_failure := Some \<lparr>rf_at = now, rf_detail = detail\<rparr>\<rparr>
         else s1)"

record ReadinessSnapshot =
  rs_attempts :: u64
  rs_failures :: u64
  rs_last_attempt_failed :: bool
  rs_last_failure :: "ReadinessFailure option"

definition snapshot :: "AgentHealthState \<Rightarrow> ReadinessSnapshot" where
  "snapshot s = \<lparr>rs_attempts = attempts s, rs_failures = failures s,
     rs_last_attempt_failed = last_attempt_failed s, rs_last_failure = last_failure s\<rparr>"

text \<open>
  \<open>GET /readyz\<close>. \<open>elapsed\<close> is the debug output of the time since the failure, absent
  when the clock went backwards.
\<close>

definition readyz :: "(nat \<Rightarrow> string option) \<Rightarrow> AgentHealthState \<Rightarrow> nat \<times> string" where
  "readyz elapsed s =
     (let snap = snapshot s
      in if \<not> rs_last_attempt_failed snap then (200, ''ready'' @ nl)
         else
           let detail =
             (case rs_last_failure snap of
                None \<Rightarrow> []
              | Some failure \<Rightarrow>
                  (let age = (case elapsed (rf_at failure) of
                                Some t \<Rightarrow> t @ '' ago'' | None \<Rightarrow> ''recently'')
                   in ''last failure ('' @ age @ ''): '' @ rf_detail failure @ nl))
           in (503, ''not ready: '' @ show_u64 (rs_failures snap) @ '' of ''
                      @ show_u64 (rs_attempts snap) @ '' agent launches failed; '' @ detail))"

section \<open>One launch\<close>

record 'id LaunchState =
  generation :: u64
  outcome_recorded :: bool
  initialize_requested_flag :: bool
  initialize_id :: "'id option"
  stderr_tail :: string

definition STDERR_TAIL_BYTES :: nat where
  "STDERR_TAIL_BYTES = 16 * 1024"

definition LaunchState_new :: "u64 \<Rightarrow> 'id LaunchState" where
  "LaunchState_new gen = \<lparr>generation = gen, outcome_recorded = False,
     initialize_requested_flag = False, initialize_id = None, stderr_tail = []\<rparr>"

text \<open>The \<open>while\<close> loop of \<open>push_stderr\<close>: pop from the front until the line fits.\<close>

fun pop_until_fits :: "nat \<Rightarrow> string \<Rightarrow> string" where
  "pop_until_fits required [] = []"
| "pop_until_fits required (b # tail) =
     (if length (b # tail) + required > STDERR_TAIL_BYTES
      then pop_until_fits required tail else b # tail)"

definition push_tail :: "string \<Rightarrow> string \<Rightarrow> string" where
  "push_tail line tail =
     (let required = length line + 1
      in if required \<ge> STDERR_TAIL_BYTES
         then drop (length line - (STDERR_TAIL_BYTES - 1)) line @ nl
         else pop_until_fits required tail @ line @ nl)"

definition push_stderr :: "string \<Rightarrow> 'id LaunchState \<Rightarrow> 'id LaunchState" where
  "push_stderr line st = st\<lparr>stderr_tail := push_tail line (stderr_tail st)\<rparr>"

definition initialize_requested :: "'id \<Rightarrow> 'id LaunchState \<Rightarrow> 'id LaunchState" where
  "initialize_requested i st = st\<lparr>initialize_requested_flag := True, initialize_id := Some i\<rparr>"

definition initialize_id_matches :: "'id \<Rightarrow> 'id LaunchState \<Rightarrow> bool" where
  "initialize_id_matches i st = (initialize_id st = Some i)"

definition try_record_outcome :: "'id LaunchState \<Rightarrow> bool \<times> 'id LaunchState" where
  "try_record_outcome st = (\<not> outcome_recorded st, st\<lparr>outcome_recorded := True\<rparr>)"

datatype line_direction = DStderr | DStdout | DStdin

definition forward_agent_line ::
    "string \<Rightarrow> line_direction \<Rightarrow> 'id LaunchState \<Rightarrow> 'id LaunchState \<times> string list" where
  "forward_agent_line line direction st =
     (case direction of
        DStderr \<Rightarrow> (push_stderr line st, [line])
      | DStdout \<Rightarrow> (st, [])
      | DStdin \<Rightarrow> (st, []))"

text \<open>
  The JSON-RPC messages that the bridge shows to the two inspectors of \<open>connect_to\<close>. An
  error response carries its serialized text, absent when serialization fails.
\<close>

datatype 'id message =
    Request (request_id: 'id) (request_method: string)
  | ResponseResult 'id
  | ResponseError 'id "string option"
  | Notification

definition inspect_response ::
    "nat \<Rightarrow> 'id message \<Rightarrow> 'id LaunchState \<times> AgentHealthState \<Rightarrow> 'id LaunchState \<times> AgentHealthState"
where
  "inspect_response now m = (\<lambda>(st, h).
     (case m of
        ResponseResult i \<Rightarrow>
          if initialize_id_matches i st then
            (case try_record_outcome st of
               (True, st') \<Rightarrow> (st', record_ok (generation st) h)
             | (False, st') \<Rightarrow> (st', h))
          else (st, h)
      | ResponseError i text \<Rightarrow>
          if initialize_id_matches i st then
            (case try_record_outcome st of
               (True, st') \<Rightarrow>
                 (st', record_failure now (generation st)
                    (case text of Some t \<Rightarrow> t | None \<Rightarrow> ''initialize failed'') h)
             | (False, st') \<Rightarrow> (st', h))
          else (st, h)
      | _ \<Rightarrow> (st, h)))"

definition inspect_request :: "'id message \<Rightarrow> 'id LaunchState \<Rightarrow> 'id LaunchState" where
  "inspect_request m st =
     (case m of
        Request i method \<Rightarrow> if method = ''initialize'' then initialize_requested i st else st
      | _ \<Rightarrow> st)"

text \<open>\<open>LaunchGuard::complete\<close> and \<open>LaunchGuard::drop\<close>.\<close>

definition guard_fail ::
    "nat \<Rightarrow> string \<Rightarrow> 'id LaunchState \<times> AgentHealthState \<Rightarrow> 'id LaunchState \<times> AgentHealthState" where
  "guard_fail now detail = (\<lambda>(st, h).
     (case try_record_outcome st of
        (True, st') \<Rightarrow> (st', record_failure now (generation st) detail h)
      | (False, st') \<Rightarrow> (st', h)))"

definition guard_complete ::
    "nat \<Rightarrow> string + unit \<Rightarrow> 'id LaunchState \<times> AgentHealthState \<Rightarrow> 'id LaunchState \<times> AgentHealthState"
where
  "guard_complete now outcome = (\<lambda>(st, h).
     if outcome_recorded st then (st, h)
     else (case outcome of
        Inr _ \<Rightarrow>
          guard_fail now
            (if initialize_requested_flag st
             then ''agent connection ended before completing initialize''
             else ''agent connection ended without sending initialize'') (st, h)
      | Inl e \<Rightarrow> guard_fail now e (st, h)))"

definition guard_drop ::
    "nat \<Rightarrow> (string \<Rightarrow> string) \<Rightarrow> 'id LaunchState \<times> AgentHealthState \<Rightarrow> 'id LaunchState \<times> AgentHealthState"
where
  "guard_drop now utf8_lossy = (\<lambda>(st, h).
     if initialize_requested_flag st then
       let tail = utf8_lossy (stderr_tail st)
       in guard_fail now
            (if tail = []
             then ''agent connection ended before completing initialize (no stderr captured)''
             else ''agent connection ended before completing initialize; stderr tail:'' @ nl @ tail)
            (st, h)
     else guard_fail now ''agent connection ended without sending initialize'' (st, h))"

end
