(* ===== verification/Health_Machine.thy ===== *)
theory Health_Machine
  imports Agent_Health "HOL-Library.Multiset"
begin

text \<open>
  What \<open>Agent_Health\<close> guarantees: the captured stderr tail is the end of the stream, the
  health record is the replay of the recorded outcomes with the newest generation deciding,
  and concurrent launches of a route each record exactly one outcome.
\<close>

section \<open>The stderr tail\<close>

lemma pop_until_fits_eq:
  "required \<le> STDERR_TAIL_BYTES \<Longrightarrow>
     pop_until_fits required tail = take_last (STDERR_TAIL_BYTES - required) tail"
proof (induction tail)
  case Nil
  then show ?case by (simp add: take_last_def)
next
  case (Cons b tail)
  then show ?case by (auto simp: take_last_def Suc_diff_le)
qed

lemma length_nl [simp]: "length nl = 1"
  by (simp add: nl_def)

lemma push_tail_eq: "push_tail line tail = take_last STDERR_TAIL_BYTES (tail @ line @ nl)"
proof (cases "length line + 1 \<ge> STDERR_TAIL_BYTES")
  case True
  have pos: "0 < STDERR_TAIL_BYTES" by (simp add: STDERR_TAIL_BYTES_def)
  have "take_last STDERR_TAIL_BYTES (tail @ line @ nl) = take_last STDERR_TAIL_BYTES (line @ nl)"
    using True by (intro take_last_append_long) simp
  also have "\<dots> = drop (length line - (STDERR_TAIL_BYTES - 1)) line @ nl"
    using True pos by (simp add: take_last_def nl_def)
  finally show ?thesis using True by (simp add: push_tail_def)
next
  case False
  then show ?thesis
    by (simp add: push_tail_def pop_until_fits_eq take_last_append[of _ tail]
        take_last_append[of _ line] take_last_all)
qed

lemma push_tail_bound: "length (push_tail line tail) \<le> STDERR_TAIL_BYTES"
  by (simp add: push_tail_eq)

lemma fold_push_tail:
  "fold push_tail lines tail =
     (if lines = [] then tail
      else take_last STDERR_TAIL_BYTES (tail @ concat (map (\<lambda>l. l @ nl) lines)))"
proof (induction lines arbitrary: tail)
  case (Cons l lines)
  then show ?case
    by (cases "lines = []")
      (simp_all add: push_tail_eq take_last_take_last_append)
qed simp

lemma stderr_tail_fold:
  "stderr_tail (fold push_stderr lines st) = fold push_tail lines (stderr_tail st)"
  by (induction lines arbitrary: st) (simp_all add: push_stderr_def)

section \<open>The health record as a replay\<close>

text \<open>A recorded outcome: generation, and the failure if it failed.\<close>

type_synonym outcome = "u64 \<times> ReadinessFailure option"

definition apply_outcome :: "outcome \<Rightarrow> AgentHealthState \<Rightarrow> AgentHealthState" where
  "apply_outcome r h =
     (case snd r of
        None \<Rightarrow> record_ok (fst r) h
      | Some f \<Rightarrow> record_failure (rf_at f) (fst r) (rf_detail f) h)"

definition replay :: "outcome list \<Rightarrow> AgentHealthState" where
  "replay log = fold apply_outcome log AgentHealthState_default"

lemma replay_Nil: "replay [] = AgentHealthState_default"
  by (simp add: replay_def)

lemma replay_snoc: "replay (log @ [r]) = apply_outcome r (replay log)"
  by (simp add: replay_def)

lemma apply_outcome_fields:
  "attempts (apply_outcome r h) = attempts h + 1"
  "failures (apply_outcome r h) = failures h + (if snd r = None then 0 else 1)"
  "outcome_generation (apply_outcome r h) = max (outcome_generation h) (fst r)"
  "last_attempt_failed (apply_outcome r h) =
     (if fst r > outcome_generation h then snd r \<noteq> None else last_attempt_failed h)"
  "last_failure (apply_outcome r h) =
     (if fst r > outcome_generation h \<and> snd r \<noteq> None then snd r else last_failure h)"
  by (auto simp: apply_outcome_def record_ok_def record_failure_def Let_def max_def
      split: option.splits)

lemma replay_counts:
  "attempts (replay log) = of_nat (length log)"
  "failures (replay log) = of_nat (length (filter (\<lambda>r. snd r \<noteq> None) log))"
  by (induction log rule: rev_induct)
    (auto simp: replay_Nil replay_snoc AgentHealthState_default_def apply_outcome_fields)

text \<open>The recorded outcome with the greatest generation decides readiness.\<close>

lemma replay_newest:
  assumes "distinct (map fst log)" "0 \<notin> fst ` set log"
  shows "outcome_generation (replay log) = (if log = [] then 0 else Max (fst ` set log))
    \<and> (\<forall>r \<in> set log. fst r = outcome_generation (replay log) \<longrightarrow>
         last_attempt_failed (replay log) = (snd r \<noteq> None)
         \<and> (snd r \<noteq> None \<longrightarrow> last_failure (replay log) = snd r))"
  using assms
proof (induction log rule: rev_induct)
  case Nil
  then show ?case by (simp add: replay_Nil AgentHealthState_default_def)
next
  case (snoc r log)
  let ?h = "replay log"
  from snoc have IH: "outcome_generation ?h = (if log = [] then 0 else Max (fst ` set log))"
    and each: "\<forall>q \<in> set log. fst q = outcome_generation ?h \<longrightarrow>
         last_attempt_failed ?h = (snd q \<noteq> None) \<and> (snd q \<noteq> None \<longrightarrow> last_failure ?h = snd q)"
    and fresh: "fst r \<notin> fst ` set log" and pos: "fst r \<noteq> 0"
    by auto
  have le: "fst q \<le> outcome_generation ?h" if "q \<in> set log" for q
    using that by (auto simp: IH)
  have gen: "outcome_generation (replay (log @ [r])) =
      (if log @ [r] = [] then 0 else Max (fst ` set (log @ [r])))"
    by (auto simp: replay_snoc apply_outcome_fields IH max.commute)
  have ne: "fst r \<noteq> outcome_generation ?h"
  proof (cases "log = []")
    case True
    with pos IH show ?thesis by simp
  next
    case False
    then have "outcome_generation ?h \<in> fst ` set log" by (simp add: IH)
    with fresh show ?thesis by metis
  qed
  show ?case
  proof (intro conjI gen ballI impI)
    fix q
    assume q: "q \<in> set (log @ [r])" "fst q = outcome_generation (replay (log @ [r]))"
    show "last_attempt_failed (replay (log @ [r])) = (snd q \<noteq> None)"
      "snd q \<noteq> None \<Longrightarrow> last_failure (replay (log @ [r])) = snd q"
      using q ne each le[of q] pos
      by (auto simp: replay_snoc apply_outcome_fields max_def not_le split: if_splits)
  qed
qed

lemma replay_newest_at:
  assumes "distinct (map fst log)" "0 \<notin> fst ` set log" "r \<in> set log" "fst r = Max (fst ` set log)"
  shows "last_attempt_failed (replay log) = (snd r \<noteq> None)"
    and "snd r \<noteq> None \<Longrightarrow> last_failure (replay log) = snd r"
proof -
  have "log \<noteq> []" using assms(3) by auto
  then have g: "outcome_generation (replay log) = Max (fst ` set log)"
    using conjunct1[OF replay_newest[OF assms(1,2)]] by simp
  have "last_attempt_failed (replay log) = (snd r \<noteq> None)
         \<and> (snd r \<noteq> None \<longrightarrow> last_failure (replay log) = snd r)"
    by (rule mp[OF conjunct2[OF replay_newest[OF assms(1,2)], THEN bspec, OF assms(3)]])
      (simp only: g assms(4))
  then show "last_attempt_failed (replay log) = (snd r \<noteq> None)"
    and "snd r \<noteq> None \<Longrightarrow> last_failure (replay log) = snd r" by auto
qed

lemma replay_permute:
  assumes "distinct (map fst log)" "0 \<notin> fst ` set log" "mset log = mset log'"
  shows "readyz elapsed (replay log) = readyz elapsed (replay log')"
proof (cases "log = []")
  case True
  with assms(3) show ?thesis by simp
next
  case False
  from assms(3) have set: "set log = set log'" by (metis set_mset_mset)
  from assms(3) have "mset (map fst log) = mset (map fst log')" by simp
  with assms(1) have d': "distinct (map fst log')" by (metis mset_eq_imp_distinct_iff)
  have len: "length log = length log'" using assms(3) by (metis size_mset)
  have fl: "length (filter P log) = length (filter P log')" for P
    using assms(3) by (metis mset_filter size_mset)
  have "Max (fst ` set log) \<in> fst ` set log" using False by simp
  then obtain r where mx: "Max (fst ` set log) = fst r" and r1: "r \<in> set log" by (rule imageE)
  note r = r1 mx[symmetric]
  have r': "r \<in> set log'" "fst r = Max (fst ` set log')"
    using r unfolding set by blast+
  have z': "0 \<notin> fst ` set log'" using assms(2) unfolding set .
  note f = replay_newest_at[OF assms(1,2) r] and f' = replay_newest_at[OF d' z' r']
  show ?thesis
    using f f' unfolding readyz_def snapshot_def Let_def
    by (cases "snd r") (simp_all only: ReadinessSnapshot.simps replay_counts len fl option.simps
        not_True_eq_False not_False_eq_True if_True if_False simp_thms HOL.simp_thms)
qed

section \<open>Concurrent launches of one route\<close>

text \<open>
  A launch is created by the agent factory with the next generation, connects once it has a
  process permit or is refused, and ends by completing or by being dropped. Only a
  connected launch owns a guard.
\<close>

datatype phase = Created | Connected | Refused | Ended

record 'id launch =
  l_state :: "'id LaunchState"
  l_phase :: phase

record 'id route_health =
  rh_health :: AgentHealth
  rh_launches :: "'id launch list"

definition route_health_init :: "'id route_health" where
  "route_health_init = \<lparr>rh_health = AgentHealth_default, rh_launches = []\<rparr>"

definition spawn_launch :: "'id route_health \<Rightarrow> 'id route_health" where
  "spawn_launch s =
     (let (gen, h) = next_generation (rh_health s)
      in s\<lparr>rh_health := h,
           rh_launches := rh_launches s @ [\<lparr>l_state = LaunchState_new gen, l_phase = Created\<rparr>]\<rparr>)"

text \<open>An operation of launch \<open>i\<close> on its own state and the shared health record.\<close>

definition on_launch ::
    "nat \<Rightarrow> phase \<Rightarrow>
     ('id LaunchState \<times> AgentHealthState \<Rightarrow> 'id LaunchState \<times> AgentHealthState) \<Rightarrow>
     'id route_health \<Rightarrow> 'id route_health" where
  "on_launch i ph f s =
     (let (st, hs) = f (l_state (rh_launches s ! i), health_state (rh_health s))
      in s\<lparr>rh_health := (rh_health s)\<lparr>health_state := hs\<rparr>,
           rh_launches := (rh_launches s)[i := \<lparr>l_state = st, l_phase = ph\<rparr>]\<rparr>)"

definition phase_of :: "'id route_health \<Rightarrow> nat \<Rightarrow> phase option" where
  "phase_of s i = (if i < length (rh_launches s) then Some (l_phase (rh_launches s ! i)) else None)"

inductive health_step :: "'id route_health \<Rightarrow> 'id route_health \<Rightarrow> bool" where
  spawn: "health_step s (spawn_launch s)"
| refuse: "phase_of s i = Some Created \<Longrightarrow> health_step s (on_launch i Refused id s)"
| connect: "phase_of s i = Some Created \<Longrightarrow> health_step s (on_launch i Connected id s)"
| agent_line: "phase_of s i = Some ph \<Longrightarrow>
     health_step s (on_launch i ph (\<lambda>(st, h). (fst (forward_agent_line line dir st), h)) s)"
| client_message: "phase_of s i = Some Connected \<Longrightarrow>
     health_step s (on_launch i Connected (\<lambda>(st, h). (inspect_request m st, h)) s)"
| agent_message: "phase_of s i = Some Connected \<Longrightarrow>
     health_step s (on_launch i Connected (inspect_response now m) s)"
| complete: "phase_of s i = Some Connected \<Longrightarrow>
     health_step s (on_launch i Ended (guard_complete now outcome) s)"
| dropped: "phase_of s i = Some Connected \<Longrightarrow>
     health_step s (on_launch i Ended (guard_drop now lossy) s)"

text \<open>
  Every operation leaves the health record alone, or records one outcome for the launch's
  own generation and marks the launch as recorded.
\<close>

definition records_once ::
    "('id LaunchState \<times> AgentHealthState \<Rightarrow> 'id LaunchState \<times> AgentHealthState) \<Rightarrow> bool" where
  "records_once f \<longleftrightarrow>
     (\<forall>st h. generation (fst (f (st, h))) = generation st \<and>
        (outcome_recorded (fst (f (st, h))) = outcome_recorded st \<and> snd (f (st, h)) = h
         \<or> \<not> outcome_recorded st \<and> outcome_recorded (fst (f (st, h)))
           \<and> (\<exists>fail. snd (f (st, h)) = apply_outcome (generation st, fail) h)))"

named_theorems recorder_intros \<open>operations that record at most one outcome per launch\<close>

lemma apply_outcome_None: "record_ok g h = apply_outcome (g, None) h"
  and apply_outcome_Some:
    "record_failure now g d h = apply_outcome (g, Some \<lparr>rf_at = now, rf_detail = d\<rparr>) h"
  by (simp_all add: apply_outcome_def)

lemma records_once_id [recorder_intros]: "records_once id"
  by (simp add: records_once_def)

lemma records_once_state [recorder_intros]:
  "(\<And>st. generation (g st) = generation st \<and> outcome_recorded (g st) = outcome_recorded st)
   \<Longrightarrow> records_once (\<lambda>(st, h). (g st, h))"
  by (simp add: records_once_def)

lemma guard_fail_eq:
  "guard_fail now d (st, h) =
     (st\<lparr>outcome_recorded := True\<rparr>,
      if outcome_recorded st then h
      else apply_outcome (generation st, Some \<lparr>rf_at = now, rf_detail = d\<rparr>) h)"
  by (simp add: guard_fail_def try_record_outcome_def apply_outcome_Some)

lemma guard_drop_eq: "\<exists>d. guard_drop now lossy (st, h) = guard_fail now d (st, h)"
  unfolding guard_drop_def Let_def prod.case by (metis (full_types))

lemma guard_complete_eq:
  "outcome_recorded st \<Longrightarrow> guard_complete now r (st, h) = (st, h)"
  "\<not> outcome_recorded st \<Longrightarrow> \<exists>d. guard_complete now r (st, h) = guard_fail now d (st, h)"
   apply (simp add: guard_complete_def)
  apply (cases r)
   apply (simp_all only: guard_complete_def prod.case if_False sum.case)
   apply blast+
  done

lemma records_once_inspect_response [recorder_intros]: "records_once (inspect_response now m)"
  unfolding records_once_def inspect_response_def
  by (cases m) (auto simp: try_record_outcome_def apply_outcome_Some apply_outcome_None split: bool.splits)

lemma records_onceI:
  assumes "\<And>st h. f (st, h) = (st, h) \<or> (\<exists>d. f (st, h) = guard_fail now d (st, h))"
  shows "records_once f"
  unfolding records_once_def
proof (intro allI)
  fix st h
  from assms[of st h] show "generation (fst (f (st, h))) = generation st \<and>
        (outcome_recorded (fst (f (st, h))) = outcome_recorded st \<and> snd (f (st, h)) = h
         \<or> \<not> outcome_recorded st \<and> outcome_recorded (fst (f (st, h)))
           \<and> (\<exists>fail. snd (f (st, h)) = apply_outcome (generation st, fail) h))"
    by (cases "outcome_recorded st") (auto simp: guard_fail_eq)
qed

lemma records_once_guard_complete [recorder_intros]: "records_once (guard_complete now r)"
  by (rule records_onceI[where now = now]) (metis guard_complete_eq)

lemma records_once_guard_drop [recorder_intros]: "records_once (guard_drop now lossy)"
  by (rule records_onceI[where now = now]) (metis guard_drop_eq)

lemma guard_always_records:
  "outcome_recorded (fst (guard_complete now r (st, h)))"
  "outcome_recorded (fst (guard_drop now lossy (st, h)))"
proof -
  show "outcome_recorded (fst (guard_complete now r (st, h)))"
    using guard_complete_eq[of st now r h] by (cases "outcome_recorded st") (auto simp: guard_fail_eq)
  show "outcome_recorded (fst (guard_drop now lossy (st, h)))"
    using guard_drop_eq[of now lossy st h] by (auto simp: guard_fail_eq)
qed

lemma inspect_request_frame:
  "generation (inspect_request m st) = generation st"
  "outcome_recorded (inspect_request m st) = outcome_recorded st"
  by (auto simp: inspect_request_def initialize_requested_def split: message.splits)

lemma forward_line_frame:
  "generation (fst (forward_agent_line line dir st)) = generation st"
  "outcome_recorded (fst (forward_agent_line line dir st)) = outcome_recorded st"
  by (auto simp: forward_agent_line_def push_stderr_def split: line_direction.splits)

text \<open>
  The invariant: generations are the launch numbers, the health record is the replay of
  some log, the log holds exactly the launches marked as recorded, and a launch is marked
  only while or after it was connected, and always once it has ended.
\<close>

definition recorded_gens :: "'id launch list \<Rightarrow> u64 list" where
  "recorded_gens ls = map (\<lambda>l. generation (l_state l)) (filter (\<lambda>l. outcome_recorded (l_state l)) ls)"

definition phase_ok :: "'id launch \<Rightarrow> bool" where
  "phase_ok l \<longleftrightarrow>
     (l_phase l = Ended \<longrightarrow> outcome_recorded (l_state l))
     \<and> (l_phase l \<in> {Created, Refused} \<longrightarrow> \<not> outcome_recorded (l_state l))"

definition health_inv :: "'id route_health \<Rightarrow> bool" where
  "health_inv s \<longleftrightarrow>
     next_gen (rh_health s) = of_nat (length (rh_launches s))
     \<and> (\<forall>i < length (rh_launches s). generation (l_state (rh_launches s ! i)) = of_nat (Suc i))
     \<and> (\<forall>l \<in> set (rh_launches s). phase_ok l)
     \<and> (\<exists>log. health_state (rh_health s) = replay log
              \<and> mset (map fst log) = mset (recorded_gens (rh_launches s)))"

lemma recorded_gens_update:
  assumes "i < length ls"
  shows "mset (recorded_gens (ls[i := l])) + mset (recorded_gens [ls ! i])
       = mset (recorded_gens ls) + mset (recorded_gens [l])"
proof -
  have "mset (ls[i := l]) = mset ls - {#ls ! i#} + {#l#}"
    using assms by (simp add: mset_update)
  then have "mset (ls[i := l]) + {#ls ! i#} = mset ls + {#l#}"
    using assms by simp
  then have "image_mset (\<lambda>l. generation (l_state l))
        (filter_mset (\<lambda>l. outcome_recorded (l_state l)) (mset (ls[i := l]) + {#ls ! i#}))
      = image_mset (\<lambda>l. generation (l_state l))
        (filter_mset (\<lambda>l. outcome_recorded (l_state l)) (mset ls + {#l#}))"
    by simp
  then show ?thesis by (auto simp: recorded_gens_def)
qed

text \<open>The preservation argument shared by every operation of a launch.\<close>

lemma on_launch_inv:
  assumes inv: "health_inv s" and i: "i < length (rh_launches s)" and f: "records_once f"
    and ph: "\<And>l h. phase_ok l \<Longrightarrow> l = rh_launches s ! i \<Longrightarrow>
               phase_ok \<lparr>l_state = fst (f (l_state l, h)), l_phase = ph\<rparr>"
  shows "health_inv (on_launch i ph f s)"
proof -
  let ?l = "rh_launches s ! i" and ?h = "health_state (rh_health s)"
  obtain st hs where eq: "f (l_state ?l, ?h) = (st, hs)" by fastforce
  let ?l' = "\<lparr>l_state = st, l_phase = ph\<rparr>"
  have frame: "generation st = generation (l_state ?l)"
    and cases: "outcome_recorded st = outcome_recorded (l_state ?l) \<and> hs = ?h
      \<or> \<not> outcome_recorded (l_state ?l) \<and> outcome_recorded st
        \<and> (\<exists>fail. hs = apply_outcome (generation (l_state ?l), fail) ?h)"
    using f[unfolded records_once_def, rule_format, of "l_state ?l" ?h] eq by auto
  from inv obtain log where log: "?h = replay log"
    "mset (map fst log) = mset (recorded_gens (rh_launches s))"
    by (auto simp: health_inv_def)
  have upd: "mset (recorded_gens ((rh_launches s)[i := ?l'])) + mset (recorded_gens [?l])
      = mset (recorded_gens (rh_launches s)) + mset (recorded_gens [?l'])"
    by (rule recorded_gens_update[OF i])
  have log': "\<exists>log'. hs = replay log' \<and>
      mset (map fst log') = mset (recorded_gens ((rh_launches s)[i := ?l']))"
    using cases
  proof
    assume "outcome_recorded st = outcome_recorded (l_state ?l) \<and> hs = ?h"
    then show ?thesis using log upd frame by (auto simp: recorded_gens_def)
  next
    assume "\<not> outcome_recorded (l_state ?l) \<and> outcome_recorded st
        \<and> (\<exists>fail. hs = apply_outcome (generation (l_state ?l), fail) ?h)"
    then obtain fail where r: "\<not> outcome_recorded (l_state ?l)" "outcome_recorded st"
      and hs: "hs = apply_outcome (generation (l_state ?l), fail) ?h" by blast
    show ?thesis
    proof (intro exI conjI)
      show "hs = replay (log @ [(generation (l_state ?l), fail)])"
        by (simp add: replay_snoc hs log)
      show "mset (map fst (log @ [(generation (l_state ?l), fail)]))
          = mset (recorded_gens ((rh_launches s)[i := ?l']))"
        using upd log(2) r frame by (simp add: recorded_gens_def)
    qed
  qed
  have pk: "phase_ok ?l'"
    using ph[of ?l ?h] inv i eq by (auto simp: health_inv_def)
  show ?thesis
    using inv i eq frame log' pk
    by (auto simp: health_inv_def on_launch_def nth_list_update dest!: set_update_subset_insert[THEN subsetD])
qed

lemma spawn_launch_inv: "health_inv s \<Longrightarrow> health_inv (spawn_launch s)"
  by (auto simp: health_inv_def spawn_launch_def next_generation_def Let_def nth_append
      LaunchState_new_def phase_ok_def recorded_gens_def less_Suc_eq)

lemma phase_of_Some: "phase_of s i = Some p \<longleftrightarrow> i < length (rh_launches s) \<and> l_phase (rh_launches s ! i) = p"
  by (auto simp: phase_of_def)

lemma health_step_inv: "health_step s t \<Longrightarrow> health_inv s \<Longrightarrow> health_inv t"
proof (induction rule: health_step.induct)
  case (spawn s)
  then show ?case by (rule spawn_launch_inv)
next
  case (refuse s i)
  then show ?case by (intro on_launch_inv recorder_intros) (auto simp: phase_of_Some phase_ok_def)
next
  case (connect s i)
  then show ?case by (intro on_launch_inv recorder_intros) (auto simp: phase_of_Some phase_ok_def)
next
  case (agent_line s i ph line dir)
  then show ?case
    by (intro on_launch_inv recorder_intros) (auto simp: phase_of_Some phase_ok_def forward_line_frame)
next
  case (client_message s i m)
  then show ?case
    by (intro on_launch_inv recorder_intros) (auto simp: phase_of_Some phase_ok_def inspect_request_frame)
next
  case (agent_message s i now m)
  then show ?case by (intro on_launch_inv recorder_intros) (auto simp: phase_of_Some phase_ok_def)
next
  case (complete s i now outcome)
  then show ?case
    by (intro on_launch_inv recorder_intros) (auto simp: phase_of_Some phase_ok_def guard_always_records)
next
  case (dropped s i now lossy)
  then show ?case
    by (intro on_launch_inv recorder_intros) (auto simp: phase_of_Some phase_ok_def guard_always_records)
qed

interpretation health: invariant_machine "\<lambda>s. s = route_health_init" health_step health_inv
proof
  show "s = route_health_init \<Longrightarrow> health_inv s" for s :: "'id route_health"
    by (auto simp: health_inv_def route_health_init_def AgentHealth_default_def recorded_gens_def
        intro: exI[of _ "[]"] simp: replay_Nil)
  show "health_inv s \<Longrightarrow> health_step s t \<Longrightarrow> health_inv t" for s t :: "'id route_health"
    by (rule health_step_inv)
qed

abbreviation health_reachable :: "'id route_health \<Rightarrow> bool" where
  "health_reachable \<equiv> reach (\<lambda>s. s = route_health_init) health_step"

section \<open>Properties\<close>

lemma map_generations:
  assumes "health_inv s"
  shows "map (\<lambda>l. generation (l_state l)) (rh_launches s)
       = map of_nat [1..<Suc (length (rh_launches s))]"
  using assms by (intro nth_equalityI) (auto simp: health_inv_def simp del: upt_Suc)

lemma distinct_generations:
  assumes "health_inv s" "length (rh_launches s) < 2 ^ 64"
  shows "distinct (map (\<lambda>l. generation (l_state l)) (rh_launches s))"
    and "0 \<notin> (\<lambda>l. generation (l_state l)) ` set (rh_launches s)"
proof -
  note inj = inj_of_nat_u64
  show "distinct (map (\<lambda>l. generation (l_state l)) (rh_launches s))"
    unfolding map_generations[OF assms(1)] distinct_map
    using assms(2) by (auto intro!: inj_on_subset[OF inj])
  show "0 \<notin> (\<lambda>l. generation (l_state l)) ` set (rh_launches s)"
  proof
    assume "0 \<in> (\<lambda>l. generation (l_state l)) ` set (rh_launches s)"
    then have "0 \<in> set (map (\<lambda>l. generation (l_state l)) (rh_launches s))" by simp
    then have "0 \<in> set (map (of_nat :: nat \<Rightarrow> u64) [1..<Suc (length (rh_launches s))])"
      unfolding map_generations[OF assms(1)] .
    then obtain k where "1 \<le> k" "k \<le> length (rh_launches s)" "(of_nat k :: u64) = of_nat 0"
      by (auto simp del: upt_Suc)
    with inj_onD[OF inj, of k 0] assms(2) show False by auto
  qed
qed

lemma recorded_gens_subset:
  "set (recorded_gens ls) \<subseteq> (\<lambda>l. generation (l_state l)) ` set ls"
  by (auto simp: recorded_gens_def)

lemma health_log:
  assumes "health_inv s" "length (rh_launches s) < 2 ^ 64"
  obtains log where "health_state (rh_health s) = replay log" "distinct (map fst log)"
    "0 \<notin> fst ` set log" "fst ` set log = set (recorded_gens (rh_launches s))"
    "length log = length (recorded_gens (rh_launches s))"
proof -
  from assms(1) obtain log where log: "health_state (rh_health s) = replay log"
    "mset (map fst log) = mset (recorded_gens (rh_launches s))"
    by (auto simp: health_inv_def)
  have "distinct (recorded_gens (rh_launches s))"
    using distinct_generations(1)[OF assms] unfolding recorded_gens_def by (rule distinct_map_filter)
  then have d: "distinct (map fst log)" using log(2) by (metis mset_eq_imp_distinct_iff)
  have "set (map fst log) = set (recorded_gens (rh_launches s))"
    using log(2) by (rule mset_eq_setD)
  then have f: "fst ` set log = set (recorded_gens (rh_launches s))" by simp
  have z: "0 \<notin> fst ` set log"
    using distinct_generations(2)[OF assms] recorded_gens_subset[of "rh_launches s"] unfolding f by blast
  have "length (map fst log) = length (recorded_gens (rh_launches s))"
    using log(2) by (rule mset_eq_length)
  with that[OF log(1) d z f] show ?thesis by simp
qed

lemma recorded_le_outcome:
  assumes "health_inv s" "length (rh_launches s) < 2 ^ 64" "g \<in> set (recorded_gens (rh_launches s))"
  shows "g \<le> outcome_generation (health_state (rh_health s))"
proof -
  obtain log where log: "health_state (rh_health s) = replay log" "distinct (map fst log)"
    "0 \<notin> fst ` set log" "fst ` set log = set (recorded_gens (rh_launches s))"
    by (rule health_log[OF assms(1,2)])
  have "log \<noteq> []" using assms(3) log(4) by auto
  then have "outcome_generation (replay log) = Max (fst ` set log)"
    using conjunct1[OF replay_newest[OF log(2,3)]] by simp
  moreover have "g \<le> Max (fst ` set log)" using assms(3) log(4) by simp
  ultimately show ?thesis using log(1) by simp
qed

text \<open>Two launches of which the newer connected and was dropped: the witness state.\<close>

definition two_launches :: "nat route_health" where
  "two_launches = on_launch 1 Ended (guard_drop 7 id)
     (on_launch 1 Connected id (spawn_launch (spawn_launch route_health_init)))"

lemmas two_launches_eval = two_launches_def on_launch_def spawn_launch_def next_generation_def
  route_health_init_def LaunchState_new_def phase_of_def guard_drop_def guard_fail_def
  try_record_outcome_def

lemma two_launches_reachable: "health_reachable two_launches"
proof -
  let ?s = "spawn_launch (spawn_launch route_health_init) :: nat route_health"
  have "health_reachable (route_health_init :: nat route_health)" by (rule reach_init) simp
  then have "health_reachable (spawn_launch route_health_init :: nat route_health)"
    by (rule reach_step) (rule health_step.spawn)
  then have "health_reachable ?s"
    by (rule reach_step) (rule health_step.spawn)
  then have "health_reachable (on_launch 1 Connected id ?s)"
    by (rule reach_step) (rule health_step.connect, simp add: two_launches_eval)
  then show ?thesis
    unfolding two_launches_def
    by (rule reach_step) (rule health_step.dropped, simp add: two_launches_eval)
qed

text \<open>
  The captured stderr of a launch is the last \<open>STDERR_TAIL_BYTES\<close> bytes of
  everything the agent wrote, line terminators included, and never more, whatever the
  lengths of the lines.
\<close>
lemma stderr_tail_is_end_of_stream:
  "let tail = stderr_tail (fold push_stderr lines (LaunchState_new gen))
   in tail = take_last STDERR_TAIL_BYTES (concat (map (\<lambda>l. l @ nl) lines))
      \<and> length tail \<le> STDERR_TAIL_BYTES"
  unfolding stderr_tail_fold Let_def by (simp add: fold_push_tail LaunchState_new_def)

text \<open>
  Property C31: \<open>/readyz\<close> answers the same in whatever order the outcomes of the launches of
  a route are recorded, as every launch has its own positive generation.
\<close>
theorem readyz_order_independent:
  assumes "distinct (map fst log)" "0 \<notin> fst ` set log" "mset log = mset log'"
  shows "readyz elapsed (fold apply_outcome log AgentHealthState_default)
       = readyz elapsed (fold apply_outcome log' AgentHealthState_default)"
  using replay_permute[OF assms] by (simp add: replay_def)

theorem readyz_order_independent_witness:
  "readyz (\<lambda>_. None) (fold apply_outcome
      [(1, Some \<lparr>rf_at = 5, rf_detail = ''boom''\<rparr>), (2, None)] AgentHealthState_default)
   = readyz (\<lambda>_. None) (fold apply_outcome
      [(2, None), (1, Some \<lparr>rf_at = 5, rf_detail = ''boom''\<rparr>)] AgentHealthState_default)"
  by (rule readyz_order_independent) simp_all



text \<open>
  Once a launch has recorded its outcome, an older launch of the same route
  that ends or answers later changes neither the readiness nor the reported failure.
\<close>
lemma older_launch_keeps_readiness:
  assumes "health_reachable s" "length (rh_launches s) < 2 ^ 64"
    and "i < length (rh_launches s)" "outcome_recorded (l_state (rh_launches s ! i))" "j < i"
    and "f \<in> {inspect_response now m, guard_complete now r, guard_drop now lossy}"
  shows "last_attempt_failed (health_state (rh_health (on_launch j ph f s)))
           = last_attempt_failed (health_state (rh_health s))
    \<and> last_failure (health_state (rh_health (on_launch j ph f s)))
           = last_failure (health_state (rh_health s))"
proof -
  have inv: "health_inv s" using assms(1) by (rule health.inv_reach)
  let ?h = "health_state (rh_health s)" and ?lj = "rh_launches s ! j" and ?li = "rh_launches s ! i"
  have once: "records_once f" using assms(6) by (auto intro: recorder_intros)
  obtain st hs where eq: "f (l_state ?lj, ?h) = (st, hs)" by fastforce
  have gens: "generation (l_state ?lj) = of_nat (Suc j)" "generation (l_state ?li) = of_nat (Suc i)"
    using inv assms(3,5) by (auto simp: health_inv_def)
  have "generation (l_state ?li) \<in> set (recorded_gens (rh_launches s))"
    using assms(3,4) by (auto simp: recorded_gens_def)
  then have le: "generation (l_state ?li) \<le> outcome_generation ?h"
    by (rule recorded_le_outcome[OF inv assms(2)])
  have "(of_nat (Suc j) :: u64) < of_nat (Suc i)"
    using assms(2,3,5) by (simp add: word_less_nat_alt unat_of_nat_u64 del: of_nat_Suc)
  with le gens have lt: "generation (l_state ?lj) < outcome_generation ?h" by simp
  have "hs = ?h \<or> (\<exists>fail. hs = apply_outcome (generation (l_state ?lj), fail) ?h)"
    using once[unfolded records_once_def, rule_format, of "l_state ?lj" ?h] eq by auto
  then show ?thesis
    using lt eq by (auto simp: on_launch_def apply_outcome_fields)
qed

theorem older_launch_keeps_readiness_witness:
  "last_attempt_failed (health_state (rh_health
      (on_launch 0 Ended (guard_complete 9 (Inr ())) two_launches)))"
proof -
  have "last_attempt_failed (health_state (rh_health
      (on_launch 0 Ended (guard_complete 9 (Inr ())) two_launches)))
    = last_attempt_failed (health_state (rh_health two_launches))"
    using older_launch_keeps_readiness[OF two_launches_reachable, where i = 1 and j = 0
        and f = "guard_complete 9 (Inr ())" and now = 9 and r = "Inr ()" and ph = Ended]
    by (simp add: two_launches_eval)
  then show ?thesis
    by (simp add: two_launches_eval AgentHealth_default_def AgentHealthState_default_def
        record_failure_def)
qed

end
