(* ===== verification/Admission.thy ===== *)
theory Admission
  imports Prelude
begin

text \<open>
  Process admission of a served route (\<open>AdmissionState\<close>, \<open>admit_new_connection\<close> and the
  permit handling of \<open>ObservedAgent::connect_to\<close> in \<open>src/src/serve/runtime.rs\<close>).

  The semaphore is the number of its free permits. An owned permit is held by exactly one
  of: the task-local cell of an HTTP initialize request, the WebSocket reservation, or an
  agent (reserved at construction or acquired when it connects); dropping the holder
  releases it. The handshake mutex is held by the reservation's guard.
\<close>

record AdmissionState =
  process_slots :: nat
  ws_handshake_locked :: bool
  ws_reservation :: "u64 option"
  next_ws_reservation :: u64

definition AdmissionState_new :: "nat \<Rightarrow> AdmissionState" where
  "AdmissionState_new max_processes =
     \<lparr>process_slots = max_processes, ws_handshake_locked = False, ws_reservation = None,
      next_ws_reservation = 0\<rparr>"

definition try_acquire :: "AdmissionState \<Rightarrow> AdmissionState option" where
  "try_acquire a =
     (if process_slots a = 0 then None else Some (a\<lparr>process_slots := process_slots a - 1\<rparr>))"

definition release_permit :: "AdmissionState \<Rightarrow> AdmissionState" where
  "release_permit a = a\<lparr>process_slots := process_slots a + 1\<rparr>"

text \<open>
  \<open>reserve_websocket\<close> once the handshake mutex is granted; \<open>None\<close> while another handshake
  holds it, for the request then waits. Without a permit the guard is dropped again.
\<close>

definition reserve_websocket :: "AdmissionState \<Rightarrow> (u64 option \<times> AdmissionState) option" where
  "reserve_websocket a =
     (if ws_handshake_locked a then None
      else case try_acquire a of
        None \<Rightarrow> Some (None, a)
      | Some a' \<Rightarrow>
          Some (Some (next_ws_reservation a'),
                a'\<lparr>next_ws_reservation := next_ws_reservation a' + 1,
                   ws_reservation := Some (next_ws_reservation a'),
                   ws_handshake_locked := True\<rparr>))"

definition cancel_websocket_reservation :: "u64 \<Rightarrow> AdmissionState \<Rightarrow> AdmissionState" where
  "cancel_websocket_reservation i a =
     (if ws_reservation a = Some i
      then release_permit (a\<lparr>ws_reservation := None, ws_handshake_locked := False\<rparr>)
      else a)"

text \<open>The permit moves to the caller; the guard of the handshake mutex is dropped.\<close>

definition take_websocket_reservation :: "AdmissionState \<Rightarrow> bool \<times> AdmissionState" where
  "take_websocket_reservation a =
     (case ws_reservation a of
        None \<Rightarrow> (False, a)
      | Some _ \<Rightarrow> (True, a\<lparr>ws_reservation := None, ws_handshake_locked := False\<rparr>))"

section \<open>Requests\<close>

record http_request =
  hr_method :: string
  hr_http2 :: bool
  hr_upgrade_websocket :: bool
  hr_connection_id :: bool

datatype request_class = InitialHttp | WebSocket bool | PassThrough

text \<open>
  The case distinction of \<open>admit_new_connection\<close>. \<open>hr_upgrade_websocket\<close> says that the
  \<open>Upgrade\<close> header equals \<open>websocket\<close> up to case, \<open>hr_connection_id\<close> that there is an
  \<open>acp-connection-id\<close> header. \<open>WebSocket\<close> carries whether it came over HTTP/2.
\<close>

definition classify :: "http_request \<Rightarrow> request_class" where
  "classify r =
     (let http1_websocket = hr_upgrade_websocket r;
          http2_websocket = (hr_method r = ''CONNECT'' \<and> hr_http2 r);
          websocket = (http1_websocket \<or> http2_websocket);
          initial_http = (hr_method r = ''POST'' \<and> \<not> hr_connection_id r)
      in if initial_http then InitialHttp
         else if websocket then WebSocket http2_websocket
         else PassThrough)"

definition websocket_accepted :: "bool \<Rightarrow> nat \<Rightarrow> bool" where
  "websocket_accepted http2 status =
     (if http2 then 200 \<le> status \<and> status < 300 else status = 101)"

definition process_capacity_exhausted :: "nat \<times> string" where
  "process_capacity_exhausted = (503, ''agent process capacity exhausted'' @ [CHR 0x0A])"

section \<open>All requests and agents of one route\<close>

text \<open>
  \<open>http\<close> maps an HTTP initialize request in flight to whether its task-local cell still holds
  the permit; \<open>ws\<close> maps a handshake whose response is awaited to its reservation and
  protocol; \<open>agents\<close> maps a constructed agent to whether it owns a permit, and \<open>running\<close>
  are the agents that passed the admission of \<open>connect_to\<close>.
\<close>

record admission_system =
  adm :: AdmissionState
  http :: "(nat \<times> bool) list"
  ws :: "(nat \<times> u64 \<times> bool) list"
  agents :: "(nat \<times> bool) list"
  running :: "nat list"

definition admission_init :: "nat \<Rightarrow> admission_system" where
  "admission_init max_processes =
     \<lparr>adm = AdmissionState_new max_processes, http = [], ws = [], agents = [], running = []\<rparr>"

text \<open>
  The agent factory of \<open>route_runtime_with_stderr_and_lease\<close>: the permit of the current
  HTTP request (\<open>take_reserved_process_permit\<close>), else the WebSocket reservation.
\<close>

definition factory_permit :: "nat option \<Rightarrow> admission_system \<Rightarrow> bool \<times> admission_system" where
  "factory_permit current s =
     (case Option.bind current (map_of (http s)) of
        Some True \<Rightarrow>
          (True, s\<lparr>http := alist_put (the current) False (http s)\<rparr>)
      | _ \<Rightarrow>
          (let (got, a) = take_websocket_reservation (adm s) in (got, s\<lparr>adm := a\<rparr>)))"

definition construct_agent :: "nat option \<Rightarrow> nat \<Rightarrow> admission_system \<Rightarrow> admission_system" where
  "construct_agent current g s =
     (let (got, s') = factory_permit current s
      in s'\<lparr>agents := (g, got) # agents s'\<rparr>)"

text \<open>The permit of \<open>connect_to\<close>: \<open>None\<close> is the capacity error, and the agent is gone.\<close>

definition connect_agent :: "nat \<Rightarrow> admission_system \<Rightarrow> admission_system option" where
  "connect_agent g s =
     (case map_of (agents s) g of
        None \<Rightarrow> None
      | Some True \<Rightarrow> Some (s\<lparr>running := g # running s\<rparr>)
      | Some False \<Rightarrow>
          (case try_acquire (adm s) of
             None \<Rightarrow> None
           | Some a \<Rightarrow> Some (s\<lparr>adm := a, agents := alist_put g True (agents s), running := g # running s\<rparr>)))"

text \<open>Dropping a constructed or running agent.\<close>

definition drop_agent :: "nat \<Rightarrow> admission_system \<Rightarrow> admission_system" where
  "drop_agent g s =
     (let s' = s\<lparr>agents := alist_del g (agents s), running := filter (\<lambda>r. r \<noteq> g) (running s)\<rparr>
      in if map_of (agents s) g = Some True then s'\<lparr>adm := release_permit (adm s')\<rparr> else s')"

definition end_http :: "nat \<Rightarrow> admission_system \<Rightarrow> admission_system" where
  "end_http r s =
     (let s' = s\<lparr>http := alist_del r (http s)\<rparr>
      in if map_of (http s) r = Some True then s'\<lparr>adm := release_permit (adm s')\<rparr> else s')"

definition end_ws :: "nat \<Rightarrow> nat \<Rightarrow> admission_system \<Rightarrow> admission_system" where
  "end_ws r status s =
     (let s' = s\<lparr>ws := alist_del r (ws s)\<rparr>
      in case map_of (ws s) r of
           Some (i, http2) \<Rightarrow>
             if websocket_accepted http2 status then s'
             else s'\<lparr>adm := cancel_websocket_reservation i (adm s')\<rparr>
         | None \<Rightarrow> s')"

inductive admission_step :: "admission_system \<Rightarrow> admission_system \<Rightarrow> bool" where
  http_admit: "map_of (http s) r = None \<Longrightarrow> try_acquire (adm s) = Some a \<Longrightarrow>
     admission_step s (s\<lparr>adm := a, http := (r, True) # http s\<rparr>)"
| http_end: "map_of (http s) r = Some p \<Longrightarrow> admission_step s (end_http r s)"
| ws_admit: "map_of (ws s) r = None \<Longrightarrow> reserve_websocket (adm s) = Some (Some i, a) \<Longrightarrow>
     admission_step s (s\<lparr>adm := a, ws := (r, i, http2) # ws s\<rparr>)"
| ws_refuse: "reserve_websocket (adm s) = Some (None, a) \<Longrightarrow> admission_step s (s\<lparr>adm := a\<rparr>)"
| ws_end: "map_of (ws s) r = Some p \<Longrightarrow> admission_step s (end_ws r status s)"
| ws_abandon: "map_of (ws s) r = Some p \<Longrightarrow> admission_step s (s\<lparr>ws := alist_del r (ws s)\<rparr>)"
| construct: "map_of (agents s) g = None \<Longrightarrow> g \<notin> set (running s) \<Longrightarrow>
     (\<And>r. current = Some r \<Longrightarrow> map_of (http s) r \<noteq> None) \<Longrightarrow>
     admission_step s (construct_agent current g s)"
| connect: "g \<notin> set (running s) \<Longrightarrow> connect_agent g s = Some t \<Longrightarrow> admission_step s t"
| agent_end: "map_of (agents s) g = Some p \<Longrightarrow> admission_step s (drop_agent g s)"

text \<open>
  The step \<open>ws_abandon\<close> is the drop of the request future while \<open>next.run(request).await\<close>
  is pending (the client went away): nothing after the \<open>await\<close> runs.
\<close>

section \<open>Permits are conserved\<close>

definition count_true :: "('k \<times> bool) list \<Rightarrow> nat" where
  "count_true xs = length (filter snd xs)"

definition held_permits :: "admission_system \<Rightarrow> nat" where
  "held_permits s =
     count_true (http s) + (if ws_reservation (adm s) = None then 0 else 1) + count_true (agents s)"

definition admission_inv :: "nat \<Rightarrow> admission_system \<Rightarrow> bool" where
  "admission_inv max_processes s \<longleftrightarrow>
     process_slots (adm s) + held_permits s = max_processes
     \<and> distinct (map fst (http s)) \<and> distinct (map fst (agents s)) \<and> distinct (running s)
     \<and> (\<forall>g \<in> set (running s). map_of (agents s) g = Some True)
     \<and> (ws_handshake_locked (adm s) \<longleftrightarrow> ws_reservation (adm s) \<noteq> None)"

lemma count_true_Nil [simp]: "count_true [] = 0"
  and count_true_Cons [simp]: "count_true ((k, b) # xs) = (if b then 1 else 0) + count_true xs"
  by (simp_all add: count_true_def)

lemma count_true_del:
  "distinct (map fst xs) \<Longrightarrow>
     count_true (alist_del k xs) + (if map_of xs k = Some True then 1 else 0) = count_true xs"
proof (induction xs)
  case (Cons x xs)
  obtain k' b where x: "x = (k', b)" by fastforce
  show ?case
  proof (cases "k' = k")
    case True
    with Cons.prems x have "map_of xs k = None" by (auto simp: map_of_eq_None_iff)
    then have "alist_del k xs = xs" by (rule alist_del_notin)
    with True x show ?thesis by (auto simp: alist_del_def)
  next
    case False
    with Cons x show ?thesis by (auto simp: alist_del_def)
  qed
qed (simp add: alist_del_def)

lemma count_true_put:
  "distinct (map fst xs) \<Longrightarrow>
     count_true (alist_put k b xs) + (if map_of xs k = Some True then 1 else 0)
       = count_true xs + (if b then 1 else 0)"
  using count_true_del[of xs k] by (auto simp: alist_put_def)

lemma distinct_keys_Cons:
  "map_of xs k = None \<Longrightarrow> distinct (map fst xs) \<Longrightarrow> distinct (map fst ((k, v) # xs))"
  by (simp add: map_of_eq_None_iff)

lemma try_acquire_Some:
  "try_acquire a = Some a' \<longleftrightarrow> 0 < process_slots a \<and> a' = a\<lparr>process_slots := process_slots a - 1\<rparr>"
  by (auto simp: try_acquire_def)

lemmas admission_defs = admission_inv_def held_permits_def release_permit_def Let_def

lemma end_http_inv:
  assumes "admission_inv n s" shows "admission_inv n (end_http r s)"
  using assms count_true_del[of "http s" r] distinct_alist_del[of "http s" r]
  by (auto simp: admission_defs end_http_def split: if_splits)

lemma drop_agent_inv:
  assumes "admission_inv n s" shows "admission_inv n (drop_agent g s)"
  using assms count_true_del[of "agents s" g] distinct_alist_del[of "agents s" g]
  by (auto simp: admission_defs drop_agent_def set_alist_del split: if_splits)

lemma cancel_inv:
  assumes "admission_inv n s" shows "admission_inv n (s\<lparr>adm := cancel_websocket_reservation i (adm s)\<rparr>)"
  using assms by (auto simp: admission_defs cancel_websocket_reservation_def)

lemma ws_frame_inv: "admission_inv n s \<Longrightarrow> admission_inv n (s\<lparr>ws := w\<rparr>)"
  by (simp add: admission_inv_def held_permits_def)

lemma end_ws_inv:
  assumes "admission_inv n s" shows "admission_inv n (end_ws r status s)"
  using ws_frame_inv[OF assms] cancel_inv[OF ws_frame_inv[OF assms]]
  by (auto simp: end_ws_def Let_def split: option.split prod.split)

lemma factory_permit_cases:
  obtains (cell) r where "current = Some r" "map_of (http s) r = Some True"
      "factory_permit current s = (True, s\<lparr>http := alist_put r False (http s)\<rparr>)"
    | (reservation) i where "ws_reservation (adm s) = Some i"
      "factory_permit current s =
         (True, s\<lparr>adm := (adm s)\<lparr>ws_reservation := None, ws_handshake_locked := False\<rparr>\<rparr>)"
    | (nothing) "ws_reservation (adm s) = None" "factory_permit current s = (False, s)"
proof (cases "Option.bind current (map_of (http s)) = Some True")
  case True
  then show ?thesis
    by (cases current) (auto intro: cell simp: factory_permit_def)
next
  case False
  then have "factory_permit current s =
      (let (got, a) = take_websocket_reservation (adm s) in (got, s\<lparr>adm := a\<rparr>))"
    by (auto simp: factory_permit_def split: option.splits bool.splits)
  note eq = this
  show ?thesis
  proof (cases "ws_reservation (adm s)")
    case None
    show ?thesis
      by (rule nothing) (use None eq in \<open>simp_all add: take_websocket_reservation_def\<close>)
  next
    case (Some i)
    show ?thesis
      by (rule reservation) (use Some eq in \<open>simp_all add: take_websocket_reservation_def\<close>)
  qed
qed

lemma construct_agent_inv:
  assumes inv: "admission_inv n s" and fresh: "map_of (agents s) g = None" "g \<notin> set (running s)"
  shows "admission_inv n (construct_agent current g s)"
proof (rule factory_permit_cases[of current s])
  fix r
  assume "current = Some r" "map_of (http s) r = Some True"
    "factory_permit current s = (True, s\<lparr>http := alist_put r False (http s)\<rparr>)"
  then show ?thesis
    using inv fresh count_true_put[of "http s" r False] distinct_alist_put[of "http s" r False]
      distinct_keys_Cons[of "agents s" g True]
    by (auto simp: admission_defs construct_agent_def)
next
  fix i
  assume "ws_reservation (adm s) = Some i" "factory_permit current s =
     (True, s\<lparr>adm := (adm s)\<lparr>ws_reservation := None, ws_handshake_locked := False\<rparr>\<rparr>)"
  then show ?thesis
    using inv fresh distinct_keys_Cons[of "agents s" g True]
    by (auto simp: admission_defs construct_agent_def)
next
  assume "ws_reservation (adm s) = None" "factory_permit current s = (False, s)"
  then show ?thesis
    using inv fresh distinct_keys_Cons[of "agents s" g False]
    by (auto simp: admission_defs construct_agent_def)
qed

lemma connect_agent_inv:
  assumes inv: "admission_inv n s" and g: "g \<notin> set (running s)" and c: "connect_agent g s = Some t"
  shows "admission_inv n t"
proof (cases "map_of (agents s) g")
  case None
  with c show ?thesis by (simp add: connect_agent_def)
next
  case (Some owned)
  show ?thesis
  proof (cases owned)
    case True
    with Some c inv g show ?thesis by (auto simp: connect_agent_def admission_defs)
  next
    case False
    with Some c obtain a where a: "try_acquire (adm s) = Some a"
      "t = s\<lparr>adm := a, agents := alist_put g True (agents s), running := g # running s\<rparr>"
      by (auto simp: connect_agent_def split: option.splits)
    then show ?thesis
      using inv g Some False count_true_put[of "agents s" g True]
        distinct_alist_put[of "agents s" g True]
      by (auto simp: admission_defs try_acquire_Some)
  qed
qed

lemma admission_step_inv: "admission_step s t \<Longrightarrow> admission_inv n s \<Longrightarrow> admission_inv n t"
proof (induction rule: admission_step.induct)
  case (http_admit s r a)
  then show ?case
    using distinct_keys_Cons[of "http s" r True] by (auto simp: admission_defs try_acquire_Some)
next
  case (http_end s r p)
  then show ?case by (blast intro: end_http_inv)
next
  case (ws_admit s r i a http2)
  then show ?case
    by (auto simp: admission_defs reserve_websocket_def try_acquire_Some split: if_splits option.splits)
next
  case (ws_refuse s a)
  then show ?case
    by (auto simp: reserve_websocket_def split: if_splits option.splits)
next
  case (ws_end s r p status)
  then show ?case by (blast intro: end_ws_inv)
next
  case (ws_abandon s r p)
  then show ?case by (blast intro: ws_frame_inv)
next
  case (construct s g current)
  then show ?case by (blast intro: construct_agent_inv)
next
  case (connect g s t)
  then show ?case by (blast intro: connect_agent_inv)
next
  case (agent_end s g p)
  then show ?case by (blast intro: drop_agent_inv)
qed

interpretation admission: invariant_machine
  "\<lambda>s. s = admission_init n" admission_step "admission_inv n" for n
proof
  show "s = admission_init n \<Longrightarrow> admission_inv n s" for s
    by (simp add: admission_init_def admission_inv_def held_permits_def AdmissionState_new_def)
  show "admission_inv n s \<Longrightarrow> admission_step s t \<Longrightarrow> admission_inv n t" for s t
    by (rule admission_step_inv)
qed

abbreviation admission_reachable :: "nat \<Rightarrow> admission_system \<Rightarrow> bool" where
  "admission_reachable n \<equiv> reach (\<lambda>s. s = admission_init n) admission_step"

lemma running_bound:
  assumes "admission_inv n s" shows "length (running s) \<le> count_true (agents s)"
proof -
  have "set (running s) \<subseteq> fst ` set (filter snd (agents s))"
    using assms by (force simp: admission_inv_def dest!: map_of_SomeD)
  then have "card (set (running s)) \<le> card (fst ` set (filter snd (agents s)))"
    by (intro card_mono) auto
  also have "\<dots> \<le> length (filter snd (agents s))"
    by (metis card_length length_map set_map)
  finally show ?thesis
    using assms by (simp add: admission_inv_def distinct_card count_true_def)
qed

section \<open>Properties\<close>

text \<open>
  Property C5: whatever requests arrive and however they and the agents end, permits are
  neither lost nor duplicated: the free ones and those held by HTTP initialize requests,
  the WebSocket reservation and agents add up to the configured maximum, so no more agent
  processes run than the maximum.
\<close>
theorem admission_conserves_permits:
  assumes "admission_reachable max_processes s"
  shows "process_slots (adm s) + held_permits s = max_processes
    \<and> length (running s) \<le> max_processes
    \<and> (ws_handshake_locked (adm s) \<longleftrightarrow> ws_reservation (adm s) \<noteq> None)"
proof -
  have inv: "admission_inv max_processes s" using assms by (rule admission.inv_reach)
  then show ?thesis
    using running_bound[OF inv] by (auto simp: admission_inv_def held_permits_def)
qed

text \<open>One permit: a WebSocket handshake reserves it, its agent takes it and runs.\<close>

definition one_websocket :: admission_system where
  "one_websocket =
     (let s1 = (admission_init 1)\<lparr>adm := snd (the (reserve_websocket (adm (admission_init 1)))),
                                  ws := [(0, 0, False)]\<rparr>
      in the (connect_agent 5 (construct_agent None 5 s1)))"

lemmas admission_eval = one_websocket_def admission_init_def AdmissionState_new_def
  reserve_websocket_def try_acquire_def construct_agent_def factory_permit_def
  take_websocket_reservation_def connect_agent_def Let_def

lemma one_websocket_reachable: "admission_reachable 1 one_websocket"
proof -
  let ?s1 = "(admission_init 1)\<lparr>adm := snd (the (reserve_websocket (adm (admission_init 1)))),
                               ws := [(0, 0, False)]\<rparr>"
  have "admission_reachable 1 (admission_init 1)" by (rule reach_init) simp
  then have "admission_reachable 1 ?s1"
    by (rule reach_step) (use admission_step.ws_admit[of "admission_init 1" 0 0] in
        \<open>simp add: admission_init_def AdmissionState_new_def reserve_websocket_def try_acquire_def\<close>)
  then have "admission_reachable 1 (construct_agent None 5 ?s1)"
    by (rule reach_step) (rule admission_step.construct, simp_all add: admission_init_def)
  then show ?thesis
    by (rule reach_step) (rule admission_step.connect[of 5], simp_all add: admission_eval)
qed

theorem admission_conserves_permits_witness:
  "admission_reachable 1 one_websocket \<and> length (running one_websocket) = 1
   \<and> process_slots (adm one_websocket) + held_permits one_websocket = 1"
proof (intro conjI)
  show r: "admission_reachable 1 one_websocket" by (rule one_websocket_reachable)
  show "length (running one_websocket) = 1" by (simp add: admission_eval)
  show "process_slots (adm one_websocket) + held_permits one_websocket = 1"
    using admission_conserves_permits[OF r] by simp
qed

text \<open>
  A WebSocket request that is admitted keeps its slot through the protocol
  switch: after the reservation, the agent built for it owns a permit and passes the
  admission of \<open>connect_to\<close> even when all other slots are taken in between.
\<close>
lemma websocket_admission_is_honoured:
  assumes "reserve_websocket (adm s) = Some (Some i, a)" "ws_reservation b = ws_reservation a"
    and "s' = s\<lparr>adm := b\<rparr>"
  shows "map_of (agents (construct_agent None g s')) g = Some True
    \<and> (\<exists>t. connect_agent g (construct_agent None g s') = Some t \<and> g \<in> set (running t))"
proof -
  have "ws_reservation b = Some i"
    using assms by (auto simp: reserve_websocket_def split: if_splits option.splits)
  then show ?thesis
    using assms(3)
    by (simp add: construct_agent_def factory_permit_def take_websocket_reservation_def connect_agent_def)
qed

theorem websocket_admission_is_honoured_witness:
  "\<exists>t. connect_agent 3 (construct_agent None 3
        ((admission_init 1)\<lparr>adm := snd (the (reserve_websocket (adm (admission_init 1))))\<rparr>)) = Some t
     \<and> 3 \<in> set (running t)"
proof -
  have "reserve_websocket (adm (admission_init 1))
      = Some (Some 0, snd (the (reserve_websocket (adm (admission_init 1)))))"
    by (simp add: admission_eval)
  from conjunct2[OF websocket_admission_is_honoured[OF this refl refl]] show ?thesis .
qed

text \<open>
  The reservation \<open>i\<close> is held and no handler of a pending handshake will cancel it; the
  steps that do not build an agent from the reservation.
\<close>

definition orphaned_reservation :: "u64 \<Rightarrow> admission_system \<Rightarrow> bool" where
  "orphaned_reservation i s \<longleftrightarrow>
     ws_reservation (adm s) = Some i \<and> ws_handshake_locked (adm s)
     \<and> (\<forall>(r, j, h) \<in> set (ws s). j \<noteq> i)"

definition keeps_reservation :: "admission_system \<Rightarrow> admission_system \<Rightarrow> bool" where
  "keeps_reservation s t \<longleftrightarrow>
     admission_step s t
     \<and> (\<forall>current g. t = construct_agent current g s \<longrightarrow>
          Option.bind current (map_of (http s)) = Some True)"

lemma orphaned_step:
  assumes "orphaned_reservation i s" "keeps_reservation s t"
  shows "orphaned_reservation i t"
proof -
  have "admission_step s t" using assms(2) by (simp add: keeps_reservation_def)
  then show ?thesis
  proof cases
    case (http_admit r a)
    with assms show ?thesis by (auto simp: try_acquire_Some orphaned_reservation_def)
  next
    case (http_end r p)
    with assms show ?thesis
      by (auto simp: orphaned_reservation_def end_http_def release_permit_def Let_def)
  next
    case (ws_admit r j a h)
    with assms show ?thesis by (simp add: orphaned_reservation_def reserve_websocket_def)
  next
    case (ws_refuse a)
    with assms show ?thesis by (simp add: orphaned_reservation_def reserve_websocket_def)
  next
    case (ws_end r p status)
    obtain j h where p: "p = (j, h)" by fastforce
    with ws_end assms have "j \<noteq> i" by (fastforce simp: orphaned_reservation_def dest: map_of_SomeD)
    with ws_end p assms show ?thesis
      by (auto simp: orphaned_reservation_def end_ws_def cancel_websocket_reservation_def
          set_alist_del Let_def)
  next
    case (ws_abandon r p)
    with assms show ?thesis by (auto simp: orphaned_reservation_def set_alist_del)
  next
    case (construct g current)
    with assms have "Option.bind current (map_of (http s)) = Some True"
      unfolding keeps_reservation_def by blast
    with construct assms show ?thesis
      by (simp add: construct_agent_def factory_permit_def orphaned_reservation_def)
  next
    case (connect g)
    with assms show ?thesis
      by (auto simp: connect_agent_def try_acquire_Some orphaned_reservation_def
          split: option.splits bool.splits)
  next
    case (agent_end g p)
    with assms show ?thesis
      by (auto simp: orphaned_reservation_def drop_agent_def release_permit_def Let_def)
  qed
qed

text \<open>
  Property C30: a handshake whose request is dropped while its response is awaited leaves its
  reservation behind: through any sequence of other requests, handshakes and agents the
  slot stays reserved and every WebSocket request waits for the handshake mutex, as long as
  no agent is built from the reservation.
\<close>
theorem abandoned_handshake_blocks_websockets:
  assumes "ws_reservation (adm s) = Some i" "ws_handshake_locked (adm s)"
    and "ws s = [(r, i, http2)]" "keeps_reservation\<^sup>*\<^sup>* (s\<lparr>ws := alist_del r (ws s)\<rparr>) t"
  shows "ws_reservation (adm t) = Some i \<and> reserve_websocket (adm t) = None"
proof -
  have "orphaned_reservation i t"
    using assms(4)
  proof (induction rule: rtranclp_induct)
    case base
    show ?case using assms(1-3) by (simp add: orphaned_reservation_def alist_del_def)
  next
    case (step u v)
    show ?case using step(3,2) by (rule orphaned_step)
  qed
  then show ?thesis by (simp add: orphaned_reservation_def reserve_websocket_def)
qed

theorem abandoned_handshake_blocks_websockets_witness:
  "let s = (admission_init 2)\<lparr>adm := snd (the (reserve_websocket (adm (admission_init 2)))),
                              ws := [(7, 0, False)]\<rparr>
   in process_slots (adm s) = 1 \<and> reserve_websocket (adm (s\<lparr>ws := alist_del 7 (ws s)\<rparr>)) = None"
  unfolding Let_def
proof
  let ?s = "(admission_init 2)\<lparr>adm := snd (the (reserve_websocket (adm (admission_init 2)))),
                              ws := [(7, 0, False)]\<rparr>"
  show "process_slots (adm ?s) = 1" by (simp add: admission_eval)
  have "ws_reservation (adm ?s) = Some 0" "ws_handshake_locked (adm ?s)" "ws ?s = [(7, 0, False)]"
    by (simp_all add: admission_eval)
  from conjunct2[OF abandoned_handshake_blocks_websockets[OF this rtranclp.rtrancl_refl]]
  show "reserve_websocket (adm (?s\<lparr>ws := alist_del 7 (ws ?s)\<rparr>)) = None" .
qed

end
