(* ===== verification/Serve_Config.thy ===== *)
theory Serve_Config
  imports Text_Ops
begin

text \<open>
  \<open>src/src/serve/mod.rs\<close>: the configuration of a served route, its validation, the
  browser-origin policy and the start of a standalone server. The HTTP library's
  \<open>CorsOptions\<close>, tokio's limit on semaphore permits, the listener and the router are
  parameters.
\<close>

record RouteConfig =
  rc_path :: string
  rc_cors_origins :: "string list"
  rc_allow_any_origin :: bool
  rc_health_endpoint :: bool
  rc_readyz_endpoint :: bool
  rc_max_processes :: u64

definition DEFAULT_MAX_PROCESSES :: u64 where
  "DEFAULT_MAX_PROCESSES = 16"

definition RouteConfig_default :: RouteConfig where
  "RouteConfig_default =
     \<lparr>rc_path = ''/acp'', rc_cors_origins = [], rc_allow_any_origin = False,
      rc_health_endpoint = True, rc_readyz_endpoint = True,
      rc_max_processes = DEFAULT_MAX_PROCESSES\<rparr>"

record ServeOptions =
  so_host :: string
  so_port :: u16
  so_mount_path :: "string option"
  so_route :: RouteConfig

definition ServeOptions_default :: ServeOptions where
  "ServeOptions_default =
     \<lparr>so_host = ''127.0.0.1'', so_port = 0, so_mount_path = None, so_route = RouteConfig_default\<rparr>"

text \<open>The constructors of the HTTP library's \<open>CorsOptions\<close>.\<close>

record 'c cors_library =
  lib_allow_any_origin :: 'c
  lib_disabled :: 'c
  lib_allow_origins :: "string list \<Rightarrow> 'c result"

definition cors_options :: "'c cors_library \<Rightarrow> string list \<Rightarrow> bool \<Rightarrow> 'c result" where
  "cors_options lib origins allow_any =
     (if allow_any \<and> origins \<noteq> []
      then bail ''CORS origins cannot be combined with allow_any_origin''
      else if allow_any then Inr (lib_allow_any_origin lib)
      else if origins = [] then Inr (lib_disabled lib)
      else with_context ''CORS origin contains an invalid HTTP header value''
             (lib_allow_origins lib origins))"

definition validate_route_config :: "u64 \<Rightarrow> RouteConfig \<Rightarrow> unit result" where
  "validate_route_config max_permits options =
     (if rc_max_processes options = 0 then bail ''max_processes must be greater than zero''
      else if rc_max_processes options > max_permits
        then bail (''max_processes must not exceed '' @ show_u64 max_permits)
      else if \<not> prefix ''/'' (rc_path options)
        then bail (''ACP endpoint path must start with '' @ sq @ ''/'' @ sq)
      else if length (rc_path options) = 1
        then bail (''ACP endpoint path cannot be '' @ sq @ ''/'' @ sq)
      else if rc_health_endpoint options \<and> rc_path options = ''/health''
        then bail ''ACP endpoint path conflicts with the health endpoint''
      else if rc_readyz_endpoint options \<and> rc_path options = ''/readyz''
        then bail ''ACP endpoint path conflicts with the readiness endpoint''
      else Inr ())"

definition validate_mount_path :: "string \<Rightarrow> unit result" where
  "validate_mount_path mount_path =
     (if \<not> prefix ''/'' mount_path then bail (''mount path must start with '' @ sq @ ''/'' @ sq)
      else if length mount_path = 1 then bail (''mount path cannot be '' @ sq @ ''/'' @ sq)
      else if suffix ''/'' mount_path
        then bail (''mount path must not end with '' @ sq @ ''/'' @ sq)
      else Inr ())"

record 'c ServerOptions =
  sv_path :: string
  sv_cors :: 'c
  sv_health_endpoint :: bool

definition http_server_options ::
    "u64 \<Rightarrow> 'c cors_library \<Rightarrow> RouteConfig \<Rightarrow> 'c ServerOptions result" where
  "http_server_options max_permits lib options =
     and_then (validate_route_config max_permits options) (\<lambda>_.
     and_then (cors_options lib (rc_cors_origins options) (rc_allow_any_origin options)) (\<lambda>cors.
     Inr \<lparr>sv_path = rc_path options, sv_cors = cors,
          sv_health_endpoint = rc_health_endpoint options\<rparr>))"

text \<open>
  \<open>serve_config\<close>: build the runtime, nest its router under the mount path, bind, report
  the addresses on standard error and serve. The result carries the lines printed.
\<close>

record ('r, 'l) serve_host =
  sh_runtime_router :: "RouteConfig \<Rightarrow> 'r result"
  sh_nest :: "string \<Rightarrow> 'r \<Rightarrow> 'r"
  sh_bind :: "string \<Rightarrow> u16 \<Rightarrow> 'l result"
  sh_local_addr :: "'l \<Rightarrow> string result"
  sh_serve_listener :: "'l \<Rightarrow> 'r \<Rightarrow> unit result"

definition mount_prefix :: "ServeOptions \<Rightarrow> string" where
  "mount_prefix options = (case so_mount_path options of None \<Rightarrow> [] | Some m \<Rightarrow> m)"

definition serve_banner :: "ServeOptions \<Rightarrow> string \<Rightarrow> string list" where
  "serve_banner options address =
     (''Serving ACP agent at http://'' @ address @ mount_prefix options
        @ rc_path (so_route options) @ '' (WebSocket available on the same endpoint)'')
     # (if rc_readyz_endpoint (so_route options)
        then [''Agent readiness probe at http://'' @ address @ mount_prefix options @ ''/readyz'']
        else [])"

definition mounted_router ::
    "('r, 'l) serve_host \<Rightarrow> ServeOptions \<Rightarrow> 'r \<Rightarrow> 'r result" where
  "mounted_router h options router =
     (case so_mount_path options of
        None \<Rightarrow> Inr router
      | Some m \<Rightarrow> map_ok (\<lambda>_. sh_nest h m router) (validate_mount_path m))"

definition serve_config ::
    "('r, 'l) serve_host \<Rightarrow> ServeOptions \<Rightarrow> string list \<times> unit result" where
  "serve_config h options =
     (case and_then (sh_runtime_router h (so_route options)) (mounted_router h options) of
        Inl e \<Rightarrow> ([], Inl e)
      | Inr router \<Rightarrow>
          (case with_context
                  (''failed to bind ACP HTTP listener on '' @ so_host options @ '':''
                     @ show_u16 (so_port options))
                  (sh_bind h (so_host options) (so_port options)) of
             Inl e \<Rightarrow> ([], Inl e)
           | Inr listener \<Rightarrow>
               (case with_context ''failed to read ACP HTTP listener address''
                       (sh_local_addr h listener) of
                  Inl e \<Rightarrow> ([], Inl e)
                | Inr address \<Rightarrow>
                    (serve_banner options address, sh_serve_listener h listener router))))"

text \<open>\<open>serve_agent\<close>: resolve the agent's command, then serve it.\<close>

definition serve_agent ::
    "'a result \<Rightarrow> ('a \<Rightarrow> ('r, 'l) serve_host) \<Rightarrow> ServeOptions \<Rightarrow> string list \<times> unit result" where
  "serve_agent resolved host options =
     (case resolved of Inl e \<Rightarrow> ([], Inl e) | Inr a \<Rightarrow> serve_config (host a) options)"

section \<open>What validation establishes\<close>

text \<open>The specification of an acceptable route: process limit and endpoint path.\<close>

definition route_config_ok :: "u64 \<Rightarrow> RouteConfig \<Rightarrow> bool" where
  "route_config_ok max_permits c \<longleftrightarrow>
     0 < rc_max_processes c \<and> rc_max_processes c \<le> max_permits
     \<and> (\<exists>c1 rest. rc_path c = CHR ''/'' # c1 # rest)
     \<and> (rc_health_endpoint c \<longrightarrow> rc_path c \<noteq> ''/health'')
     \<and> (rc_readyz_endpoint c \<longrightarrow> rc_path c \<noteq> ''/readyz'')"

lemma slash_path_iff:
  "prefix ''/'' p \<and> length p \<noteq> 1 \<longleftrightarrow> (\<exists>c1 rest. p = CHR ''/'' # c1 # rest)"
  by (cases p; cases "tl p") auto

lemma validate_route_config_iff:
  "validate_route_config max_permits c = Inr () \<longleftrightarrow> route_config_ok max_permits c"
  unfolding validate_route_config_def route_config_ok_def slash_path_iff[symmetric]
  by (auto simp: not_less word_gt_0)

lemma http_server_options_iff:
  "http_server_options max_permits lib c = Inr so \<longleftrightarrow>
     route_config_ok max_permits c \<and>
     (\<exists>cors. cors_options lib (rc_cors_origins c) (rc_allow_any_origin c) = Inr cors \<and>
        so = \<lparr>sv_path = rc_path c, sv_cors = cors, sv_health_endpoint = rc_health_endpoint c\<rparr>)"
  by (auto simp: http_server_options_def and_then_eq_Inr simp flip: validate_route_config_iff)

text \<open>The URL paths a route answers: the ACP endpoint and the enabled probes.\<close>

definition route_endpoints :: "RouteConfig \<Rightarrow> string list" where
  "route_endpoints c =
     rc_path c # (if rc_health_endpoint c then [''/health''] else [])
     @ (if rc_readyz_endpoint c then [''/readyz''] else [])"

lemma route_endpoints_distinct:
  "route_config_ok max_permits c \<Longrightarrow> distinct (route_endpoints c)"
  by (auto simp: route_config_ok_def route_endpoints_def)

lemma cors_options_conflict:
  "allow_any \<Longrightarrow> origins \<noteq> [] \<Longrightarrow>
     cors_options lib origins allow_any = Inl [''CORS origins cannot be combined with allow_any_origin'']"
  by (simp add: cors_options_def bail_def)

lemma cors_options_Inr:
  "cors_options lib origins allow_any = Inr c \<longleftrightarrow>
     (if allow_any then origins = [] \<and> c = lib_allow_any_origin lib
      else if origins = [] then c = lib_disabled lib
      else lib_allow_origins lib origins = Inr c)"
  by (auto simp: cors_options_def)

end
