(* ===== verification/Route_Runtime.thy ===== *)
theory Route_Runtime
  imports Admission Serve_Config Agent_Health "HOL-Library.Sublist"
begin

text \<open>
  The rest of \<open>src/src/serve/runtime.rs\<close>: how the parts of a served route are put together
  (\<open>route_runtime_with_stderr_and_lease\<close>), and the bounded queue through which the stderr lines of its
  agents reach the log (\<open>AgentStderr\<close>). The HTTP library's router is a parameter; the record below
  holds what it is built from.
\<close>

section \<open>The runtime of a route\<close>

definition validate_process_limit :: "u64 \<Rightarrow> u64 \<Rightarrow> unit result" where
  "validate_process_limit max_permits max_processes =
     (if max_processes = 0 then bail ''max_processes must be greater than zero''
      else if max_processes > max_permits then bail (''max_processes must not exceed '' @ show_u64 max_permits)
      else Inr ())"

record 'c RouteRuntime =
  rt_options :: "'c ServerOptions"
  rt_readyz :: bool
  rt_health :: AgentHealth
  rt_admission :: AdmissionState

definition route_runtime :: "u64 \<Rightarrow> 'c cors_library \<Rightarrow> RouteConfig \<Rightarrow> 'c RouteRuntime result" where
  "route_runtime max_permits lib options =
     and_then (validate_process_limit max_permits (rc_max_processes options)) (\<lambda>_.
     and_then (http_server_options max_permits lib options) (\<lambda>server_options.
     Inr \<lparr>rt_options = server_options, rt_readyz = rc_readyz_endpoint options, rt_health = AgentHealth_default,
          rt_admission = AdmissionState_new (unat (rc_max_processes options))\<rparr>))"

text \<open>\<open>RouteRuntime::readiness_snapshot\<close>.\<close>

definition readiness_snapshot :: "'c RouteRuntime \<Rightarrow> ReadinessSnapshot" where
  "readiness_snapshot rt = snapshot (health_state (rt_health rt))"

text \<open>What the assembled router answers a path with: the library's routes, and the added \<open>/readyz\<close>.\<close>

datatype endpoint = AcpEndpoint | HealthEndpoint | ReadyzEndpoint

definition endpoint_at :: "'c RouteRuntime \<Rightarrow> string \<Rightarrow> endpoint option" where
  "endpoint_at rt p =
     (if p = sv_path (rt_options rt) then Some AcpEndpoint
      else if sv_health_endpoint (rt_options rt) \<and> p = ''/health'' then Some HealthEndpoint
      else if rt_readyz rt \<and> p = ''/readyz'' then Some ReadyzEndpoint
      else None)"

lemma validate_process_limit_ok:
  "validate_process_limit m n = Inr () \<longleftrightarrow> 0 < n \<and> n \<le> m"
  by (auto simp: validate_process_limit_def not_less word_gt_0)


section \<open>The stderr queue\<close>

definition STDERR_CHANNEL_CAPACITY :: nat where
  "STDERR_CHANNEL_CAPACITY = 1024"

text \<open>
  The bounded channel, the counter of dropped lines, and the writer task: whether it has written a
  line and has still to look at the counter, what it last reported and when, the lines it wrote, and
  its warnings (time and count, newest first).
\<close>

record agent_stderr =
  se_queue :: "string list"
  se_dropped :: u64
  se_looking :: bool
  se_reported :: u64
  se_last_report :: nat
  se_written :: "string list"
  se_warnings :: "(nat \<times> u64) list"

definition AgentStderr_spawn :: "nat \<Rightarrow> agent_stderr" where
  "AgentStderr_spawn now = \<lparr>se_queue = [], se_dropped = 0, se_looking = False, se_reported = 0, se_last_report = now,
     se_written = [], se_warnings = []\<rparr>"

definition push :: "string \<Rightarrow> agent_stderr \<Rightarrow> agent_stderr" where
  "push line s =
     (if length (se_queue s) < STDERR_CHANNEL_CAPACITY then s\<lparr>se_queue := se_queue s @ [line]\<rparr>
      else s\<lparr>se_dropped := se_dropped s + 1\<rparr>)"

definition write_line :: "agent_stderr \<Rightarrow> agent_stderr" where
  "write_line s = s\<lparr>se_queue := tl (se_queue s), se_written := se_written s @ [hd (se_queue s)], se_looking := True\<rparr>"

definition look_at_drops :: "nat \<Rightarrow> agent_stderr \<Rightarrow> agent_stderr" where
  "look_at_drops now s =
     (let total_drops = se_dropped s in
      if total_drops > se_reported s \<and> now - se_last_report s \<ge> 1000
      then s\<lparr>se_looking := False, se_reported := total_drops, se_last_report := now,
             se_warnings := (now, total_drops) # se_warnings s\<rparr>
      else s\<lparr>se_looking := False\<rparr>)"

text \<open>The lines that were pushed so far, by all agents of the route, and the state of the sink.\<close>

inductive stderr_run :: "string list \<Rightarrow> agent_stderr \<Rightarrow> bool" where
  spawned: "stderr_run [] (AgentStderr_spawn now)"
| pushed: "stderr_run lines s \<Longrightarrow> stderr_run (lines @ [line]) (push line s)"
| written: "stderr_run lines s \<Longrightarrow> se_queue s \<noteq> [] \<Longrightarrow> \<not> se_looking s \<Longrightarrow> stderr_run lines (write_line s)"
| looked: "stderr_run lines s \<Longrightarrow> se_looking s \<Longrightarrow> stderr_run lines (look_at_drops now s)"

definition later_and_more :: "nat \<times> u64 \<Rightarrow> nat \<times> u64 \<Rightarrow> bool" where
  "later_and_more v u \<longleftrightarrow> fst u + 1000 \<le> fst v \<and> snd u < snd v"

definition warnings_ok :: "agent_stderr \<Rightarrow> bool" where
  "warnings_ok s \<longleftrightarrow> sorted_wrt later_and_more (se_warnings s)
     \<and> (\<forall>u \<in> set (se_warnings s). fst u \<le> se_last_report s \<and> snd u \<le> se_reported s)"

definition stderr_inv :: "string list \<Rightarrow> agent_stderr \<Rightarrow> bool" where
  "stderr_inv lines s \<longleftrightarrow>
     length (se_queue s) \<le> STDERR_CHANNEL_CAPACITY
     \<and> subseq (se_written s @ se_queue s) lines
     \<and> of_nat (length lines) = of_nat (length (se_written s) + length (se_queue s)) + se_dropped s
     \<and> warnings_ok s"

lemma push_inv: "stderr_inv lines s \<Longrightarrow> stderr_inv (lines @ [line]) (push line s)"
  by (auto simp: stderr_inv_def push_def warnings_ok_def list_emb_append_mono simp flip: append_assoc
      intro: subseq_order.trans[OF _ subseq_rev_drop_many])

lemma write_line_inv: "stderr_inv lines s \<Longrightarrow> se_queue s \<noteq> [] \<Longrightarrow> stderr_inv lines (write_line s)"
  by (cases "se_queue s") (auto simp: stderr_inv_def write_line_def warnings_ok_def)

lemma look_at_drops_inv: "stderr_inv lines s \<Longrightarrow> stderr_inv lines (look_at_drops now s)"
  by (force simp: stderr_inv_def look_at_drops_def warnings_ok_def later_and_more_def Let_def)

text \<open>
  No stderr line is lost without a trace: the lines that were written and those that wait are,
  in their order, some of the lines the agents printed, and the counter says how many are missing; at
  most 1024 lines wait, and the warnings are at least a second apart, each with a larger count.
\<close>

lemma stderr_lines_are_accounted:
  assumes "stderr_run lines s"
  shows "length (se_queue s) \<le> STDERR_CHANNEL_CAPACITY
    \<and> subseq (se_written s @ se_queue s) lines
    \<and> of_nat (length lines) = of_nat (length (se_written s) + length (se_queue s)) + se_dropped s
    \<and> sorted_wrt later_and_more (se_warnings s)"
proof -
  have "stderr_inv lines s"
    using assms
  proof induction
    case (spawned now)
    show ?case by (simp add: stderr_inv_def AgentStderr_spawn_def warnings_ok_def)
  qed (simp_all add: push_inv write_line_inv look_at_drops_inv)
  then show ?thesis by (simp add: stderr_inv_def warnings_ok_def)
qed

lemma stderr_lines_are_accounted_witness:
  "se_written (write_line (push ''b'' (push ''a'' (AgentStderr_spawn 0)))) = [''a'']
   \<and> subseq ([''a''] @ [''b'']) ([] @ [''a''] @ [''b''])"
proof -
  have "stderr_run (([] @ [''a'']) @ [''b'']) (write_line (push ''b'' (push ''a'' (AgentStderr_spawn 0))))"
    by (intro stderr_run.intros) (simp_all add: push_def AgentStderr_spawn_def STDERR_CHANNEL_CAPACITY_def)
  from stderr_lines_are_accounted[OF this] show ?thesis
    by (simp add: push_def AgentStderr_spawn_def STDERR_CHANNEL_CAPACITY_def write_line_def)
qed

definition demo_cors :: "unit cors_library" where
  "demo_cors = \<lparr>lib_allow_any_origin = (), lib_disabled = (), lib_allow_origins = (\<lambda>_. Inr ())\<rparr>"


end
