(* ===== verification/Transport.thy ===== *)
theory Transport
  imports Prelude
begin

text \<open>
  How a listener is served and shut down (\<open>src/src/serve/transport.rs\<close>): the graceful shutdown of the
  HTTP server, its two deadlines, and the connections that are cut after the first one. The HTTP
  server (axum) is a parameter with its documented behaviour: after its shutdown signal it accepts
  no more connections and ends when the last one is closed; it may fail at any time. Time is counted
  in milliseconds; it does not pass while a timer that is due or a signal waits to be polled.
\<close>

section \<open>Watch channels\<close>

record watch =
  wc_value :: bool
  wc_closed :: bool

text \<open>\<open>wait_for_shutdown\<close> returns when it sees \<open>true\<close> or when the sender is gone.\<close>

definition wait_for_shutdown_over :: "watch \<Rightarrow> bool" where
  "wait_for_shutdown_over c \<longleftrightarrow> wc_value c \<or> wc_closed c"

text \<open>\<open>wait_for_cancellation\<close> (\<open>serve/runtime.rs\<close>) waits for ever when the sender is gone.\<close>

definition wait_for_cancellation_over :: "watch \<Rightarrow> bool" where
  "wait_for_cancellation_over c \<longleftrightarrow> wc_value c"

section \<open>Connections\<close>

text \<open>Reads, writes, flushes and shutdowns of an accepted connection look at the channel first.\<close>

datatype 'a poll = Pending | Ready "io_error + 'a"

definition GRACE_EXPIRED :: io_error where
  "GRACE_EXPIRED = \<lparr>io_kind = KConnectionAborted, io_text = ''ACP shutdown grace expired''\<rparr>"

definition poll_cancelled :: "watch \<Rightarrow> io_error + unit" where
  "poll_cancelled force_close = (if wait_for_shutdown_over force_close then Inl GRACE_EXPIRED else Inr ())"

definition poll_io :: "watch \<Rightarrow> 'a poll \<Rightarrow> 'a poll" where
  "poll_io force_close inner = (case poll_cancelled force_close of Inl e \<Rightarrow> Ready (Inl e) | Inr _ \<Rightarrow> inner)"

section \<open>Serving\<close>

definition SHUTDOWN_GRACE :: nat where "SHUTDOWN_GRACE = 3000"
definition FORCE_CLOSE_GRACE :: nat where "FORCE_CLOSE_GRACE = 1000"

text \<open>Where \<open>serve_with_shutdown\<close> is: \<open>Draining\<close> and \<open>Forcing\<close> carry the deadline of their timeout.\<close>

datatype serve_pc = Serving | Draining nat | Forcing nat | Returned "unit result"

record serving =
  tr_now :: nat
  tr_pc :: serve_pc
  tr_shutdown :: watch
  tr_cancel :: watch
  tr_force_close :: watch
  tr_accepting :: bool
  tr_conns :: "nat set"

text \<open>
  \<open>serve_with_shutdown\<close> returns: its local sender of \<open>force_close\<close> is dropped and its own receiver
  with it, so that connections which are still open fail at their next operation.
\<close>

definition finish :: "unit result \<Rightarrow> serving \<Rightarrow> serving" where
  "finish r s = s\<lparr>tr_pc := Returned r, tr_force_close := (tr_force_close s)\<lparr>wc_closed := True\<rparr>, tr_accepting := False\<rparr>"

definition server_error :: "serve_pc \<Rightarrow> error \<Rightarrow> error" where
  "server_error pc e = (case pc of Forcing _ \<Rightarrow> e | _ \<Rightarrow> ''ACP HTTP server failed'' # e)"

definition NOT_CLOSED :: error where
  "NOT_CLOSED = [''ACP HTTP connections did not close after forced shutdown'', ''deadline has elapsed'']"

definition returned :: "serving \<Rightarrow> bool" where
  "returned s \<longleftrightarrow> (\<exists>r. tr_pc s = Returned r)"

text \<open>Nothing that is due at this moment is left to be polled.\<close>

definition settled :: "serving \<Rightarrow> bool" where
  "settled s \<longleftrightarrow>
     (case tr_pc s of
        Serving \<Rightarrow> \<not> wait_for_shutdown_over (tr_shutdown s)
      | Draining deadline \<Rightarrow> tr_now s < deadline
      | Forcing deadline \<Rightarrow> tr_now s < deadline
      | Returned _ \<Rightarrow> True)"

inductive serve_step :: "nat \<Rightarrow> serving \<Rightarrow> serving \<Rightarrow> bool" for shutdown_grace where
  accept: "tr_accepting s \<Longrightarrow> c \<notin> tr_conns s \<Longrightarrow> serve_step shutdown_grace s (s\<lparr>tr_conns := insert c (tr_conns s)\<rparr>)"
| stop_accepting: "wait_for_shutdown_over (tr_shutdown s) \<Longrightarrow> serve_step shutdown_grace s (s\<lparr>tr_accepting := False\<rparr>)"
| close: "serve_step shutdown_grace s (s\<lparr>tr_conns := tr_conns s - {c}\<rparr>)"
| signal: "serve_step shutdown_grace s (s\<lparr>tr_shutdown := (tr_shutdown s)\<lparr>wc_value := True\<rparr>\<rparr>)"
| sender_gone: "serve_step shutdown_grace s (s\<lparr>tr_shutdown := (tr_shutdown s)\<lparr>wc_closed := True\<rparr>\<rparr>)"
| drain: "tr_pc s = Serving \<Longrightarrow> wait_for_shutdown_over (tr_shutdown s) \<Longrightarrow>
    serve_step shutdown_grace s (s\<lparr>tr_pc := Draining (tr_now s + shutdown_grace)\<rparr>)"
| server_ends: "\<not> returned s \<Longrightarrow> \<not> tr_accepting s \<Longrightarrow> tr_conns s = {} \<Longrightarrow>
    serve_step shutdown_grace s (finish (Inr ()) s)"
| server_fails: "\<not> returned s \<Longrightarrow> serve_step shutdown_grace s (finish (Inl (server_error (tr_pc s) e)) s)"
| force: "tr_pc s = Draining deadline \<Longrightarrow> deadline \<le> tr_now s \<Longrightarrow>
    serve_step shutdown_grace s (s\<lparr>tr_pc := Forcing (tr_now s + FORCE_CLOSE_GRACE),
      tr_cancel := (tr_cancel s)\<lparr>wc_value := True\<rparr>, tr_force_close := (tr_force_close s)\<lparr>wc_value := True\<rparr>\<rparr>)"
| give_up: "tr_pc s = Forcing deadline \<Longrightarrow> deadline \<le> tr_now s \<Longrightarrow> tr_accepting s \<or> tr_conns s \<noteq> {} \<Longrightarrow>
    serve_step shutdown_grace s (finish (Inl NOT_CLOSED) s)"
| tick: "settled s \<Longrightarrow> serve_step shutdown_grace s (s\<lparr>tr_now := Suc (tr_now s)\<rparr>)"

definition serve_init :: "serving \<Rightarrow> bool" where
  "serve_init s \<longleftrightarrow> tr_pc s = Serving \<and> tr_accepting s \<and> tr_conns s = {}
     \<and> \<not> wait_for_shutdown_over (tr_force_close s) \<and> \<not> wc_value (tr_cancel s)"

inductive_cases serve_stepE: "serve_step grace s s'"

section \<open>Timers\<close>

definition serve_inv :: "nat \<Rightarrow> serving \<Rightarrow> bool" where
  "serve_inv grace s \<longleftrightarrow>
     (case tr_pc s of
        Serving \<Rightarrow> \<not> wait_for_shutdown_over (tr_force_close s) \<and> \<not> wc_value (tr_cancel s)
      | Draining d \<Rightarrow> tr_now s \<le> d \<and> d \<le> tr_now s + grace
          \<and> \<not> wait_for_shutdown_over (tr_force_close s) \<and> \<not> wc_value (tr_cancel s)
      | Forcing d \<Rightarrow> tr_now s \<le> d \<and> d \<le> tr_now s + FORCE_CLOSE_GRACE
      | Returned r \<Rightarrow> \<not> tr_accepting s \<and> wc_closed (tr_force_close s) \<and> (r = Inr () \<longrightarrow> tr_conns s = {}))"

lemma finish_simps [simp]:
  "tr_pc (finish r s) = Returned r" "tr_now (finish r s) = tr_now s" "tr_conns (finish r s) = tr_conns s"
  "tr_accepting (finish r s) = False" "tr_cancel (finish r s) = tr_cancel s" "tr_shutdown (finish r s) = tr_shutdown s"
  "wc_closed (tr_force_close (finish r s))" "wc_value (tr_force_close (finish r s)) = wc_value (tr_force_close s)"
  by (simp_all add: finish_def)

lemma serve_inv_step: "serve_inv grace s \<Longrightarrow> serve_step grace s s' \<Longrightarrow> serve_inv grace s'"
  by (erule serve_stepE)
    (auto simp: serve_inv_def settled_def wait_for_shutdown_over_def split: serve_pc.splits)

interpretation serve: invariant_machine serve_init "serve_step grace" "serve_inv grace" for grace
  by unfold_locales (simp add: serve_inv_def serve_init_def, rule serve_inv_step)

lemma steps_keep:
  assumes "(serve_step grace)\<^sup>*\<^sup>* s s'" "P s" "serve_inv grace s"
    and "\<And>u v. serve_inv grace u \<Longrightarrow> P u \<Longrightarrow> serve_step grace u v \<Longrightarrow> P v"
  shows "P s' \<and> serve_inv grace s'"
  using assms(1,2,3) by (induction rule: rtranclp_induct) (auto intro: assms(4) serve_inv_step)

section \<open>Shutting down takes a bounded time\<close>

definition due_by :: "nat \<Rightarrow> nat \<Rightarrow> serving \<Rightarrow> bool" where
  "due_by grace t0 s \<longleftrightarrow>
     (case tr_pc s of
        Serving \<Rightarrow> wait_for_shutdown_over (tr_shutdown s) \<and> tr_now s = t0
      | Draining d \<Rightarrow> d \<le> t0 + grace
      | Forcing d \<Rightarrow> d \<le> t0 + grace + FORCE_CLOSE_GRACE
      | Returned _ \<Rightarrow> True)"

lemma due_by_step: "serve_inv grace s \<Longrightarrow> due_by grace t0 s \<Longrightarrow> serve_step grace s s' \<Longrightarrow> due_by grace t0 s'"
  by (erule serve_stepE)
    (auto simp: serve_inv_def due_by_def settled_def wait_for_shutdown_over_def split: serve_pc.splits)

text \<open>
  Once the shutdown is signalled (or its sender is gone), serving returns within the grace
  period and one more second, whatever the connections and the server do: in every later state it
  has returned or this time is not over.
\<close>

lemma shutdown_is_bounded:
  assumes "reach serve_init (serve_step shutdown_grace) s" "wait_for_shutdown_over (tr_shutdown s)"
    and "(serve_step shutdown_grace)\<^sup>*\<^sup>* s s'"
  shows "returned s' \<or> tr_now s' \<le> tr_now s + shutdown_grace + FORCE_CLOSE_GRACE"
proof -
  have inv: "serve_inv shutdown_grace s" using serve.inv_reach assms(1) .
  then have "due_by shutdown_grace (tr_now s) s"
    using assms(2) by (auto simp: serve_inv_def due_by_def split: serve_pc.splits)
  then have "due_by shutdown_grace (tr_now s) s' \<and> serve_inv shutdown_grace s'"
    by (rule steps_keep[OF assms(3) _ inv]) (rule due_by_step)
  then show ?thesis
    by (auto simp: due_by_def serve_inv_def returned_def split: serve_pc.splits)
qed

definition demo_serving :: serving where
  "demo_serving = \<lparr>tr_now = 0, tr_pc = Serving, tr_shutdown = \<lparr>wc_value = True, wc_closed = False\<rparr>,
     tr_cancel = \<lparr>wc_value = False, wc_closed = False\<rparr>, tr_force_close = \<lparr>wc_value = False, wc_closed = False\<rparr>,
     tr_accepting = True, tr_conns = {}\<rparr>"

lemma demo_serving_init: "reach serve_init (serve_step grace) demo_serving"
  by (rule reach_init) (simp add: serve_init_def demo_serving_def wait_for_shutdown_over_def)

lemma demo_drain:
  "serve_step 2 demo_serving (demo_serving\<lparr>tr_pc := Draining (tr_now demo_serving + 2)\<rparr>)"
  by (rule serve_step.drain) (simp_all add: demo_serving_def wait_for_shutdown_over_def)

section \<open>Connections have the grace period\<close>

definition drained_first :: "nat \<Rightarrow> nat \<Rightarrow> serving \<Rightarrow> bool" where
  "drained_first grace t0 s \<longleftrightarrow>
     t0 \<le> tr_now s
     \<and> (\<forall>d. tr_pc s = Draining d \<longrightarrow> t0 + grace \<le> d)
     \<and> (\<forall>d. tr_pc s = Forcing d \<longrightarrow> t0 + grace \<le> tr_now s)
     \<and> (wc_value (tr_cancel s) \<or> wc_value (tr_force_close s) \<longrightarrow> t0 + grace \<le> tr_now s)"

lemma drained_first_step:
  "serve_inv grace s \<Longrightarrow> drained_first grace t0 s \<Longrightarrow> serve_step grace s s' \<Longrightarrow> drained_first grace t0 s'"
  by (erule serve_stepE) (auto simp: serve_inv_def drained_first_def wait_for_shutdown_over_def)

lemma poll_io_simps:
  "wait_for_shutdown_over c \<Longrightarrow> poll_io c inner = Ready (Inl GRACE_EXPIRED)"
  "\<not> wait_for_shutdown_over c \<Longrightarrow> poll_io c inner = inner"
  by (simp_all add: poll_io_def poll_cancelled_def)

text \<open>
  Property C18: connections are drained before they are cut: as long as serving has not returned and less
  than the grace period has passed since it last ran normally, the agents are not cancelled and
  every operation of a connection is that of the socket below it; after it returned, every operation
  of a connection that is still open fails, and it only succeeds when no connection is open. And it
  does not drain for ever: once the shutdown is signalled, or its sender is gone, serving has returned
  or no more than the grace period and one second have passed, whatever the connections and the
  server do.
\<close>

theorem connections_are_drained_first:
  assumes "reach serve_init (serve_step shutdown_grace) s" "tr_pc s = Serving"
    and "(serve_step shutdown_grace)\<^sup>*\<^sup>* s s'"
  shows "(\<not> returned s' \<and> tr_now s' < tr_now s + shutdown_grace \<longrightarrow>
            \<not> wait_for_cancellation_over (tr_cancel s') \<and> poll_io (tr_force_close s') inner = inner)
    \<and> (returned s' \<longrightarrow> poll_io (tr_force_close s') inner = Ready (Inl GRACE_EXPIRED))
    \<and> (tr_pc s' = Returned (Inr ()) \<longrightarrow> tr_conns s' = {})
    \<and> (wait_for_shutdown_over (tr_shutdown s) \<longrightarrow>
         returned s' \<or> tr_now s' \<le> tr_now s + shutdown_grace + 1000)"
proof -
  have bound: "wait_for_shutdown_over (tr_shutdown s) \<longrightarrow>
      returned s' \<or> tr_now s' \<le> tr_now s + shutdown_grace + 1000"
    using shutdown_is_bounded[OF assms(1) _ assms(3)] by (simp add: FORCE_CLOSE_GRACE_def)
  have inv: "serve_inv shutdown_grace s" using serve.inv_reach assms(1) .
  then have "drained_first shutdown_grace (tr_now s) s"
    using assms(2) by (auto simp: serve_inv_def drained_first_def wait_for_shutdown_over_def)
  then have "drained_first shutdown_grace (tr_now s) s' \<and> serve_inv shutdown_grace s'"
    by (rule steps_keep[OF assms(3) _ inv]) (rule drained_first_step)
  then have first: "drained_first shutdown_grace (tr_now s) s'" and inv': "serve_inv shutdown_grace s'" by auto
  show ?thesis
  proof (cases "tr_pc s'")
    case (Returned r)
    with inv' show ?thesis
      by (auto simp: serve_inv_def returned_def wait_for_shutdown_over_def intro!: poll_io_simps(1))
  qed (use first inv' bound in \<open>auto simp: serve_inv_def returned_def drained_first_def wait_for_cancellation_over_def
      intro!: poll_io_simps(2)\<close>)
qed

theorem connections_are_drained_first_witness:
  "\<exists>s'. serve_step 2 demo_serving s' \<and> tr_pc s' = Draining 2 \<and> tr_now s' < 2 \<and> poll_io (tr_force_close s') (Pending :: unit poll) = Pending"
proof -
  let ?s = "demo_serving\<lparr>tr_pc := Draining (tr_now demo_serving + 2)\<rparr>"
  have serving: "tr_pc demo_serving = Serving" by (simp add: demo_serving_def)
  from connections_are_drained_first[OF demo_serving_init serving r_into_rtranclp[of "serve_step 2", OF demo_drain],
      where inner = "Pending :: unit poll"] demo_drain
  show ?thesis by (intro exI[of _ ?s]) (simp add: demo_serving_def returned_def)
qed

end
