(* ===== verification/Protocol.thy ===== *)
theory Protocol
  imports Serve_Config
begin

text \<open>
  \<open>src/src/server/protocol.rs\<close>: the requests and responses of the control protocol and its
  bounded frames. The JSON format (serde) and tokio's \<open>LengthDelimitedCodec\<close> are parameters:
  \<open>to_vec\<close>/\<open>from_slice\<close> of a type, and what the codec yields for the bytes of a stream.
\<close>

section \<open>The wire contract\<close>

definition PROTOCOL_VERSION :: u32 where "PROTOCOL_VERSION = 2"
definition MAX_FRAME_SIZE :: nat where "MAX_FRAME_SIZE = 1024 * 1024"

datatype InstanceState = Running | Stopping
datatype ReadinessStatus = Disabled | Ready | NotReady
datatype ErrorCode = Unavailable | InvalidInput | NotFound | Conflict | Operation

record CreateInstanceRequest =
  ci_name :: string
  ci_host :: string
  ci_port :: u16

record StopInstanceRequest = si_name :: string

record RegisterRequest =
  rq_name :: string
  rq_id :: string
  rq_route :: string
  rq_config :: RouteConfig
  rq_yolo :: bool
  rq_args :: "string list"

record UnregisterRequest =
  ur_name :: string
  ur_id :: string

record StatusRequest = sr_name :: string
record RegistrationsRequest = rr_name :: string

datatype Request =
    ReqHealth
  | ReqCreateInstance CreateInstanceRequest
  | ReqStopInstance StopInstanceRequest
  | ReqRegister RegisterRequest
  | ReqUnregister UnregisterRequest
  | ReqList
  | ReqStatus StatusRequest
  | ReqRegistrations RegistrationsRequest
  | ReqShutdown

record RequestEnvelope =
  re_version :: u32
  re_command :: Request

record HealthResult = hr_protocol_version :: u32

record InstanceResult =
  ir_name :: string
  ir_host :: string
  ir_port :: u16
  ir_address :: string
  ir_state :: InstanceState

record StopInstanceResult = sp_name :: string

record ReadinessResult =
  rd_status :: ReadinessStatus
  rd_attempts :: u64
  rd_failures :: u64
  rd_detail :: "string option"

record RegistrationResult =
  rg_name :: string
  rg_id :: string
  rg_route :: string
  rg_address :: string
  rg_path :: string
  rg_health_endpoint :: bool
  rg_readyz_endpoint :: bool
  rg_max_processes :: u64
  rg_readiness :: ReadinessResult

record UnregisterResult =
  un_name :: string
  un_id :: string

record ListResult = ls_instances :: "InstanceResult list"

record RegistrationsResult =
  rs_name :: string
  rs_registrations :: "RegistrationResult list"

datatype Response =
    RespHealth HealthResult
  | RespCreateInstance InstanceResult
  | RespStopInstance StopInstanceResult
  | RespRegister RegistrationResult
  | RespUnregister UnregisterResult
  | RespList ListResult
  | RespStatus InstanceResult
  | RespRegistrations RegistrationsResult
  | RespShutdown

record ProtocolError =
  pe_code :: ErrorCode
  pe_message :: string

datatype ResponseEnvelope =
    Success u32 Response
  | Error u32 ProtocolError

section \<open>Frames\<close>

text \<open>
  What the codec yields first: a payload, an I/O error, or the end of the stream with the
  bytes left in its buffer.
\<close>

datatype frame_item = Frame string | FrameError io_error | EndOfStream string

definition read_frame :: "(string \<Rightarrow> string + 'a) \<Rightarrow> frame_item \<Rightarrow> 'a result" where
  "read_frame from_slice item =
     (let too_large = ''protocol frame payload exceeds '' @ show_nat MAX_FRAME_SIZE @ '' bytes''
      in and_then
        (case item of
           Frame payload \<Rightarrow> Inr payload
         | EndOfStream rest \<Rightarrow>
             if rest = [] then bail ''failed to read protocol frame: connection closed''
             else bail ''truncated protocol frame payload''
         | FrameError e \<Rightarrow>
             Inl (if io_kind e = KUnexpectedEof \<or> io_text e = ''bytes remaining on stream''
                  then [''truncated protocol frame payload'']
                  else if io_kind e = KInvalidData then [too_large]
                  else [''failed to read protocol frame: '' @ io_text e]))
        (\<lambda>payload.
           if payload = [] then bail ''protocol frame has an empty payload''
           else with_context ''invalid protocol JSON payload''
                  (map_err (\<lambda>e. [e]) (from_slice payload))))"

text \<open>\<open>write_frame\<close>: \<open>send\<close> is the codec's encoding and the write of its bytes.\<close>

definition write_frame ::
    "('a \<Rightarrow> string + string) \<Rightarrow> (string \<Rightarrow> string \<Rightarrow> io_error + string) \<Rightarrow> string \<Rightarrow> 'a
     \<Rightarrow> string result" where
  "write_frame to_vec send stream value =
     and_then
       (with_context ''failed to serialize protocol JSON payload'' (map_err (\<lambda>e. [e]) (to_vec value)))
       (\<lambda>payload.
          if length payload > MAX_FRAME_SIZE
          then bail (''protocol frame payload exceeds '' @ show_nat MAX_FRAME_SIZE @ '' bytes'')
          else with_context ''failed to write protocol frame'' (any_io (send stream payload)))"

text \<open>
  The documented behaviour of the length-delimited codec on one connection: sending a
  payload within the limit on an empty stream succeeds, and the peer's first item is that
  payload.
\<close>

definition codec_delivers ::
    "(string \<Rightarrow> string \<Rightarrow> io_error + string) \<Rightarrow> (string \<Rightarrow> frame_item) \<Rightarrow> bool" where
  "codec_delivers send first_item \<longleftrightarrow>
     (\<forall>payload. length payload \<le> MAX_FRAME_SIZE \<longrightarrow>
        (\<exists>bytes. send [] payload = Inr bytes \<and> first_item bytes = Frame payload))"


text \<open>A length-delimited codec: four big-endian bytes of length, then the payload.\<close>

definition be32 :: "nat \<Rightarrow> string" where
  "be32 n = [char_of (n div 16777216 mod 256), char_of (n div 65536 mod 256),
             char_of (n div 256 mod 256), char_of (n mod 256)]"

definition be32_decode :: "string \<Rightarrow> nat" where
  "be32_decode bs =
     code (bs ! 0) * 16777216 + code (bs ! 1) * 65536 + code (bs ! 2) * 256 + code (bs ! 3)"

definition length_delimited_send :: "string \<Rightarrow> string \<Rightarrow> io_error + string" where
  "length_delimited_send stream payload = Inr (stream @ be32 (length payload) @ payload)"

definition length_delimited_first :: "string \<Rightarrow> frame_item" where
  "length_delimited_first bytes =
     (if length bytes < 4 then EndOfStream bytes
      else let n = be32_decode bytes in
        if n > MAX_FRAME_SIZE then FrameError \<lparr>io_kind = KInvalidData, io_text = ''frame size too big''\<rparr>
        else if length bytes < 4 + n then EndOfStream bytes
        else Frame (take n (drop 4 bytes)))"

lemma be32_decode_be32: "n < 4294967296 \<Longrightarrow> be32_decode (be32 n @ rest) = n"
proof -
  assume n: "n < 4294967296"
  have d: "n div 65536 = n div 256 div 256" "n div 16777216 = n div 256 div 256 div 256"
    by (simp_all add: div_mult2_eq[symmetric])
  have "n div 256 div 256 div 256 < 256"
    using n by (simp add: div_mult2_eq[symmetric])
  then have "be32_decode (be32 n @ rest) =
      (n div 256 div 256 div 256) * 16777216 + (n div 256 div 256 mod 256) * 65536
      + (n div 256 mod 256) * 256 + n mod 256"
    by (simp add: be32_decode_def be32_def d code_def of_char_of)
  also have "\<dots> = n"
    using div_mult_mod_eq[of n 256] div_mult_mod_eq[of "n div 256" 256]
      div_mult_mod_eq[of "n div 256 div 256" 256] by linarith
  finally show ?thesis .
qed

lemma length_delimited_delivers: "codec_delivers length_delimited_send length_delimited_first"
  unfolding codec_delivers_def
proof (intro allI impI exI conjI)
  fix payload :: string
  assume len: "length payload \<le> MAX_FRAME_SIZE"
  show "length_delimited_send [] payload = Inr (be32 (length payload) @ payload)"
    by (simp add: length_delimited_send_def)
  have "be32_decode (be32 (length payload) @ payload) = length payload"
    using len by (intro be32_decode_be32) (simp add: MAX_FRAME_SIZE_def)
  moreover have "length (be32 (length payload)) = 4" by (simp add: be32_def)
  ultimately show "length_delimited_first (be32 (length payload) @ payload) = Frame payload"
    using len by (simp add: length_delimited_first_def)
qed


text \<open>
  A frame whose payload is truncated, too large, empty or not valid JSON is an
  error, as is a connection that closes before a frame; no such frame yields a message.
\<close>
lemma read_frame_Inr:
  "read_frame from_slice item = Inr v \<longleftrightarrow>
     (\<exists>payload. item = Frame payload \<and> payload \<noteq> [] \<and> from_slice payload = Inr v)"
  by (cases item) (auto simp: read_frame_def Let_def bail_def)

section \<open>The client's and daemon's use of a response\<close>

definition success :: "Response \<Rightarrow> ResponseEnvelope" where
  "success result = Success PROTOCOL_VERSION result"

definition error_response :: "ErrorCode \<Rightarrow> string \<Rightarrow> ResponseEnvelope" where
  "error_response c message = Error PROTOCOL_VERSION \<lparr>pe_code = c, pe_message = message\<rparr>"

end
