(* ===== verification/Routes.thy ===== *)
theory Routes
  imports Protocol Agent_Health "HOL-Library.Multiset"
begin

text \<open>
  \<open>src/src/server/routes.rs\<close> with the validators of \<open>src/src/server/mod.rs\<close> and
  \<open>public_address\<close> of \<open>src/src/server/daemon.rs\<close>: the names, agents and routes of a named
  server, its route table, and the dispatch of a request by its longest matching route. The
  URI type of the \<open>http\<close> crate is a parameter: its parser, and its construction from a path
  and query.
\<close>

section \<open>Validation\<close>

definition validate_name :: "string \<Rightarrow> unit result" where
  "validate_name name =
     (if name = [] \<or> \<not> list_all (\<lambda>b. is_ascii_alphanumeric b \<or> b \<in> {CHR ''-'', CHR ''_'', CHR ''.''}) name
      then bail (''server name must contain only letters, digits, '' @ sq @ ''.'' @ sq @ '', ''
                 @ sq @ ''-'' @ sq @ '' or '' @ sq @ ''_'' @ sq)
      else Inr ())"

definition validate_agent_id :: "string \<Rightarrow> bool" where
  "validate_agent_id i = (trim i \<noteq> [])"

record uri =
  uri_path :: string
  uri_query :: "string option"

definition validate_route :: "(string \<Rightarrow> string + uri) \<Rightarrow> string \<Rightarrow> unit result" where
  "validate_route parse route =
     (if \<not> prefix ''/'' route \<or> route = ''/'' \<or> suffix ''/'' route
      then bail (''agent route must start with '' @ sq @ ''/'' @ sq @ '', cannot be '' @ sq @ ''/'' @ sq
                 @ '', and must not end with '' @ sq @ ''/'' @ sq)
      else if list_ex (\<lambda>c. c = CHR ''?'' \<or> c = CHR ''#'') route
        \<or> list_ex (\<lambda>part. part = ''..'') (split_char CHR ''/'' route)
      then bail ''agent route contains an invalid path segment''
      else and_then
        (with_context ''agent route is not a valid URI path'' (map_err (\<lambda>e. [e]) (parse route)))
        (\<lambda>u. if uri_path u \<noteq> route \<or> uri_query u \<noteq> None
             then bail ''agent route is not a valid URI path'' else Inr ()))"

section \<open>Addresses\<close>

text \<open>An IPv6 address is its canonical text; the unspecified one is \<open>::\<close>.\<close>

datatype IpAddr = V4 nat nat nat nat | V6 string

record SocketAddr =
  sa_ip :: IpAddr
  sa_port :: u16

definition public_address :: "SocketAddr \<Rightarrow> string" where
  "public_address a =
     (let host = (case sa_ip a of
         V4 p q r s \<Rightarrow>
           if p = 0 \<and> q = 0 \<and> r = 0 \<and> s = 0 then ''127.0.0.1''
           else show_nat p @ ''.'' @ show_nat q @ ''.'' @ show_nat r @ ''.'' @ show_nat s
       | V6 t \<Rightarrow> if t = ''::'' then ''[::1]'' else ''['' @ t @ '']'')
      in ''http://'' @ host @ '':'' @ show_u16 (sa_port a))"

section \<open>The route table\<close>

text \<open>
  A runtime is its router and its health. Route keys are compared without their
  configuration, so the key of the table is the agent id and the public route.
\<close>

record 'r RouteRuntime =
  rt_router :: 'r
  rt_health :: AgentHealthState

record RouteKey =
  rk_id :: string
  rk_public_route :: string
  rk_config :: RouteConfig

definition RouteKey_eq :: "RouteKey \<Rightarrow> RouteKey \<Rightarrow> bool" where
  "RouteKey_eq a b = (rk_id a = rk_id b \<and> rk_public_route a = rk_public_route b)"

type_synonym 'r routes = "(RouteKey \<times> 'r RouteRuntime) list"

definition routes_insert :: "RouteKey \<Rightarrow> 'r RouteRuntime \<Rightarrow> 'r routes \<Rightarrow> 'r routes" where
  "routes_insert k runtime routes =
     (if list_ex (\<lambda>(k', _). RouteKey_eq k k') routes
      then map (\<lambda>(k', r). if RouteKey_eq k k' then (k', runtime) else (k', r)) routes
      else (k, runtime) # routes)"

definition routes_remove :: "RouteKey \<Rightarrow> 'r routes \<Rightarrow> 'r routes" where
  "routes_remove k routes = filter (\<lambda>(k', _). \<not> RouteKey_eq k k') routes"

definition readiness_result :: "bool \<Rightarrow> ReadinessSnapshot \<Rightarrow> ReadinessResult" where
  "readiness_result readyz_endpoint snap =
     (let (status, detail) =
        (if \<not> readyz_endpoint then (Disabled, None)
         else if rs_last_attempt_failed snap
           then (NotReady, map_option rf_detail (rs_last_failure snap))
         else (Ready, None))
      in \<lparr>rd_status = status, rd_attempts = rs_attempts snap, rd_failures = rs_failures snap,
          rd_detail = detail\<rparr>)"

definition registration_result ::
    "string \<Rightarrow> SocketAddr \<Rightarrow> RouteKey \<Rightarrow> 'r RouteRuntime \<Rightarrow> RegistrationResult" where
  "registration_result name address route_key runtime =
     \<lparr>rg_name = name, rg_id = rk_id route_key, rg_route = rk_public_route route_key,
      rg_address = public_address address, rg_path = rc_path (rk_config route_key),
      rg_health_endpoint = rc_health_endpoint (rk_config route_key),
      rg_readyz_endpoint = rc_readyz_endpoint (rk_config route_key),
      rg_max_processes = rc_max_processes (rk_config route_key),
      rg_readiness = readiness_result (rc_readyz_endpoint (rk_config route_key))
                       (snapshot (rt_health runtime))\<rparr>"

text \<open>The conflict checks of \<open>register\<close> and the removal of \<open>unregister\<close> under the write lock.\<close>

record DaemonOperationError =
  de_code :: ErrorCode
  de_message :: string

definition op_error :: "ErrorCode \<Rightarrow> string \<Rightarrow> DaemonOperationError + 'a" where
  "op_error c m = Inl \<lparr>de_code = c, de_message = m\<rparr>"

definition commit_registration ::
    "RouteKey \<Rightarrow> 'r RouteRuntime \<Rightarrow> 'r routes \<Rightarrow> DaemonOperationError + 'r routes" where
  "commit_registration route_key runtime routes =
     (if list_ex (\<lambda>(k, _). rk_id k = rk_id route_key) routes
      then op_error Conflict (''agent id '' @ rk_id route_key @ '' is already registered'')
      else if list_ex (\<lambda>(k, _). rk_public_route k = rk_public_route route_key) routes
      then op_error Conflict (''route '' @ rk_public_route route_key @ '' is already registered'')
      else Inr (routes_insert route_key runtime routes))"

definition commit_unregistration ::
    "string \<Rightarrow> 'r routes \<Rightarrow> DaemonOperationError + 'r routes" where
  "commit_unregistration agent_id routes =
     (case List.find (\<lambda>(k, _). rk_id k = agent_id) routes of
        None \<Rightarrow> op_error NotFound (''agent '' @ agent_id @ '' is not registered'')
      | Some (k, _) \<Rightarrow> Inr (routes_remove k routes))"

text \<open>\<open>registrations\<close> lists a snapshot of the table by route and then id.\<close>

definition registration_le :: "RegistrationResult \<Rightarrow> RegistrationResult \<Rightarrow> bool" where
  "registration_le a b =
     (rg_route a < rg_route b \<or> rg_route a = rg_route b \<and> rg_id a \<le> rg_id b)"

fun insert_by :: "('a \<Rightarrow> 'a \<Rightarrow> bool) \<Rightarrow> 'a \<Rightarrow> 'a list \<Rightarrow> 'a list" where
  "insert_by le x [] = [x]"
| "insert_by le x (y # ys) = (if le x y then x # y # ys else y # insert_by le x ys)"

text \<open>A stable sort (\<open>sort_by\<close>).\<close>

definition sort_by :: "('a \<Rightarrow> 'a \<Rightarrow> bool) \<Rightarrow> 'a list \<Rightarrow> 'a list" where
  "sort_by le xs = foldr (insert_by le) xs []"

definition list_registrations :: "string \<Rightarrow> SocketAddr \<Rightarrow> 'r routes \<Rightarrow> RegistrationsResult" where
  "list_registrations name address routes =
     \<lparr>rs_name = name,
      rs_registrations = sort_by registration_le
        (map (\<lambda>(k, runtime). registration_result name address k runtime) routes)\<rparr>"

section \<open>Dispatch\<close>

definition route_matches :: "string \<Rightarrow> string \<Rightarrow> bool" where
  "route_matches route path =
     (path = route \<or>
      (case strip_prefix route path of None \<Rightarrow> False | Some rest \<Rightarrow> prefix ''/'' rest))"

text \<open>A request is its URI and everything else.\<close>

record 'b http_req =
  hq_uri :: uri
  hq_rest :: 'b

definition rewrite_error :: "string \<Rightarrow> string" where
  "rewrite_error e = ''failed to rewrite request URI: '' @ e"

text \<open>\<open>build\<close> makes a URI from a path and query (\<open>Uri::builder\<close>).\<close>

definition rewrite_route_prefix ::
    "(string \<Rightarrow> string + uri) \<Rightarrow> 'b http_req \<Rightarrow> string \<Rightarrow> string + 'b http_req" where
  "rewrite_route_prefix build request route =
     (let path = uri_path (hq_uri request)
      in case Option.bind (strip_prefix route path)
                (\<lambda>rest. if rest = [] \<or> prefix ''/'' rest then Some rest else None) of
           None \<Rightarrow> Inl (''route '' @ route @ '' does not match request path '' @ path)
         | Some rest \<Rightarrow>
             let rewritten_path = (if rest = [] then ''/'' else rest);
                 path_and_query = (case uri_query (hq_uri request) of
                    Some query \<Rightarrow> rewritten_path @ ''?'' @ query
                  | None \<Rightarrow> rewritten_path)
             in map_ok (\<lambda>u. request\<lparr>hq_uri := u\<rparr>)
                  (map_err rewrite_error (build path_and_query)))"

text \<open>\<open>Iterator::max_by_key\<close>: the last of the greatest elements.\<close>

fun max_by_key :: "('a \<Rightarrow> nat) \<Rightarrow> 'a list \<Rightarrow> 'a option" where
  "max_by_key f [] = None"
| "max_by_key f (x # xs) =
     (case max_by_key f xs of
        None \<Rightarrow> Some x
      | Some y \<Rightarrow> if f y \<ge> f x then Some y else Some x)"

definition select_route :: "'r routes \<Rightarrow> string \<Rightarrow> (RouteKey \<times> 'r RouteRuntime) option" where
  "select_route routes path =
     max_by_key (\<lambda>(k, _). length (rk_public_route k))
       (filter (\<lambda>(k, _). route_matches (rk_public_route k) path) routes)"

text \<open>The response, or the router to which the rewritten request goes.\<close>

datatype ('r, 'b) dispatch = Status nat | InternalError string | Forward 'r "'b http_req"

definition dispatch_instance ::
    "(string \<Rightarrow> string + uri) \<Rightarrow> InstanceState \<Rightarrow> 'r routes \<Rightarrow> 'b http_req \<Rightarrow> ('r, 'b) dispatch"
where
  "dispatch_instance build state routes request =
     (if state \<noteq> Running then Status 503
      else case select_route routes (uri_path (hq_uri request)) of
        None \<Rightarrow> Status 404
      | Some (k, runtime) \<Rightarrow>
          (case rewrite_route_prefix build request (rk_public_route k) of
             Inl e \<Rightarrow> InternalError e
           | Inr request' \<Rightarrow> Forward (rt_router runtime) request'))"

section \<open>The interface of a longest-match table\<close>

text \<open>
  Entries have labels that match queries; two labels of the same weight that match the same
  query are equal. Then the choice among the matching entries does not depend on the order
  in which the table is iterated.
\<close>

lemma max_by_key_None: "max_by_key f xs = None \<longleftrightarrow> xs = []"
  by (cases xs) (auto split: option.splits)

lemma max_by_key_Some:
  "max_by_key f xs = Some x \<Longrightarrow> x \<in> set xs \<and> (\<forall>y \<in> set xs. f y \<le> f x)"
  by (induction xs arbitrary: x)
    (fastforce simp: max_by_key_None split: option.splits if_splits)+

locale longest_match =
  fixes label :: "'e \<Rightarrow> 'l" and matches :: "'l \<Rightarrow> 'q \<Rightarrow> bool" and weight :: "'l \<Rightarrow> nat"
  assumes unique: "matches l q \<Longrightarrow> matches l' q \<Longrightarrow> weight l = weight l' \<Longrightarrow> l = l'"
begin

lemma select_iff:
  assumes "distinct (map label table)"
  shows "max_by_key (\<lambda>e. weight (label e)) (filter (\<lambda>e. matches (label e) q) table) = Some e \<longleftrightarrow>
    e \<in> set table \<and> matches (label e) q
    \<and> (\<forall>e' \<in> set table. matches (label e') q \<longrightarrow> weight (label e') \<le> weight (label e))"
    (is "?select = Some e \<longleftrightarrow> ?best e")
proof
  show "?select = Some e \<Longrightarrow> ?best e" by (auto dest!: max_by_key_Some)
next
  assume best: "?best e"
  then have "?select \<noteq> None" by (auto simp: max_by_key_None filter_empty_conv)
  then obtain e' where e': "?select = Some e'" by blast
  then have "?best e'" by (auto dest!: max_by_key_Some)
  with best have "label e = label e'" by (meson le_antisym unique)
  with best \<open>?best e'\<close> assms have "e = e'" by (auto simp: distinct_map inj_on_def)
  with e' show "?select = Some e" by simp
qed

lemma select_permutation:
  assumes "distinct (map label table)" "mset table = mset table'"
  shows "max_by_key (\<lambda>e. weight (label e)) (filter (\<lambda>e. matches (label e) q) table)
    = max_by_key (\<lambda>e. weight (label e)) (filter (\<lambda>e. matches (label e) q) table')"
    (is "?select = ?select'")
proof -
  have set: "set table = set table'" using assms(2) by (metis set_mset_mset)
  have "mset (map label table) = mset (map label table')" using assms(2) by simp
  with assms(1) have d: "distinct (map label table')" by (metis mset_eq_imp_distinct_iff)
  have "?select = Some e \<longleftrightarrow> ?select' = Some e" for e
    by (simp only: select_iff[OF assms(1)] select_iff[OF d] set)
  then show "?select = ?select'" by (metis not_None_eq)
qed

end

lemma route_matches_iff:
  "route_matches route path \<longleftrightarrow> path = route \<or> (\<exists>rest. path = route @ ''/'' @ rest)"
  by (auto simp: route_matches_def strip_prefix_def prefix_def split: option.split)

lemma route_matches_same_length:
  assumes "route_matches r path" "route_matches r' path" "length r = length r'"
  shows "r = r'"
proof -
  from assms obtain a b where "path = r @ a" "path = r' @ b"
    by (auto simp: route_matches_iff)
  with assms(3) show ?thesis by (metis append_eq_append_conv)
qed

interpretation route_table: longest_match
  "\<lambda>e :: RouteKey \<times> 'r RouteRuntime. rk_public_route (fst e)" route_matches length
  by unfold_locales (rule route_matches_same_length)

section \<open>Invariant of the route table\<close>

definition routes_ok :: "'r routes \<Rightarrow> bool" where
  "routes_ok routes \<longleftrightarrow>
     distinct (map (\<lambda>e. rk_id (fst e)) routes) \<and> distinct (map (\<lambda>e. rk_public_route (fst e)) routes)"

lemma routes_insert_fresh:
  "\<not> list_ex (\<lambda>(k', _). rk_id k' = rk_id k) routes \<Longrightarrow> routes_insert k runtime routes = (k, runtime) # routes"
  by (auto simp: routes_insert_def RouteKey_eq_def list_ex_iff)

lemma op_error_neq_Inr [simp]: "op_error c m = Inr x \<longleftrightarrow> False" "Inr x = op_error c m \<longleftrightarrow> False"
  by (simp_all add: op_error_def)

lemma op_error_inject [simp]: "op_error c m = op_error c' m' \<longleftrightarrow> c = c' \<and> m = m'"
  by (simp add: op_error_def)

lemma list_ex_key:
  "list_ex (\<lambda>(k, _). rk_id k = i) routes \<longleftrightarrow> i \<in> (\<lambda>e. rk_id (fst e)) ` set routes"
  "list_ex (\<lambda>(k, _). rk_public_route k = r) routes \<longleftrightarrow> r \<in> (\<lambda>e. rk_public_route (fst e)) ` set routes"
  by (force simp: list_ex_iff)+

lemma commit_registration_Inr:
  "commit_registration k runtime routes = Inr routes' \<longleftrightarrow>
     rk_id k \<notin> (\<lambda>e. rk_id (fst e)) ` set routes
     \<and> rk_public_route k \<notin> (\<lambda>e. rk_public_route (fst e)) ` set routes
     \<and> routes' = (k, runtime) # routes"
  using routes_insert_fresh[of k routes runtime]
  unfolding commit_registration_def list_ex_key by (simp split: if_split) metis

lemma commit_registration_ok:
  "routes_ok routes \<Longrightarrow> commit_registration k runtime routes = Inr routes' \<Longrightarrow> routes_ok routes'"
  by (auto simp: commit_registration_Inr routes_ok_def)

lemma routes_remove_ok: "routes_ok routes \<Longrightarrow> routes_ok (routes_remove k routes)"
  by (simp add: routes_ok_def routes_remove_def distinct_map_filter)

lemma commit_unregistration_ok:
  "routes_ok routes \<Longrightarrow> commit_unregistration i routes = Inr routes' \<Longrightarrow> routes_ok routes'"
  by (auto simp: commit_unregistration_def routes_remove_ok split: option.splits prod.splits)

lemma commit_unregistration_Inr:
  assumes "routes_ok routes" "commit_unregistration i routes = Inr routes'"
  shows "i \<in> (\<lambda>e. rk_id (fst e)) ` set routes \<and> routes' = filter (\<lambda>e. rk_id (fst e) \<noteq> i) routes"
proof -
  from assms(2) obtain k runtime where find: "List.find (\<lambda>(k, _). rk_id k = i) routes = Some (k, runtime)"
    and r: "routes' = routes_remove k routes"
    by (auto simp: commit_unregistration_def split: option.splits prod.splits)
  from find_Some_mem[OF find] have k: "(k, runtime) \<in> set routes" "rk_id k = i" by auto
  have same: "RouteKey_eq k (fst e) \<longleftrightarrow> rk_id (fst e) = i" if "e \<in> set routes" for e
    using that k assms(1) unfolding RouteKey_eq_def routes_ok_def distinct_map inj_on_def
    by (metis fst_conv)
  have "routes' = filter (\<lambda>e. \<not> RouteKey_eq k (fst e)) routes"
    by (simp add: r routes_remove_def case_prod_unfold)
  also have "\<dots> = filter (\<lambda>e. rk_id (fst e) \<noteq> i) routes"
    by (rule filter_cong[OF refl]) (simp add: same)
  finally show ?thesis using k by force
qed

text \<open>
  A registration is accepted exactly when neither its agent id nor its route is
  taken; an accepted one keeps ids and routes unique, and unregistering the agent restores
  the table.
\<close>
lemma registration_round_trip:
  assumes "routes_ok routes"
  shows "if rk_id k \<in> (\<lambda>e. rk_id (fst e)) ` set routes
           \<or> rk_public_route k \<in> (\<lambda>e. rk_public_route (fst e)) ` set routes
    then \<exists>m. commit_registration k runtime routes = op_error Conflict m
    else \<exists>routes'. commit_registration k runtime routes = Inr routes' \<and> routes_ok routes'
      \<and> (k, runtime) \<in> set routes' \<and> commit_unregistration (rk_id k) routes' = Inr routes"
proof (cases "rk_id k \<in> (\<lambda>e. rk_id (fst e)) ` set routes
           \<or> rk_public_route k \<in> (\<lambda>e. rk_public_route (fst e)) ` set routes")
  case True
  then have "\<exists>m. commit_registration k runtime routes = op_error Conflict m"
    unfolding commit_registration_def list_ex_key by auto
  with True show ?thesis by simp
next
  case False
  then have c: "commit_registration k runtime routes = Inr ((k, runtime) # routes)"
    by (simp add: commit_registration_Inr)
  have "filter (\<lambda>e. \<not> RouteKey_eq k (fst e)) routes = routes"
    using False by (force simp: filter_id_conv RouteKey_eq_def)
  then have "commit_unregistration (rk_id k) ((k, runtime) # routes) = Inr routes"
    by (simp add: commit_unregistration_def routes_remove_def RouteKey_eq_def case_prod_unfold)
  with False c commit_registration_ok[OF assms c] show ?thesis by auto
qed

definition sample_key :: "string \<Rightarrow> string \<Rightarrow> RouteKey" where
  "sample_key i route = \<lparr>rk_id = i, rk_public_route = route, rk_config = RouteConfig_default\<rparr>"

definition sample_runtime :: "nat RouteRuntime" where
  "sample_runtime = \<lparr>rt_router = 1, rt_health = AgentHealthState_default\<rparr>"

definition sample_routes :: "nat routes" where
  "sample_routes =
     [(sample_key ''claude'' ''/claude'', sample_runtime),
      (sample_key ''codex'' ''/claude/codex'', sample_runtime\<lparr>rt_router := 2\<rparr>)]"

lemma sample_routes_ok: "routes_ok sample_routes"
  by (simp add: routes_ok_def sample_routes_def sample_key_def)

theorem registration_round_trip_witness:
  "(\<exists>m. commit_registration (sample_key ''x'' ''/claude'') sample_runtime sample_routes
      = op_error Conflict m)
   \<and> (\<exists>routes'. commit_registration (sample_key ''x'' ''/x'') sample_runtime sample_routes = Inr routes'
        \<and> commit_unregistration ''x'' routes' = Inr sample_routes)"
  using registration_round_trip[OF sample_routes_ok, of "sample_key ''x'' ''/claude''" sample_runtime]
    registration_round_trip[OF sample_routes_ok, of "sample_key ''x'' ''/x''" sample_runtime]
  by (auto simp: sample_routes_def sample_key_def)

section \<open>Dispatch\<close>

text \<open>The target that the router of a route sees.\<close>

definition forwarded_path :: "string \<Rightarrow> string \<Rightarrow> string" where
  "forwarded_path route path = (if path = route then ''/'' else drop (length route) path)"

definition path_and_query :: "string \<Rightarrow> string option \<Rightarrow> string" where
  "path_and_query p q = (case q of None \<Rightarrow> p | Some query \<Rightarrow> p @ ''?'' @ query)"

lemma rewrite_matching:
  assumes "route_matches route (uri_path (hq_uri request))"
  shows "rewrite_route_prefix build request route =
    map_ok (\<lambda>u. request\<lparr>hq_uri := u\<rparr>) (map_err rewrite_error
      (build (path_and_query (forwarded_path route (uri_path (hq_uri request)))
                (uri_query (hq_uri request)))))"
  using assms
  by (auto simp: rewrite_route_prefix_def route_matches_iff forwarded_path_def path_and_query_def Let_def
      strip_prefix_def split: option.split)

lemma select_route_eq:
  "select_route routes path =
     max_by_key (\<lambda>e. length (rk_public_route (fst e)))
       (filter (\<lambda>e. route_matches (rk_public_route (fst e)) path) routes)"
  by (simp add: select_route_def case_prod_unfold)

lemma dispatch_longest:
  assumes "routes_ok routes" "mset routes = mset table"
  shows "state \<noteq> Running \<Longrightarrow> dispatch_instance build state table request = Status 503"
    and "\<forall>e \<in> set routes. \<not> route_matches (rk_public_route (fst e)) (uri_path (hq_uri request)) \<Longrightarrow>
      dispatch_instance build Running table request = Status 404"
    and "\<lbrakk>(k, runtime) \<in> set routes; route_matches (rk_public_route k) (uri_path (hq_uri request));
      \<forall>e \<in> set routes. route_matches (rk_public_route (fst e)) (uri_path (hq_uri request)) \<longrightarrow>
         length (rk_public_route (fst e)) \<le> length (rk_public_route k)\<rbrakk> \<Longrightarrow>
      dispatch_instance build Running table request =
        (case build (path_and_query (forwarded_path (rk_public_route k) (uri_path (hq_uri request)))
                       (uri_query (hq_uri request))) of
           Inl e \<Rightarrow> InternalError (rewrite_error e)
         | Inr u \<Rightarrow> Forward (rt_router runtime) (request\<lparr>hq_uri := u\<rparr>))"
proof -
  let ?path = "uri_path (hq_uri request)"
  have d: "distinct (map (\<lambda>e. rk_public_route (fst e)) routes)"
    using assms(1) by (simp add: routes_ok_def)
  have sel: "select_route table ?path = select_route routes ?path"
    unfolding select_route_eq using route_table.select_permutation[OF d assms(2)] by simp
  show "state \<noteq> Running \<Longrightarrow> dispatch_instance build state table request = Status 503"
    by (simp add: dispatch_instance_def)
  show "dispatch_instance build Running table request = Status 404"
    if "\<forall>e \<in> set routes. \<not> route_matches (rk_public_route (fst e)) ?path"
  proof -
    from that have "select_route routes ?path = None"
      by (simp add: select_route_eq max_by_key_None filter_empty_conv)
    then show ?thesis by (simp add: dispatch_instance_def sel)
  qed
  show "dispatch_instance build Running table request =
        (case build (path_and_query (forwarded_path (rk_public_route k) ?path)
                       (uri_query (hq_uri request))) of
           Inl e \<Rightarrow> InternalError (rewrite_error e)
         | Inr u \<Rightarrow> Forward (rt_router runtime) (request\<lparr>hq_uri := u\<rparr>))"
    if "(k, runtime) \<in> set routes" and m: "route_matches (rk_public_route k) ?path"
      and "\<forall>e \<in> set routes. route_matches (rk_public_route (fst e)) ?path \<longrightarrow>
         length (rk_public_route (fst e)) \<le> length (rk_public_route k)"
  proof -
    have "select_route routes ?path = Some (k, runtime)"
      unfolding select_route_eq route_table.select_iff[OF d] using that by simp
    then show ?thesis
      by (simp add: dispatch_instance_def sel rewrite_matching[OF m] split: sum.split)
  qed
qed

text \<open>
  Property C22: a request to a running instance goes to the router of the longest registered
  route that is its path or a directory above it, whatever the iteration order of the route
  table; without such a route it is answered 404, and 503 once the instance is stopping.
\<close>
theorem dispatch_longest_route:
  assumes "routes_ok routes" "mset routes = mset table"
  shows "(state \<noteq> Running \<longrightarrow> dispatch_instance build state table request = Status 503)
    \<and> ((\<forall>e \<in> set routes. \<not> route_matches (rk_public_route (fst e)) (uri_path (hq_uri request))) \<longrightarrow>
         dispatch_instance build Running table request = Status 404)
    \<and> (\<forall>k runtime. (k, runtime) \<in> set routes \<and> route_matches (rk_public_route k) (uri_path (hq_uri request))
         \<and> (\<forall>e \<in> set routes. route_matches (rk_public_route (fst e)) (uri_path (hq_uri request)) \<longrightarrow>
              length (rk_public_route (fst e)) \<le> length (rk_public_route k)) \<longrightarrow>
         dispatch_instance build Running table request =
          (case build (path_and_query (forwarded_path (rk_public_route k) (uri_path (hq_uri request)))
                         (uri_query (hq_uri request))) of
             Inl e \<Rightarrow> InternalError (rewrite_error e)
           | Inr u \<Rightarrow> Forward (rt_router runtime) (request\<lparr>hq_uri := u\<rparr>)))"
proof (intro conjI allI impI)
  show "state \<noteq> Running \<Longrightarrow> dispatch_instance build state table request = Status 503"
    by (rule dispatch_longest(1)[OF assms])
qed (elim conjE | rule dispatch_longest(2)[OF assms] dispatch_longest(3)[OF assms] | assumption)+

definition sample_request :: "unit http_req" where
  "sample_request = \<lparr>hq_uri = \<lparr>uri_path = ''/claude/codex/acp'', uri_query = Some ''x=1''\<rparr>, hq_rest = ()\<rparr>"

definition sample_build :: "string \<Rightarrow> string + uri" where
  "sample_build s =
     (case split_once CHR ''?'' s of
        None \<Rightarrow> Inr \<lparr>uri_path = s, uri_query = None\<rparr>
      | Some (p, q) \<Rightarrow> Inr \<lparr>uri_path = p, uri_query = Some q\<rparr>)"

theorem dispatch_longest_route_witness:
  "dispatch_instance sample_build Running (rev sample_routes) sample_request =
     Forward 2 (sample_request\<lparr>hq_uri := \<lparr>uri_path = ''/acp'', uri_query = Some ''x=1''\<rparr>\<rparr>)"
proof -
  have "mset sample_routes = mset (rev sample_routes)" by simp
  from conjunct2[OF conjunct2[OF dispatch_longest_route[OF sample_routes_ok this,
      where request = sample_request and build = sample_build]],
      rule_format, of "sample_key ''codex'' ''/claude/codex''" "sample_runtime\<lparr>rt_router := 2\<rparr>"]
  show ?thesis
    by (simp add: sample_routes_def sample_key_def sample_request_def route_matches_def strip_prefix_def
        forwarded_path_def path_and_query_def sample_build_def sample_runtime_def)
qed

text \<open>
  What the \<open>http\<close> crate documents of building a URI from a path and query: the parts that the
  rewriting of this request uses are taken over as they are.
\<close>

definition uri_builder :: "(string \<Rightarrow> string + uri) \<Rightarrow> uri \<Rightarrow> bool" where
  "uri_builder build u \<longleftrightarrow>
     (\<forall>p. p = ''/'' \<or> prefix ''/'' p \<and> suffix p (uri_path u) \<longrightarrow>
        build (path_and_query p (uri_query u)) = Inr \<lparr>uri_path = p, uri_query = uri_query u\<rparr>)"

text \<open>
  Rewriting succeeds for every route that matches, removes exactly the route from
  the front of the path and keeps the query and the rest of the request; the root of a
  route is the path \<open>/\<close>.
\<close>
lemma rewrite_strips_exactly_the_route:
  assumes "route_matches route (uri_path (hq_uri request))" "uri_builder build (hq_uri request)"
  shows "\<exists>p. rewrite_route_prefix build request route
        = Inr (request\<lparr>hq_uri := \<lparr>uri_path = p, uri_query = uri_query (hq_uri request)\<rparr>\<rparr>)
    \<and> prefix ''/'' p
    \<and> (if uri_path (hq_uri request) = route then p = ''/'' else route @ p = uri_path (hq_uri request))"
proof -
  let ?path = "uri_path (hq_uri request)"
  let ?p = "forwarded_path route ?path"
  have p: "prefix ''/'' ?p" "?p = ''/'' \<or> suffix ?p ?path"
    "if ?path = route then ?p = ''/'' else route @ ?p = ?path"
    using assms(1) by (auto simp: route_matches_iff forwarded_path_def suffix_def)
  with assms(2) have "build (path_and_query ?p (uri_query (hq_uri request)))
      = Inr \<lparr>uri_path = ?p, uri_query = uri_query (hq_uri request)\<rparr>"
    unfolding uri_builder_def by blast
  then have "rewrite_route_prefix build request route
      = Inr (request\<lparr>hq_uri := \<lparr>uri_path = ?p, uri_query = uri_query (hq_uri request)\<rparr>\<rparr>)"
    by (simp add: rewrite_matching[OF assms(1)])
  with p(1,3) show ?thesis by blast
qed

lemma split_once_path_and_query:
  "CHR ''?'' \<notin> set p \<Longrightarrow> sample_build (path_and_query p q) = Inr \<lparr>uri_path = p, uri_query = q\<rparr>"
  using split_once_None[of "CHR ''?''" p]
  by (cases q) (simp_all add: sample_build_def path_and_query_def split_once_append)

theorem rewrite_strips_exactly_the_route_witness:
  "\<exists>p. rewrite_route_prefix sample_build sample_request ''/claude''
        = Inr (sample_request\<lparr>hq_uri := \<lparr>uri_path = p, uri_query = Some ''x=1''\<rparr>\<rparr>)
    \<and> ''/claude'' @ p = ''/claude/codex/acp''"
proof -
  have m: "route_matches ''/claude'' (uri_path (hq_uri sample_request))"
    by (simp add: sample_request_def route_matches_def strip_prefix_def)
  have "uri_builder sample_build (hq_uri sample_request)"
    unfolding uri_builder_def
  proof (intro allI impI)
    fix p
    assume p: "p = ''/'' \<or> prefix ''/'' p \<and> suffix p (uri_path (hq_uri sample_request))"
    have q: "CHR ''?'' \<notin> set (uri_path (hq_uri sample_request))" by code_simp
    have "CHR ''?'' \<notin> set p"
    proof (cases "p = ''/''")
      case False
      with p have "set p \<subseteq> set (uri_path (hq_uri sample_request))" by (simp add: set_mono_suffix)
      with q show ?thesis by blast
    qed simp
    then show "sample_build (path_and_query p (uri_query (hq_uri sample_request)))
        = Inr \<lparr>uri_path = p, uri_query = uri_query (hq_uri sample_request)\<rparr>"
      by (rule split_once_path_and_query)
  qed
  moreover have "uri_path (hq_uri sample_request) \<noteq> ''/claude''" by code_simp
  ultimately obtain p where "rewrite_route_prefix sample_build sample_request ''/claude''
        = Inr (sample_request\<lparr>hq_uri := \<lparr>uri_path = p, uri_query = uri_query (hq_uri sample_request)\<rparr>\<rparr>)"
    "''/claude'' @ p = uri_path (hq_uri sample_request)"
    using rewrite_strips_exactly_the_route[OF m] by metis
  moreover have "uri_query (hq_uri sample_request) = Some ''x=1''"
    "uri_path (hq_uri sample_request) = ''/claude/codex/acp''" by (simp_all add: sample_request_def)
  ultimately show ?thesis by metis
qed

text \<open>
  An accepted route is absolute, is not the root, has no trailing slash, no query
  or fragment and no parent segment, and it serves exactly itself and the paths below it,
  never a sibling whose name merely begins with it.
\<close>
lemma accepted_route_shape:
  assumes "validate_route parse route = Inr ()"
  shows "prefix ''/'' route \<and> route \<noteq> ''/'' \<and> \<not> suffix ''/'' route
    \<and> CHR ''?'' \<notin> set route \<and> CHR ''#'' \<notin> set route \<and> ''..'' \<notin> set (split_char CHR ''/'' route)
    \<and> parse route = Inr \<lparr>uri_path = route, uri_query = None\<rparr>
    \<and> (\<forall>path. route_matches route path \<longleftrightarrow> path = route \<or> (\<exists>rest. path = route @ ''/'' @ rest))"
proof (intro conjI)
  show "\<forall>path. route_matches route path \<longleftrightarrow> path = route \<or> (\<exists>rest. path = route @ ''/'' @ rest)"
    by (simp add: route_matches_iff)
  show "parse route = Inr \<lparr>uri_path = route, uri_query = None\<rparr>"
    using assms by (auto simp: validate_route_def and_then_eq_Inr split: if_splits)
qed (use assms in \<open>auto simp: validate_route_def list_ex_iff split: if_splits\<close>)

theorem accepted_route_shape_witness:
  "validate_route sample_build ''/my-agent'' = Inr () \<and> \<not> route_matches ''/my-agent'' ''/my-agents''
   \<and> \<not> suffix ''/'' ''/my-agent''"
proof -
  have v: "validate_route sample_build ''/my-agent'' = Inr ()"
    by (simp add: validate_route_def sample_build_def suffix_def)
  with accepted_route_shape[OF v] show ?thesis by auto
qed

section \<open>Listing\<close>

lemma mset_insert_by [simp]: "mset (insert_by le x xs) = add_mset x (mset xs)"
  by (induction xs) auto

lemma mset_sort_by [simp]: "mset (sort_by le xs) = mset xs"
  by (induction xs) (auto simp: sort_by_def)

text \<open>
  The contract of the comparisons that the listings sort by: they are total and transitive. A sort by
  such a comparison is sorted, and determined by what it lists when no two elements tie.
\<close>

locale listing_order =
  fixes le :: "'a \<Rightarrow> 'a \<Rightarrow> bool"
  assumes le_trans: "le a b \<Longrightarrow> le b c \<Longrightarrow> le a c"
    and le_total: "le a b \<or> le b a"
begin

lemma sorted_insert_by: "sorted_wrt le xs \<Longrightarrow> sorted_wrt le (insert_by le x xs)"
proof (induction xs)
  case (Cons y ys)
  have "set (insert_by le x ys) = insert x (set ys)"
    by (metis mset_insert_by set_mset_add_mset_insert set_mset_mset)
  with Cons le_total[of x y] show ?case by (auto intro: le_trans)
qed simp

lemma sorted_sort_by: "sorted_wrt le (sort_by le xs)"
  unfolding sort_by_def by (induction xs) (auto intro: sorted_insert_by)

lemma sorted_unique:
  assumes "sorted_wrt le xs" "sorted_wrt le ys" "mset xs = mset ys"
    and "\<And>x y. x \<in> set xs \<Longrightarrow> y \<in> set xs \<Longrightarrow> le x y \<Longrightarrow> le y x \<Longrightarrow> x = y"
  shows "xs = ys"
  using assms
proof (induction xs arbitrary: ys)
  case (Cons x xs)
  then obtain y ys' where ys: "ys = y # ys'" by (cases ys) auto
  have sets: "set (x # xs) = set (y # ys')" using Cons.prems(3) ys by (metis mset_eq_setD)
  have "x = y"
  proof (rule ccontr)
    assume "x \<noteq> y"
    then have "y \<in> set xs" "x \<in> set ys'" using sets by auto
    with Cons.prems(1,2) ys have "le x y" "le y x" by auto
    then show False using Cons.prems(4)[of x y] \<open>x \<noteq> y\<close> \<open>y \<in> set xs\<close> by simp
  qed
  moreover have "xs = ys'"
    using Cons.prems ys \<open>x = y\<close> by (intro Cons.IH) auto
  ultimately show ?case using ys by simp
qed simp

text \<open>When no two elements tie, the listing depends on their multiset only.\<close>

lemma sort_by_canonical:
  assumes "mset xs = mset ys" "\<And>x y. x \<in> set xs \<Longrightarrow> y \<in> set xs \<Longrightarrow> le x y \<Longrightarrow> le y x \<Longrightarrow> x = y"
  shows "sort_by le xs = sort_by le ys"
  using assms sorted_sort_by by (intro sorted_unique) (simp_all, metis mset_sort_by set_mset_mset)

end

interpretation registrations: listing_order registration_le
  by unfold_locales (auto simp: registration_le_def)

text \<open>
  The registrations of an instance are listed by route, each registered agent
  exactly once with its own route and the readiness of its own runtime.
\<close>
lemma registrations_listing:
  "sorted_wrt registration_le (rs_registrations (list_registrations name address routes))
   \<and> mset (rs_registrations (list_registrations name address routes)) =
       image_mset (\<lambda>e. registration_result name address (fst e) (snd e)) (mset routes)"
  by (simp add: list_registrations_def registrations.sorted_sort_by case_prod_unfold)

end
