(* ===== verification/Registry.thy ===== *)
theory Registry
  imports Text_Ops
begin

text \<open>
  \<open>src/src/registry.rs\<close>: the agent registry, its validation, look-up and search, the
  platform of the host and the download of the payload. The JSON decoder and the HTTP
  response are parameters.
\<close>

type_synonym CommandArgs = "string list"
type_synonym Environment = "(string \<times> string) list"

datatype Platform = DarwinAarch64 | DarwinX86_64 | LinuxAarch64 | LinuxX86_64

record BinaryTarget =
  bt_archive :: string
  bt_cmd :: string
  bt_sha256 :: "string option"
  bt_args :: "CommandArgs option"
  bt_env :: "Environment option"

record BinaryDistribution =
  darwin_aarch64 :: "BinaryTarget option"
  darwin_x86_64 :: "BinaryTarget option"
  linux_aarch64 :: "BinaryTarget option"
  linux_x86_64 :: "BinaryTarget option"

record PackageDistribution =
  pd_package :: string
  pd_args :: "CommandArgs option"
  pd_env :: "Environment option"

record AgentDistribution =
  ad_binary :: "BinaryDistribution option"
  ad_npx :: "PackageDistribution option"
  ad_uvx :: "PackageDistribution option"

definition has_distribution_source :: "AgentDistribution \<Rightarrow> bool" where
  "has_distribution_source d = (ad_binary d \<noteq> None \<or> ad_npx d \<noteq> None \<or> ad_uvx d \<noteq> None)"

definition for_platform :: "BinaryDistribution \<Rightarrow> Platform \<Rightarrow> BinaryTarget option" where
  "for_platform b platform =
     (case platform of
        DarwinAarch64 \<Rightarrow> darwin_aarch64 b
      | DarwinX86_64 \<Rightarrow> darwin_x86_64 b
      | LinuxAarch64 \<Rightarrow> linux_aarch64 b
      | LinuxX86_64 \<Rightarrow> linux_x86_64 b)"

record RegistryAgent =
  ra_id :: string
  ra_name :: string
  ra_version :: string
  ra_description :: string
  ra_repository :: "string option"
  ra_website :: "string option"
  ra_authors :: "string list"
  ra_license :: string
  ra_icon :: "string option"
  ra_distribution :: AgentDistribution

text \<open>\<open>'v\<close> is the type of JSON values.\<close>

record 'v Registry =
  rg_version :: string
  rg_agents :: "RegistryAgent list"
  rg_extensions :: "'v list option"

section \<open>The payload\<close>

definition REGISTRY_URL :: string where
  "REGISTRY_URL = ''https://cdn.agentclientprotocol.com/registry/v1/latest/registry.json''"

text \<open>\<open>var\<close> is the value of \<open>ACP_AGENT_REGISTRY_URL\<close>, absent when unset or not Unicode.\<close>

definition registry_url :: "string option \<Rightarrow> string" where
  "registry_url var =
     (case var of
        Some url \<Rightarrow> if trim url \<noteq> [] then url else REGISTRY_URL
      | None \<Rightarrow> REGISTRY_URL)"

definition registry_decode_error :: "string option \<Rightarrow> string \<Rightarrow> error" where
  "registry_decode_error var reason =
     [''failed to decode registry payload from '' @ registry_url var @ '': '' @ reason]"

definition distribution_validate :: "string option \<Rightarrow> string \<Rightarrow> AgentDistribution \<Rightarrow> unit result" where
  "distribution_validate var path d =
     (if has_distribution_source d then Inr ()
      else Inl (registry_decode_error var
             (path @ ''.distribution must contain at least one of binary, npx, or uvx'')))"

fun validate_from :: "string option \<Rightarrow> nat \<Rightarrow> RegistryAgent list \<Rightarrow> unit result" where
  "validate_from var index [] = Inr ()"
| "validate_from var index (agent # rest) =
     (let path = ''agents['' @ show_nat index @ '']''
      in and_then (distribution_validate var path (ra_distribution agent)) (\<lambda>_.
           validate_from var (Suc index) rest))"

definition registry_validate :: "string option \<Rightarrow> 'v Registry \<Rightarrow> unit result" where
  "registry_validate var r = validate_from var 0 (rg_agents r)"

text \<open>\<open>from_slice\<close>; \<open>decode\<close> is the JSON decoder with the text of its error.\<close>

definition from_slice ::
    "string option \<Rightarrow> (string \<Rightarrow> string + 'v Registry) \<Rightarrow> string \<Rightarrow> 'v Registry result" where
  "from_slice var decode input =
     and_then (map_err (registry_decode_error var) (decode input)) (\<lambda>registry.
     and_then (registry_validate var registry) (\<lambda>_. Inr registry))"

text \<open>\<open>from_value\<close> and \<open>from_str\<close> decode a JSON value and a text (\<open>'j\<close> is the type of JSON values).\<close>

definition from_value :: "string option \<Rightarrow> ('j \<Rightarrow> string + 'v Registry) \<Rightarrow> 'j \<Rightarrow> 'v Registry result" where
  "from_value var decode input =
     and_then (map_err (registry_decode_error var) (decode input)) (\<lambda>registry.
     and_then (registry_validate var registry) (\<lambda>_. Inr registry))"

definition from_str :: "string option \<Rightarrow> (string \<Rightarrow> string + 'v Registry) \<Rightarrow> string \<Rightarrow> 'v Registry result" where
  "from_str var decode input =
     and_then (map_err (registry_decode_error var) (decode input)) (\<lambda>registry.
     and_then (registry_validate var registry) (\<lambda>_. Inr registry))"

definition list_agents :: "'v Registry \<Rightarrow> RegistryAgent list" where
  "list_agents r = rg_agents r"

text \<open>
  \<open>fetch_registry\<close>. \<open>get\<close> sends the request; a response is a status and the body or the
  error of reading it. Client and server error statuses are errors.
\<close>

record http_response =
  rsp_status :: nat
  rsp_body :: "string + string"

definition error_for_status :: "(nat \<Rightarrow> string) \<Rightarrow> http_response \<Rightarrow> string + http_response" where
  "error_for_status describe r =
     (if 400 \<le> rsp_status r \<and> rsp_status r < 600 then Inl (describe (rsp_status r)) else Inr r)"

definition fetch_registry ::
    "string option \<Rightarrow> (string \<Rightarrow> string + http_response) \<Rightarrow> (nat \<Rightarrow> string)
     \<Rightarrow> (string \<Rightarrow> string + 'v Registry) \<Rightarrow> 'v Registry result" where
  "fetch_registry var get describe decode =
     (let failed = (\<lambda>e. [''failed to fetch registry payload: '' @ e])
      in and_then (map_err failed (get (registry_url var))) (\<lambda>response.
         and_then (map_err failed (error_for_status describe response)) (\<lambda>response.
         and_then (map_err failed (rsp_body response)) (\<lambda>bytes.
         from_slice var decode bytes))))"

section \<open>Look-up and search\<close>

definition find_agent :: "'v Registry \<Rightarrow> string \<Rightarrow> RegistryAgent option" where
  "find_agent r agent_id = List.find (\<lambda>a. ra_id a = agent_id) (rg_agents r)"

definition get_agent :: "'v Registry \<Rightarrow> string \<Rightarrow> RegistryAgent result" where
  "get_agent r agent_id =
     ok_or (find_agent r agent_id) [''agent with id '' @ quoted agent_id @ '' was not found'']"

definition search_agents :: "'v Registry \<Rightarrow> string \<Rightarrow> RegistryAgent list" where
  "search_agents r query =
     (let needle = to_ascii_lowercase (trim query)
      in if needle = [] then rg_agents r
         else filter (\<lambda>a. list_ex (\<lambda>v. contains (to_ascii_lowercase v) needle)
                            [ra_id a, ra_name a, ra_description a]) (rg_agents r))"

text \<open>\<open>Platform::current\<close> from the operating system and architecture of the build.\<close>

definition Platform_current :: "string \<Rightarrow> string \<Rightarrow> Platform result" where
  "Platform_current os arch =
     (if os = ''macos'' \<and> arch = ''aarch64'' then Inr DarwinAarch64
      else if os = ''macos'' \<and> arch = ''x86_64'' then Inr DarwinX86_64
      else if os = ''linux'' \<and> arch = ''aarch64'' then Inr LinuxAarch64
      else if os = ''linux'' \<and> arch = ''x86_64'' then Inr LinuxX86_64
      else Inl [''unsupported platform: '' @ os @ ''-'' @ arch])"

section \<open>What a decoded registry guarantees\<close>

lemma validate_from_Inr:
  "validate_from var n agents = Inr () \<longleftrightarrow>
     (\<forall>a \<in> set agents. has_distribution_source (ra_distribution a))"
  by (induction agents arbitrary: n) (auto simp: distribution_validate_def and_then_eq_Inr)

lemma validate_from_Inl:
  "validate_from var n agents = Inl e \<Longrightarrow>
     \<exists>i < length agents. \<not> has_distribution_source (ra_distribution (agents ! i))
       \<and> (\<forall>j < i. has_distribution_source (ra_distribution (agents ! j)))
       \<and> e = registry_decode_error var
             (''agents['' @ show_nat (n + i) @ '']'' @
              ''.distribution must contain at least one of binary, npx, or uvx'')"
proof (induction agents arbitrary: n)
  case (Cons a agents)
  show ?case
  proof (cases "has_distribution_source (ra_distribution a)")
    case True
    with Cons.prems have "validate_from var (Suc n) agents = Inl e"
      by (simp add: distribution_validate_def)
    from Cons.IH[OF this] obtain i where "i < length agents"
      "\<not> has_distribution_source (ra_distribution (agents ! i))"
      "\<forall>j < i. has_distribution_source (ra_distribution (agents ! j))"
      "e = registry_decode_error var
             (''agents['' @ show_nat (Suc n + i) @ '']'' @
              ''.distribution must contain at least one of binary, npx, or uvx'')" by blast
    with True show ?thesis by (intro exI[of _ "Suc i"]) (auto simp: less_Suc_eq_0_disj)
  next
    case False
    with Cons.prems show ?thesis
      by (intro exI[of _ 0]) (simp add: distribution_validate_def Let_def)
  qed
qed simp

text \<open>
  Decoding a payload succeeds exactly when the JSON decodes and every agent
  has a distribution source; otherwise the error names the decoder's complaint or the first
  agent without one.
\<close>
lemma from_slice_outcome:
  "case decode input of
     Inl reason \<Rightarrow> from_slice var decode input = Inl (registry_decode_error var reason)
   | Inr r \<Rightarrow>
       (if list_all (\<lambda>a. has_distribution_source (ra_distribution a)) (rg_agents r)
        then from_slice var decode input = Inr r
        else \<exists>i < length (rg_agents r).
          (\<not> has_distribution_source (ra_distribution (rg_agents r ! i)))
          \<and> list_all (\<lambda>a. has_distribution_source (ra_distribution a)) (take i (rg_agents r))
          \<and> from_slice var decode input = Inl (registry_decode_error var
              (''agents['' @ show_nat i @ '']'' @
               ''.distribution must contain at least one of binary, npx, or uvx'')))"
proof (cases "decode input")
  case (Inl reason)
  then show ?thesis by (simp add: from_slice_def)
next
  case (Inr r)
  show ?thesis
  proof (cases "validate_from var 0 (rg_agents r)")
    case (Inl e)
    then have bad: "\<not> list_all (\<lambda>a. has_distribution_source (ra_distribution a)) (rg_agents r)"
      using validate_from_Inr[of var 0 "rg_agents r"] by (auto simp: list_all_iff)
    have eq: "from_slice var decode input = Inl e"
      using Inr Inl by (simp add: from_slice_def registry_validate_def)
    show ?thesis
      using validate_from_Inl[OF Inl] bad eq
      by (auto simp: Inr list_all_length)
  next
    case (Inr u)
    then show ?thesis
      using \<open>decode input = Inr r\<close> validate_from_Inr[of var 0 "rg_agents r"]
      by (simp add: from_slice_def registry_validate_def list_all_iff)
  qed
qed

text \<open>Whichever way a registry was decoded, it lists only agents that can be installed or run.\<close>

lemma registry_accepted:
  "registry_validate var r = Inr u \<Longrightarrow> \<forall>a \<in> set (list_agents r). has_distribution_source (ra_distribution a)"
  by (simp add: registry_validate_def validate_from_Inr list_agents_def)

lemma listed_agents_have_a_source:
  assumes "from_slice var decode bytes = Inr r \<or> from_str var decode text_in = Inr r \<or> from_value var decode_value value_in = Inr r"
  shows "\<forall>a \<in> set (list_agents r). has_distribution_source (ra_distribution a)"
  using assms registry_accepted[of var r]
  by (auto simp: from_slice_def from_str_def from_value_def and_then_eq_Inr)

text \<open>
  An agent found in a fetched registry is listed under the requested id, is the
  first such entry and has a distribution source.
\<close>
lemma fetched_agent_is_usable:
  assumes "fetch_registry var get describe decode = Inr r" "get_agent r agent_id = Inr a"
  shows "ra_id a = agent_id \<and> has_distribution_source (ra_distribution a)
    \<and> (\<exists>before after. rg_agents r = before @ a # after \<and> agent_id \<notin> ra_id ` set before)"
proof -
  from assms(1) obtain bytes where "from_slice var decode bytes = Inr r"
    by (auto simp: fetch_registry_def Let_def and_then_eq_Inr)
  then have ok: "\<forall>x \<in> set (rg_agents r). has_distribution_source (ra_distribution x)"
    using listed_agents_have_a_source[of var decode bytes r] by (simp add: list_agents_def)
  from assms(2) have f: "List.find (\<lambda>a. ra_id a = agent_id) (rg_agents r) = Some a"
    by (simp add: get_agent_def find_agent_def)
  then obtain i where i: "i < length (rg_agents r)" "ra_id (rg_agents r ! i) = agent_id"
    "a = rg_agents r ! i" "\<forall>j < i. ra_id (rg_agents r ! j) \<noteq> agent_id"
    by (auto simp: find_Some_iff)
  have "agent_id \<notin> ra_id ` set (take i (rg_agents r))"
    using i(4) by (auto simp: in_set_conv_nth) metis
  moreover have "rg_agents r = take i (rg_agents r) @ a # drop (Suc i) (rg_agents r)"
    using i by (simp add: id_take_nth_drop)
  ultimately show ?thesis using i ok by (metis nth_mem)
qed

definition sample_agent :: RegistryAgent where
  "sample_agent =
     \<lparr>ra_id = ''claude'', ra_name = ''Claude Code'', ra_version = ''1.0.0'', ra_description = ''demo'',
      ra_repository = None, ra_website = None, ra_authors = [], ra_license = ''MIT'', ra_icon = None,
      ra_distribution = \<lparr>ad_binary = None,
        ad_npx = Some \<lparr>pd_package = ''claude-acp@1.0.0'', pd_args = None, pd_env = None\<rparr>,
        ad_uvx = None\<rparr>\<rparr>"

definition sample_registry :: "unit Registry" where
  "sample_registry = \<lparr>rg_version = ''1'', rg_agents = [sample_agent], rg_extensions = None\<rparr>"

theorem fetched_agent_is_usable_witness:
  "get_agent sample_registry ''claude'' = Inr sample_agent
   \<and> has_distribution_source (ra_distribution sample_agent)"
proof
  have f: "fetch_registry None (\<lambda>url. Inr \<lparr>rsp_status = 200, rsp_body = Inr ''{}''\<rparr>) (\<lambda>_. ''error'')
      (\<lambda>_. Inr sample_registry) = Inr sample_registry"
    by (simp add: fetch_registry_def error_for_status_def from_slice_def registry_validate_def
        sample_registry_def sample_agent_def distribution_validate_def has_distribution_source_def)
  show g: "get_agent sample_registry ''claude'' = Inr sample_agent"
    by (simp add: get_agent_def find_agent_def sample_registry_def sample_agent_def)
  show "has_distribution_source (ra_distribution sample_agent)"
    using fetched_agent_is_usable[OF f g] by simp
qed

definition agent_mentions :: "string \<Rightarrow> RegistryAgent \<Rightarrow> bool" where
  "agent_mentions needle a =
     (contains (to_ascii_lowercase (ra_id a)) needle
      \<or> contains (to_ascii_lowercase (ra_name a)) needle
      \<or> contains (to_ascii_lowercase (ra_description a)) needle)"

lemma contains_Nil [simp]: "contains s []"
  by (simp add: contains_def)

lemma contains_trans: "contains a b \<Longrightarrow> contains b c \<Longrightarrow> contains a c"
  unfolding contains_def by (rule sublist_order.order_trans)

lemma search_agents_filter:
  "search_agents r query = filter (agent_mentions (to_ascii_lowercase (trim query))) (rg_agents r)"
  by (simp add: search_agents_def agent_mentions_def[abs_def] Let_def filter_id_conv)

lemma agent_mentions_mono: "contains m n \<Longrightarrow> agent_mentions m a \<Longrightarrow> agent_mentions n a"
  unfolding agent_mentions_def by (blast intro: contains_trans)

lemma subseq_filter_mono: "(\<And>x. P x \<Longrightarrow> Q x) \<Longrightarrow> subseq (filter P xs) (filter Q xs)"
  by (induction xs) auto

text \<open>
  Search answers in registry order; a query that contains another, up to case and
  surrounding white space, can only narrow the answer, and an empty query lists everything.
\<close>
lemma search_agents_narrows:
  assumes "contains (to_ascii_lowercase (trim longer)) (to_ascii_lowercase (trim query))"
  shows "subseq (search_agents r longer) (search_agents r query)
    \<and> subseq (search_agents r query) (rg_agents r)
    \<and> search_agents r [] = rg_agents r
    \<and> (\<forall>a. a \<in> set (search_agents r query) \<longleftrightarrow>
         a \<in> set (rg_agents r) \<and> agent_mentions (to_ascii_lowercase (trim query)) a)"
  using agent_mentions_mono[OF assms]
  by (auto simp: search_agents_filter to_ascii_lowercase_def agent_mentions_def filter_id_conv
      intro!: subseq_filter_mono)

theorem search_agents_narrows_witness:
  "subseq (search_agents sample_registry ''Claude'') (search_agents sample_registry ''laud'')
   \<and> search_agents sample_registry ''laud'' = [sample_agent]"
proof
  have t: "trim ''Claude'' = ''Claude''" "trim ''laud'' = ''laud''" by code_simp+
  have "contains (to_ascii_lowercase (trim ''Claude'')) (to_ascii_lowercase (trim ''laud''))"
    unfolding t contains_def by code_simp
  from search_agents_narrows[OF this]
  show "subseq (search_agents sample_registry ''Claude'') (search_agents sample_registry ''laud'')"
    by blast
  show "search_agents sample_registry ''laud'' = [sample_agent]" by code_simp
qed

end
