(* ===== verification/Toolchain.thy ===== *)
theory Toolchain
  imports Text_Ops
begin

text \<open>
  \<open>src/src/installer/environment.rs\<close> and the child-process helpers of
  \<open>src/src/process.rs\<close>: detection of the package runners, the plan that installs the missing
  toolchains, and its execution. The search of \<open>which\<close>, child processes and the home
  directory belong to a host that is a parameter; a run acts on the host's state.
\<close>

datatype ExitStatus = Exited nat | Signalled nat | UnknownStatus

definition status_success :: "ExitStatus \<Rightarrow> bool" where
  "status_success s = (s = Exited 0)"

record Output =
  out_status :: ExitStatus
  out_stdout :: string
  out_stderr :: string

text \<open>
  \<open>th_spawn\<close> spawns a program with its arguments and waits for it with captured output; its
  error is the text of an I/O error. \<open>th_which\<close> searches a program in directories.
\<close>

record 'w tool_host =
  th_path_var :: "string option"
  th_home_dir :: "string option"
  th_which :: "'w \<Rightarrow> string \<Rightarrow> string list \<Rightarrow> string option"
  th_spawn :: "string \<Rightarrow> string list \<Rightarrow> 'w \<Rightarrow> (string + Output) \<times> 'w"
  th_lossy :: "string \<Rightarrow> string"

definition process_output :: "'w tool_host \<Rightarrow> string \<Rightarrow> string list \<Rightarrow> ('w, Output) io" where
  "process_output host program args w =
     (case th_spawn host program args w of
        (Inl e, w') \<Rightarrow> (Inl [e], w')
      | (Inr out, w') \<Rightarrow> (Inr out, w'))"

definition process_status :: "'w tool_host \<Rightarrow> string \<Rightarrow> string list \<Rightarrow> ('w, ExitStatus) io" where
  "process_status host program args w =
     (case th_spawn host program args w of
        (Inl e, w') \<Rightarrow> (Inl [e], w')
      | (Inr out, w') \<Rightarrow> (Inr (out_status out), w'))"

section \<open>Detection\<close>

definition JS_TOOLS :: "string list" where "JS_TOOLS = [''npm'', ''deno'']"
definition PYTHON_TOOLS :: "string list" where "PYTHON_TOOLS = [''uv'']"

record ToolAvailability =
  ta_name :: string
  ta_path :: "string option"

definition is_available :: "ToolAvailability \<Rightarrow> bool" where
  "is_available t = (ta_path t \<noteq> None)"

record EnvironmentReport =
  er_js :: "ToolAvailability list"
  er_python :: "ToolAvailability list"

definition resolve_program_with_directories ::
    "'w tool_host \<Rightarrow> 'w \<Rightarrow> string \<Rightarrow> string list \<Rightarrow> string option result" where
  "resolve_program_with_directories host w program preferred =
     (let directories = preferred @ (case th_path_var host of None \<Rightarrow> []
                                     | Some value \<Rightarrow> split_char CHR '':'' value)
      in if directories = [] then Inr None
         else if list_ex (\<lambda>d. CHR '':'' \<in> set d) directories
           then Inl [''failed to join tool search directories'',
                     ''path segment contains separator `:`'']
         else Inr (th_which host w program directories))"

definition resolve_program :: "'w tool_host \<Rightarrow> 'w \<Rightarrow> string \<Rightarrow> string option result" where
  "resolve_program host w program = resolve_program_with_directories host w program []"

definition program_available :: "'w tool_host \<Rightarrow> 'w \<Rightarrow> string \<Rightarrow> bool result" where
  "program_available host w program = map_ok (\<lambda>p. p \<noteq> None) (resolve_program host w program)"

fun detect_tools :: "'w tool_host \<Rightarrow> 'w \<Rightarrow> string list \<Rightarrow> ToolAvailability list result" where
  "detect_tools host w [] = Inr []"
| "detect_tools host w (name # names) =
     and_then (resolve_program host w name) (\<lambda>p.
     and_then (detect_tools host w names) (\<lambda>rest. Inr (\<lparr>ta_name = name, ta_path = p\<rparr> # rest)))"

definition detect_environment :: "'w tool_host \<Rightarrow> 'w \<Rightarrow> EnvironmentReport result" where
  "detect_environment host w =
     and_then (detect_tools host w JS_TOOLS) (\<lambda>js.
     and_then (detect_tools host w PYTHON_TOOLS) (\<lambda>python.
     Inr \<lparr>er_js = js, er_python = python\<rparr>))"

section \<open>Installation\<close>

datatype InstallTarget = Deno | Uv

definition target_label :: "InstallTarget \<Rightarrow> string" where
  "target_label t = (case t of Deno \<Rightarrow> ''deno'' | Uv \<Rightarrow> ''uv'')"

definition target_program :: "InstallTarget \<Rightarrow> string" where
  "target_program t = target_label t"

definition plan_installation :: "EnvironmentReport \<Rightarrow> InstallTarget list" where
  "plan_installation report =
     (if list_all (\<lambda>t. \<not> is_available t) (er_js report) then [Deno] else [])
     @ (if list_all (\<lambda>t. \<not> is_available t) (er_python report) then [Uv] else [])"

record InstallerCommand =
  ic_program :: string
  ic_args :: "string list"

definition installer_command :: "InstallTarget \<Rightarrow> InstallerCommand" where
  "installer_command t =
     (case t of
        Deno \<Rightarrow> \<lparr>ic_program = ''sh'', ic_args = [''-c'', ''curl -fsSL https://deno.land/install.sh | sh'']\<rparr>
      | Uv \<Rightarrow> \<lparr>ic_program = ''sh'', ic_args = [''-c'', ''curl -LsSf https://astral.sh/uv/install.sh | sh'']\<rparr>)"

definition installer_display :: "InstallerCommand \<Rightarrow> string" where
  "installer_display c =
     fold (\<lambda>arg rendered. rendered @ '' '' @ arg) (butlast (ic_args c)) (ic_program c)
     @ '' '' @ quoted (last (ic_args c))"

definition official_command_display :: "InstallTarget \<Rightarrow> string" where
  "official_command_display t = installer_display (installer_command t)"

definition known_bin_directories :: "InstallTarget \<Rightarrow> string \<Rightarrow> string list" where
  "known_bin_directories t home =
     (case t of
        Deno \<Rightarrow> [path_join (path_join home ''.deno'') ''bin'']
      | Uv \<Rightarrow> [path_join (path_join home ''.local'') ''bin''])"

record InstalledTool =
  it_target :: InstallTarget
  it_path :: string
  it_on_path :: bool

definition display_status :: "ExitStatus \<Rightarrow> string" where
  "display_status s =
     (case s of
        Exited c \<Rightarrow> show_nat c
      | Signalled n \<Rightarrow> ''signal '' @ show_nat n
      | UnknownStatus \<Rightarrow> ''unknown'')"

definition render_output :: "'w tool_host \<Rightarrow> string \<Rightarrow> string \<Rightarrow> string" where
  "render_output host stdout stderr =
     (let out = trim (th_lossy host stdout); err = trim (th_lossy host stderr)
      in if out = [] \<and> err = [] then ''installer exited without any output''
         else if err = [] then out
         else if out = [] then err
         else out @ nl @ err)"

definition ensure_installer_prerequisites ::
    "'w tool_host \<Rightarrow> 'w \<Rightarrow> InstallTarget \<Rightarrow> unit result" where
  "ensure_installer_prerequisites host w t =
     and_then (resolve_program host w ''curl'') (\<lambda>p.
       if p = None
       then Inl [''Cannot install '' @ target_label t @
                 '' because curl is not available in the current environment'']
       else Inr ())"

definition run_installer :: "'w tool_host \<Rightarrow> InstallTarget \<Rightarrow> ('w, unit) io" where
  "run_installer host t w =
     (case ensure_installer_prerequisites host w t of
        Inl e \<Rightarrow> (Inl e, w)
      | Inr _ \<Rightarrow>
          io_then
            (io_context (''failed to run installer for '' @ target_label t)
               (process_output host (ic_program (installer_command t)) (ic_args (installer_command t))))
            (\<lambda>out. if status_success (out_status out) then io_return ()
                   else io_result (bail (''installer for '' @ target_label t @ '' failed with status ''
                          @ display_status (out_status out) @ '': ''
                          @ render_output host (out_stdout out) (out_stderr out)))) w)"

definition verify_program_version :: "'w tool_host \<Rightarrow> string \<Rightarrow> string \<Rightarrow> ('w, unit) io" where
  "verify_program_version host path subject =
     io_then
       (io_context (''failed to run installer for '' @ subject) (process_output host path [''--version'']))
       (\<lambda>out. if status_success (out_status out) then io_return ()
              else io_result (bail (''verification failed for '' @ subject @ '': ''
                     @ render_output host (out_stdout out) (out_stderr out))))"

definition verify_location ::
    "'w tool_host \<Rightarrow> 'w \<Rightarrow> InstallTarget \<Rightarrow> (string \<times> bool) result" where
  "verify_location host w t =
     and_then (ok_or (th_home_dir host) [''unable to determine the home directory'']) (\<lambda>home.
     and_then (resolve_program host w (target_program t)) (\<lambda>on_path.
       case on_path of
         Some path \<Rightarrow> Inr (path, True)
       | None \<Rightarrow>
           and_then
             (resolve_program_with_directories host w (target_program t) (known_bin_directories t home))
             (\<lambda>found. map_ok (\<lambda>p. (p, False))
                (ok_or found [''verification failed for '' @ target_label t @ '': ''
                   @ target_program t @ '' was not found after installation'']))))"

definition verify_installation :: "'w tool_host \<Rightarrow> InstallTarget \<Rightarrow> ('w, InstalledTool) io" where
  "verify_installation host t w =
     (case verify_location host w t of
        Inl e \<Rightarrow> (Inl e, w)
      | Inr (path, on_path) \<Rightarrow>
          io_then (verify_program_version host path (target_label t))
            (\<lambda>_. io_return \<lparr>it_target = t, it_path = path, it_on_path = on_path\<rparr>) w)"

definition install_and_verify :: "'w tool_host \<Rightarrow> InstallTarget \<Rightarrow> ('w, InstalledTool) io" where
  "install_and_verify host t = io_then (run_installer host t) (\<lambda>_. verify_installation host t)"

text \<open>\<open>install_plan_with\<close>: one target after the other, stopping at the first error.\<close>

definition install_plan :: "'w tool_host \<Rightarrow> InstallTarget list \<Rightarrow> ('w, InstalledTool list) io" where
  "install_plan host targets = io_collect (install_and_verify host) targets"

section \<open>Properties\<close>

lemma io_collect_Inr:
  "io_collect f xs w = (Inr ys, w') \<Longrightarrow> length ys = length xs"
  by (induction xs arbitrary: ys w w') (auto simp: io_then_eq_Inr)

lemma io_collect_map:
  assumes "\<And>x y w w'. f x w = (Inr y, w') \<Longrightarrow> g y = x"
  shows "io_collect f xs w = (Inr ys, w') \<Longrightarrow> map g ys = xs"
  by (induction xs arbitrary: ys w w') (auto simp: io_then_eq_Inr dest: assms)

lemma io_collect_Inl:
  "io_collect f xs w = (Inl e, w') \<Longrightarrow>
     \<exists>before x after ys w1. xs = before @ x # after
       \<and> io_collect f before w = (Inr ys, w1) \<and> f x w1 = (Inl e, w')"
proof (induction xs arbitrary: w)
  case (Cons x xs)
  obtain r w1 where fx: "f x w = (r, w1)" by fastforce
  show ?case
  proof (cases r)
    case (Inl e')
    with Cons.prems fx show ?thesis by (intro exI[of _ "[]"]) (auto simp: io_then_def)
  next
    case (Inr y)
    obtain r' w2 where rest: "io_collect f xs w1 = (r', w2)" by fastforce
    with Cons.prems fx Inr have "r' = Inl e" "w2 = w'"
      by (cases r'; simp add: io_then_def)+
    with rest Cons.IH obtain before z after ys w3 where
      "xs = before @ z # after" "io_collect f before w1 = (Inr ys, w3)" "f z w3 = (Inl e, w')"
      by metis
    with fx Inr show ?thesis
      by (intro exI[of _ "x # before"]) (auto simp: io_then_def)
  qed
qed simp

lemma verify_installation_Inr:
  "verify_installation host t w = (Inr tool, w') \<longleftrightarrow>
     it_target tool = t \<and> verify_location host w t = Inr (it_path tool, it_on_path tool)
     \<and> verify_program_version host (it_path tool) (target_label t) w = (Inr (), w')"
  by (cases "verify_location host w t"; cases tool)
    (auto simp: verify_installation_def io_then_eq_Inr split: prod.split_asm)

lemma install_and_verify_Inr:
  "install_and_verify host t w = (Inr tool, w') \<Longrightarrow>
     it_target tool = t \<and>
     (\<exists>w1. run_installer host t w = (Inr (), w1)
        \<and> verify_location host w1 t = Inr (it_path tool, it_on_path tool)
        \<and> verify_program_version host (it_path tool) (target_label t) w1 = (Inr (), w'))"
  by (auto simp: install_and_verify_def io_then_eq_Inr verify_installation_Inr)

text \<open>
  A plan runs its installers in order and stops at the first that fails: on
  success every target has its verified tool; on failure the installers before the failing
  one succeeded and none after it ran.
\<close>
lemma install_plan_stops_at_first_failure:
  "case install_plan host targets w of
     (Inr tools, w') \<Rightarrow> map it_target tools = targets
   | (Inl e, w') \<Rightarrow> \<exists>before t after tools w1. targets = before @ t # after
       \<and> install_plan host before w = (Inr tools, w1)
       \<and> install_and_verify host t w1 = (Inl e, w')"
proof -
  obtain r w' where run: "install_plan host targets w = (r, w')" by fastforce
  show ?thesis
  proof (cases r)
    case (Inl e)
    with run show ?thesis using io_collect_Inl by (fastforce simp: install_plan_def)
  next
    case (Inr tools)
    with run show ?thesis
      using io_collect_map[of "install_and_verify host" it_target targets w tools w']
      by (auto simp: install_plan_def dest: install_and_verify_Inr)
  qed
qed

lemma plan_covers_missing:
  assumes "detect_environment host w = Inr report"
  shows "Deno \<in> set (plan_installation report) \<longleftrightarrow>
      resolve_program host w ''npm'' = Inr None \<and> resolve_program host w ''deno'' = Inr None"
    and "Uv \<in> set (plan_installation report) \<longleftrightarrow> resolve_program host w ''uv'' = Inr None"
    and "distinct (plan_installation report)"
    and "\<forall>t path. verify_location host w t = Inr (path, True) \<longrightarrow> t \<notin> set (plan_installation report)"
proof -
  from assms obtain js python where d: "detect_tools host w JS_TOOLS = Inr js"
    "detect_tools host w PYTHON_TOOLS = Inr python" "report = \<lparr>er_js = js, er_python = python\<rparr>"
    by (auto simp: detect_environment_def and_then_eq_Inr)
  from d(1) obtain n m where js: "js = [\<lparr>ta_name = ''npm'', ta_path = n\<rparr>, \<lparr>ta_name = ''deno'', ta_path = m\<rparr>]"
    "resolve_program host w ''npm'' = Inr n" "resolve_program host w ''deno'' = Inr m"
    by (auto simp: JS_TOOLS_def and_then_eq_Inr)
  from d(2) obtain u where python: "python = [\<lparr>ta_name = ''uv'', ta_path = u\<rparr>]"
    "resolve_program host w ''uv'' = Inr u"
    by (auto simp: PYTHON_TOOLS_def and_then_eq_Inr)
  show deno: "Deno \<in> set (plan_installation report) \<longleftrightarrow>
      resolve_program host w ''npm'' = Inr None \<and> resolve_program host w ''deno'' = Inr None"
    using d(3) js python by (auto simp: plan_installation_def is_available_def)
  show uv: "Uv \<in> set (plan_installation report) \<longleftrightarrow> resolve_program host w ''uv'' = Inr None"
    using d(3) js python by (auto simp: plan_installation_def is_available_def)
  show "distinct (plan_installation report)"
    by (simp add: plan_installation_def)
  show "\<forall>t path. verify_location host w t = Inr (path, True) \<longrightarrow> t \<notin> set (plan_installation report)"
  proof (intro allI impI)
    fix t path
    assume v: "verify_location host w t = Inr (path, True)"
    then have "\<exists>p. resolve_program host w (target_program t) = Inr (Some p)"
      by (auto simp: verify_location_def and_then_eq_Inr map_ok_eq_Inr split: option.splits)
    then show "t \<notin> set (plan_installation report)"
      using deno uv by (cases t) (auto simp: target_program_def target_label_def)
  qed
qed

text \<open>
  A toolchain is planned exactly when none of its runners is on the path; and a
  tool that verification reports as being on the path makes its toolchain disappear from the
  plan made in the state after the installation.
\<close>
lemma plan_covers_missing_toolchains:
  assumes "detect_environment host w = Inr report"
  shows "(Deno \<in> set (plan_installation report) \<longleftrightarrow>
        resolve_program host w ''npm'' = Inr None \<and> resolve_program host w ''deno'' = Inr None)
    \<and> (Uv \<in> set (plan_installation report) \<longleftrightarrow> resolve_program host w ''uv'' = Inr None)
    \<and> distinct (plan_installation report)
    \<and> (\<forall>t path. verify_location host w t = Inr (path, True) \<longrightarrow> t \<notin> set (plan_installation report))"
  using plan_covers_missing[OF assms] by blast

definition sample_tools :: "unit tool_host" where
  "sample_tools =
     \<lparr>th_path_var = Some ''/usr/bin:/bin'', th_home_dir = Some ''/root'',
      th_which = (\<lambda>_ program dirs. if program = ''npm'' then Some ''/usr/bin/npm'' else None),
      th_spawn = (\<lambda>_ _ w. (Inr \<lparr>out_status = Exited 0, out_stdout = [], out_stderr = []\<rparr>, w)),
      th_lossy = id\<rparr>"

lemma sample_detection:
  "\<exists>report. detect_environment sample_tools () = Inr report \<and> plan_installation report = [Uv]"
  by (simp add: detect_environment_def JS_TOOLS_def PYTHON_TOOLS_def resolve_program_def
      resolve_program_with_directories_def sample_tools_def plan_installation_def is_available_def)

theorem plan_covers_missing_toolchains_witness:
  "\<exists>report. detect_environment sample_tools () = Inr report \<and> Uv \<in> set (plan_installation report)
     \<and> resolve_program sample_tools () ''uv'' = Inr None"
proof -
  obtain report where r: "detect_environment sample_tools () = Inr report"
    "plan_installation report = [Uv]" using sample_detection by blast
  then show ?thesis using plan_covers_missing_toolchains[OF r(1)] by auto
qed

end
