(* ===== verification/Binary_Types.thy ===== *)
theory Binary_Types
  imports Text_Ops
begin

text \<open>
  \<open>src/src/installer/binary/mod.rs\<close>: the limits of downloads, extraction and the install
  log, and the description of a cached binary. \<open>'l\<close> is the type of cache-use leases; two
  cached binaries are compared without them.
\<close>

definition INSTALL_LOG_FILE_NAME :: string where
  "INSTALL_LOG_FILE_NAME = ''agent-install.log''"

definition INSTALL_LOG_MAX_BYTES :: u64 where
  "INSTALL_LOG_MAX_BYTES = 1024 * 1024"

definition INSTALL_LOG_TAIL_BYTES :: u64 where
  "INSTALL_LOG_TAIL_BYTES = 256 * 1024"

text \<open>Durations in seconds.\<close>

record ArchiveLimits =
  max_download_bytes :: u64
  max_expanded_bytes :: u64
  max_entries :: u64
  max_files :: u64
  connect_timeout :: u64
  read_timeout :: u64
  total_timeout :: u64

definition ArchiveLimits_default :: ArchiveLimits where
  "ArchiveLimits_default =
     \<lparr>max_download_bytes = 256 * 1024 * 1024, max_expanded_bytes = 512 * 1024 * 1024,
      max_entries = 10000, max_files = 5000,
      connect_timeout = 10, read_timeout = 30, total_timeout = 10 * 60\<rparr>"

record 'l CachedBinary =
  cb_executable_path :: path
  cb_extracted_dir :: path
  cb_cache_dir :: path
  cb_cache_use_lease :: "'l option"

definition CachedBinary_eq :: "'l CachedBinary \<Rightarrow> 'l CachedBinary \<Rightarrow> bool" where
  "CachedBinary_eq a b =
     (cb_executable_path a = cb_executable_path b \<and> cb_extracted_dir a = cb_extracted_dir b
      \<and> cb_cache_dir a = cb_cache_dir b)"

end
