(* ===== verification/Runner.thy ===== *)
theory Runner
  imports Registry Toolchain Binary_Types
begin

text \<open>
  \<open>src/src/runner.rs\<close>: the choice of a distribution for this host, the command that runs
  it, and the configurations that \<open>run\<close> and \<open>serve\<close> use. The host (operating system,
  architecture, available programs), the registry and the binary cache are arguments.
\<close>

datatype PackageRunner = Npm | DenoRunner | Uvx

definition runner_program :: "PackageRunner \<Rightarrow> string" where
  "runner_program r = (case r of Npm \<Rightarrow> ''npm'' | DenoRunner \<Rightarrow> ''deno'' | Uvx \<Rightarrow> ''uvx'')"

definition install_name :: "PackageRunner \<Rightarrow> string" where
  "install_name r = (case r of Npm \<Rightarrow> ''npm'' | DenoRunner \<Rightarrow> ''deno'' | Uvx \<Rightarrow> ''uv'')"

text \<open>\<open>available\<close> is \<open>program_available\<close> on this host.\<close>

definition npm_package_runner :: "(string \<Rightarrow> bool result) \<Rightarrow> PackageRunner result" where
  "npm_package_runner available =
     and_then (available ''npm'') (\<lambda>b. Inr (if b then Npm else DenoRunner))"

datatype ResolvedDistribution =
    RBinary Platform BinaryTarget
  | RNpm PackageDistribution PackageRunner
  | RUvx PackageDistribution

definition resolve_distribution ::
    "Platform result \<Rightarrow> (string \<Rightarrow> bool result) \<Rightarrow> RegistryAgent \<Rightarrow> ResolvedDistribution option result"
where
  "resolve_distribution current available agent =
     and_then current (\<lambda>platform.
       case Option.bind (ad_binary (ra_distribution agent)) (\<lambda>b. for_platform b platform) of
         Some target \<Rightarrow> Inr (Some (RBinary platform target))
       | None \<Rightarrow>
           (case ad_npx (ra_distribution agent) of
              Some d \<Rightarrow> map_ok (\<lambda>r. Some (RNpm d r)) (npm_package_runner available)
            | None \<Rightarrow> Inr (map_option RUvx (ad_uvx (ra_distribution agent)))))"

section \<open>Commands\<close>

record 'l CommandSpec =
  cs_program :: string
  cs_args :: "string list"
  cs_env :: Environment
  cs_current_dir :: "string option"
  cs_cache_use_lease :: "'l option"

text \<open>The library's \<open>AcpAgentConfig\<close> is built from a program, its arguments and variables.\<close>

record AcpAgentConfig =
  ac_program :: string
  ac_args :: "string list"
  ac_envs :: Environment

record 'l ResolvedAgentConfig =
  rc_config :: AcpAgentConfig
  rc_cache_use_lease :: "'l option"

definition into_resolved_config :: "'l CommandSpec \<Rightarrow> 'l ResolvedAgentConfig" where
  "into_resolved_config spec =
     \<lparr>rc_config = \<lparr>ac_program = cs_program spec, ac_args = cs_args spec, ac_envs = cs_env spec\<rparr>,
      rc_cache_use_lease = cs_cache_use_lease spec\<rparr>"

text \<open>The process that \<open>CommandSpec::command\<close> describes, with inherited streams.\<close>

record Command =
  cmd_program :: string
  cmd_args :: "string list"
  cmd_env :: Environment
  cmd_dir :: "string option"

definition spec_command :: "'l CommandSpec \<Rightarrow> Command" where
  "spec_command spec =
     \<lparr>cmd_program = cs_program spec, cmd_args = cs_args spec, cmd_env = cs_env spec,
      cmd_dir = cs_current_dir spec\<rparr>"

definition package_command_spec ::
    "string \<Rightarrow> string list \<Rightarrow> string \<Rightarrow> string list option \<Rightarrow> Environment option \<Rightarrow> string list
     \<Rightarrow> 'l CommandSpec" where
  "package_command_spec program runner_args package default_args env user_args =
     \<lparr>cs_program = program,
      cs_args = runner_args @ [package] @ (case default_args of None \<Rightarrow> [] | Some d \<Rightarrow> d) @ user_args,
      cs_env = (case env of None \<Rightarrow> [] | Some e \<Rightarrow> e),
      cs_current_dir = None, cs_cache_use_lease = None\<rparr>"

text \<open>\<open>None\<close> is the \<open>unreachable!\<close> of the \<open>uvx\<close> runner.\<close>

definition npm_command_spec ::
    "PackageRunner \<Rightarrow> string \<Rightarrow> string list option \<Rightarrow> Environment option \<Rightarrow> string list
     \<Rightarrow> 'l CommandSpec option" where
  "npm_command_spec runner package default_args env user_args =
     (case runner of
        Npm \<Rightarrow> Some (package_command_spec ''npm'' [''exec'', ''--''] package default_args env user_args)
      | DenoRunner \<Rightarrow>
          Some (package_command_spec ''deno''
            [''x'', ''--allow-all'', ''--minimum-dependency-age'', ''0'']
            package default_args env user_args)
      | Uvx \<Rightarrow> None)"

definition binary_command_spec ::
    "'l CachedBinary \<Rightarrow> BinaryTarget \<Rightarrow> string list \<Rightarrow> 'l CommandSpec" where
  "binary_command_spec cached target user_args =
     \<lparr>cs_program = path_display (cb_executable_path cached),
      cs_args = (case bt_args target of None \<Rightarrow> [] | Some d \<Rightarrow> d) @ user_args,
      cs_env = (case bt_env target of None \<Rightarrow> [] | Some e \<Rightarrow> e),
      cs_current_dir = Some (path_display (cb_extracted_dir cached)),
      cs_cache_use_lease = cb_cache_use_lease cached\<rparr>"

text \<open>
  \<open>resolve_agent_command\<close> acts on the cache of world \<open>'w\<close> through
  \<open>cache_binary_target\<close>; \<open>None\<close> is the panic of \<open>npm_command_spec\<close>.
\<close>

record ('w, 'l) run_host =
  rn_platform :: "Platform result"
  rn_available :: "'w \<Rightarrow> string \<Rightarrow> bool result"
  rn_cache_binary_target :: "RegistryAgent \<Rightarrow> Platform \<Rightarrow> BinaryTarget \<Rightarrow> ('w, 'l CachedBinary) io"

definition resolve_agent_command ::
    "('w, 'l) run_host \<Rightarrow> RegistryAgent \<Rightarrow> string list \<Rightarrow> 'w \<Rightarrow> ('l CommandSpec result \<times> 'w) option"
where
  "resolve_agent_command host agent user_args w =
     (case resolve_distribution (rn_platform host) (rn_available host w) agent of
        Inl e \<Rightarrow> Some (Inl e, w)
      | Inr None \<Rightarrow>
          Some (Inl [''agent '' @ quoted (ra_id agent) @ '' does not have a runnable distribution''], w)
      | Inr (Some (RBinary platform target)) \<Rightarrow>
          (case rn_cache_binary_target host agent platform target w of
             (Inl e, w') \<Rightarrow> Some (Inl e, w')
           | (Inr cached, w') \<Rightarrow> Some (Inr (binary_command_spec cached target user_args), w'))
      | Inr (Some (RNpm d runner)) \<Rightarrow>
          (case npm_command_spec runner (pd_package d) (pd_args d) (pd_env d) user_args of
             None \<Rightarrow> None
           | Some spec \<Rightarrow> Some (Inr spec, w))
      | Inr (Some (RUvx d)) \<Rightarrow>
          Some (Inr (package_command_spec ''uvx'' [] (pd_package d) (pd_args d) (pd_env d) user_args), w))"

definition resolve_agent_config_from_registry_agent ::
    "('w, 'l) run_host \<Rightarrow> RegistryAgent \<Rightarrow> string list \<Rightarrow> 'w
     \<Rightarrow> ('l ResolvedAgentConfig result \<times> 'w) option" where
  "resolve_agent_config_from_registry_agent host agent user_args w =
     map_option (map_prod (map_ok into_resolved_config) id)
       (resolve_agent_command host agent user_args w)"

text \<open>\<open>registry\<close> is what \<open>fetch_registry\<close> returned.\<close>

definition select_agent :: "'v Registry result \<Rightarrow> string \<Rightarrow> RegistryAgent result" where
  "select_agent registry agent_id =
     and_then registry (\<lambda>r.
       with_context (''failed to resolve agent '' @ quoted agent_id @ '' from registry'')
         (get_agent r agent_id))"

definition resolve_agent ::
    "'v Registry result \<Rightarrow> ('w, 'l) run_host \<Rightarrow> string \<Rightarrow> string list \<Rightarrow> 'w
     \<Rightarrow> ('l CommandSpec result \<times> 'w) option" where
  "resolve_agent registry host agent_id user_args w =
     (case select_agent registry agent_id of
        Inl e \<Rightarrow> Some (Inl e, w)
      | Inr agent \<Rightarrow> resolve_agent_command host agent user_args w)"

definition resolve_agent_config ::
    "'v Registry result \<Rightarrow> ('w, 'l) run_host \<Rightarrow> string \<Rightarrow> string list \<Rightarrow> 'w
     \<Rightarrow> ('l ResolvedAgentConfig result \<times> 'w) option" where
  "resolve_agent_config registry host agent_id user_args w =
     (case select_agent registry agent_id of
        Inl e \<Rightarrow> Some (Inl e, w)
      | Inr agent \<Rightarrow> resolve_agent_config_from_registry_agent host agent user_args w)"

text \<open>\<open>run_agent\<close>: the status of the command, run by \<open>status\<close> (\<open>process::status\<close>).\<close>

definition run_command ::
    "(Command \<Rightarrow> 'w \<Rightarrow> (string + ExitStatus) \<times> 'w) \<Rightarrow> 'l CommandSpec \<Rightarrow> string \<Rightarrow> ('w, ExitStatus) io"
where
  "run_command status spec agent_id w =
     (case status (spec_command spec) w of
        (r, w') \<Rightarrow>
          (with_context (''failed to run '' @ cs_program spec @ '' for '' @ agent_id)
             (map_err (\<lambda>e. [e]) r), w'))"

definition run_agent ::
    "'v Registry result \<Rightarrow> ('w, 'l) run_host \<Rightarrow> (Command \<Rightarrow> 'w \<Rightarrow> (string + ExitStatus) \<times> 'w)
     \<Rightarrow> string \<Rightarrow> string list \<Rightarrow> 'w \<Rightarrow> (ExitStatus result \<times> 'w) option" where
  "run_agent registry host status agent_id user_args w =
     (case resolve_agent registry host agent_id user_args w of
        None \<Rightarrow> None
      | Some (Inl e, w') \<Rightarrow> Some (Inl e, w')
      | Some (Inr spec, w') \<Rightarrow> Some (run_command status spec agent_id w'))"

section \<open>Properties\<close>

lemma npm_package_runner_not_uvx: "npm_package_runner available \<noteq> Inr Uvx"
  by (auto simp: npm_package_runner_def and_then_eq_Inr split: if_splits)

lemma resolve_distribution_Inr:
  "resolve_distribution (Inr platform) available agent = Inr d \<longleftrightarrow>
     (case Option.bind (ad_binary (ra_distribution agent)) (\<lambda>b. for_platform b platform) of
        Some target \<Rightarrow> d = Some (RBinary platform target)
      | None \<Rightarrow>
          (case ad_npx (ra_distribution agent) of
             Some n \<Rightarrow> \<exists>b. available ''npm'' = Inr b \<and> d = Some (RNpm n (if b then Npm else DenoRunner))
           | None \<Rightarrow> d = map_option RUvx (ad_uvx (ra_distribution agent))))"
  by (auto simp: resolve_distribution_def npm_package_runner_def map_ok_eq_Inr and_then_eq_Inr
      split: option.splits)

text \<open>
  The distribution is the binary of this platform when there is one, else the npm
  package with \<open>npm\<close> preferred to Deno, else the Python package; a valid registry entry has
  no distribution only when it publishes nothing but binaries of other platforms.
\<close>
lemma distribution_priority:
  assumes "resolve_distribution (Inr platform) available agent = Inr d"
    and "has_distribution_source (ra_distribution agent)"
  shows "(d = None \<longleftrightarrow> ad_npx (ra_distribution agent) = None \<and> ad_uvx (ra_distribution agent) = None
      \<and> (\<exists>b. ad_binary (ra_distribution agent) = Some b \<and> for_platform b platform = None))
    \<and> (\<forall>p t. d = Some (RBinary p t) \<longrightarrow>
      p = platform \<and> (\<exists>b. ad_binary (ra_distribution agent) = Some b \<and> for_platform b p = Some t))
    \<and> (\<forall>n r. d = Some (RNpm n r) \<longrightarrow> ad_npx (ra_distribution agent) = Some n
      \<and> r \<noteq> Uvx \<and> (r = Npm \<longleftrightarrow> available ''npm'' = Inr True))
    \<and> (\<forall>u. d = Some (RUvx u) \<longrightarrow> ad_npx (ra_distribution agent) = None
      \<and> ad_uvx (ra_distribution agent) = Some u)"
  using assms
  by (auto simp: resolve_distribution_Inr has_distribution_source_def Option.bind_eq_Some_conv
      split: option.splits if_splits)

theorem distribution_priority_witness:
  "resolve_distribution (Inr LinuxX86_64) (\<lambda>_. Inr False) sample_agent
     = Inr (Some (RNpm \<lparr>pd_package = ''claude-acp@1.0.0'', pd_args = None, pd_env = None\<rparr> DenoRunner))
   \<and> DenoRunner \<noteq> Uvx"
proof
  show r: "resolve_distribution (Inr LinuxX86_64) (\<lambda>_. Inr False) sample_agent
     = Inr (Some (RNpm \<lparr>pd_package = ''claude-acp@1.0.0'', pd_args = None, pd_env = None\<rparr> DenoRunner))"
    by (simp add: resolve_distribution_def npm_package_runner_def sample_agent_def)
  have "has_distribution_source (ra_distribution sample_agent)"
    by (simp add: has_distribution_source_def sample_agent_def)
  from distribution_priority[OF r this] show "DenoRunner \<noteq> Uvx" by blast
qed

definition default_args :: "ResolvedDistribution \<Rightarrow> string list" where
  "default_args d =
     (case d of
        RBinary _ t \<Rightarrow> (case bt_args t of None \<Rightarrow> [] | Some a \<Rightarrow> a)
      | RNpm p _ \<Rightarrow> (case pd_args p of None \<Rightarrow> [] | Some a \<Rightarrow> a)
      | RUvx p \<Rightarrow> (case pd_args p of None \<Rightarrow> [] | Some a \<Rightarrow> a))"

lemma resolve_agent_command_Some:
  "\<exists>r w'. resolve_agent_command host agent user_args w = Some (r, w')
     \<and> (\<forall>spec. r = Inr spec \<longrightarrow>
          (\<exists>d. resolve_distribution (rn_platform host) (rn_available host w) agent = Inr (Some d)
             \<and> suffix (default_args d @ user_args) (cs_args spec)
             \<and> ((\<exists>p t. d = RBinary p t) \<longleftrightarrow> cs_current_dir spec \<noteq> None)))"
proof (cases "resolve_distribution (rn_platform host) (rn_available host w) agent")
  case (Inl e)
  then show ?thesis by (simp add: resolve_agent_command_def)
next
  case (Inr found)
  show ?thesis
  proof (cases found)
    case None
    with Inr show ?thesis by (simp add: resolve_agent_command_def)
  next
    case (Some d)
    show ?thesis
    proof (cases d)
      case (RBinary platform target)
      with Inr Some show ?thesis
        by (auto simp: resolve_agent_command_def binary_command_spec_def default_args_def
            split: prod.split sum.split)
    next
      case (RNpm n runner)
      have "runner \<noteq> Uvx"
        using Inr Some RNpm npm_package_runner_not_uvx[of "rn_available host w"]
        by (auto simp: resolve_distribution_def and_then_eq_Inr map_ok_eq_Inr split: option.splits)
      then show ?thesis
        using Inr Some RNpm
        by (cases runner) (auto simp: resolve_agent_command_def npm_command_spec_def
            package_command_spec_def default_args_def suffix_def)
    next
      case (RUvx u)
      with Inr Some show ?thesis
        by (auto simp: resolve_agent_command_def package_command_spec_def default_args_def suffix_def)
    qed
  qed
qed

text \<open>
  Resolving an agent never reaches the unreachable case; its command ends with
  the published default arguments and then the user's arguments. Serving starts the same
  program with the same arguments and variables as running, but without the working
  directory that running a cached binary sets.
\<close>
lemma run_and_serve_agree:
  "\<exists>r w'. resolve_agent registry host agent_id user_args w = Some (r, w')
     \<and> resolve_agent_config registry host agent_id user_args w = Some (map_ok into_resolved_config r, w')
     \<and> (case r of Inl _ \<Rightarrow> True | Inr spec \<Rightarrow>
          (\<exists>d. suffix (default_args d @ user_args) (cmd_args (spec_command spec))
             \<and> ((\<exists>p t. d = RBinary p t) \<longleftrightarrow> cmd_dir (spec_command spec) \<noteq> None))
          \<and> rc_config (into_resolved_config spec) =
              \<lparr>ac_program = cmd_program (spec_command spec), ac_args = cmd_args (spec_command spec),
               ac_envs = cmd_env (spec_command spec)\<rparr>)"
proof (cases "select_agent registry agent_id")
  case (Inl e)
  then show ?thesis by (simp add: resolve_agent_def resolve_agent_config_def)
next
  case (Inr agent)
  obtain r w' where "resolve_agent_command host agent user_args w = Some (r, w')"
    "\<forall>spec. r = Inr spec \<longrightarrow>
          (\<exists>d. suffix (default_args d @ user_args) (cs_args spec)
             \<and> ((\<exists>p t. d = RBinary p t) \<longleftrightarrow> cs_current_dir spec \<noteq> None))"
    using resolve_agent_command_Some[of host agent user_args w] by blast
  with Inr show ?thesis
    by (cases r) (auto simp: resolve_agent_def resolve_agent_config_def
        resolve_agent_config_from_registry_agent_def spec_command_def into_resolved_config_def)
qed

end
