(* ===== verification/Yolo.thy ===== *)
theory Yolo
  imports Registry
begin

text \<open>
  \<open>src/src/yolo.rs\<close>: the catalog of startup arguments that \<open>--yolo\<close> injects, its
  download with the bundled fallback, the process-wide cache and the resolved arguments.
  The network, the JSON decoder and the bundled text are parameters.
\<close>

record YoloMode =
  ym_args :: "string list"

text \<open>A \<open>BTreeMap\<close> is its association list in key order.\<close>

record YoloModes =
  yv_version :: u64
  yv_agents :: "(string \<times> YoloMode) list"

text \<open>What building the HTTP client gives, then the response of the catalog URL.\<close>

record yolo_host =
  yh_build_client :: "string + unit"
  yh_send :: "string \<Rightarrow> string + http_response"
  yh_describe :: "nat \<Rightarrow> string"
  yh_decode :: "string \<Rightarrow> string + YoloModes"
  yh_embedded :: string

definition YOLO_MODES_URL :: string where
  "YOLO_MODES_URL =
     ''https://cdn.jsdelivr.net/gh/OpenInsightDev/acp-agent@main/data/yolo-modes.json''"

definition yolo_from_json :: "yolo_host \<Rightarrow> string \<Rightarrow> YoloModes result" where
  "yolo_from_json host input =
     map_err (\<lambda>e. [''failed to decode yolo-modes.json: '' @ e]) (yh_decode host input)"

definition yolo_find :: "YoloModes \<Rightarrow> string \<Rightarrow> YoloMode option" where
  "yolo_find catalog agent_id = map_of (yv_agents catalog) agent_id"

definition fetch_remote_yolo_modes :: "yolo_host \<Rightarrow> YoloModes result" where
  "fetch_remote_yolo_modes host =
     (let failed = (\<lambda>e. [''failed to fetch yolo-mode catalog: '' @ e])
      in and_then (map_err (\<lambda>e. [''failed to build HTTP client for yolo-mode catalog: '' @ e])
           (yh_build_client host)) (\<lambda>_.
         and_then (map_err failed (yh_send host YOLO_MODES_URL)) (\<lambda>response.
         and_then (map_err failed (error_for_status (yh_describe host) response)) (\<lambda>response.
         and_then (map_err failed (rsp_body response)) (\<lambda>text.
         yolo_from_json host text)))))"

text \<open>\<open>embedded_yolo_modes\<close>: \<open>None\<close> is the panic when the bundled catalog does not decode.\<close>

definition embedded_yolo_modes :: "yolo_host \<Rightarrow> YoloModes option" where
  "embedded_yolo_modes host =
     (case yolo_from_json host (yh_embedded host) of Inl _ \<Rightarrow> None | Inr c \<Rightarrow> Some c)"

text \<open>
  \<open>fetch_yolo_modes\<close> on the process-wide cache; the result, the warning it prints and the
  cache afterwards. A set cache stays as it is.
\<close>

definition cache_set :: "YoloModes \<Rightarrow> YoloModes option \<Rightarrow> YoloModes option" where
  "cache_set catalog cache = (case cache of None \<Rightarrow> Some catalog | Some c \<Rightarrow> Some c)"

definition fetch_yolo_modes ::
    "yolo_host \<Rightarrow> YoloModes option \<Rightarrow> (YoloModes result \<times> string list \<times> YoloModes option) option"
where
  "fetch_yolo_modes host cache =
     (case cache of
        Some cached \<Rightarrow> Some (Inr cached, [], cache)
      | None \<Rightarrow>
          (case fetch_remote_yolo_modes host of
             Inr catalog \<Rightarrow> Some (Inr catalog, [], cache_set catalog cache)
           | Inl e \<Rightarrow>
               (case embedded_yolo_modes host of
                  None \<Rightarrow> None
                | Some catalog \<Rightarrow>
                    Some (Inr catalog,
                      [''warning: '' @ error_to_string e @
                         ''; using the yolo-mode catalog bundled with this release''],
                      cache_set catalog cache))))"

definition yolo_extra_args_from :: "YoloModes \<Rightarrow> string \<Rightarrow> string list result" where
  "yolo_extra_args_from catalog agent_id =
     map_ok ym_args
       (ok_or (yolo_find catalog agent_id)
          [''no yolo mode mapping known for agent '' @ quoted agent_id
           @ ''; add an entry to data/yolo-modes.json or pass the agent'' @ sq
           @ ''s own arguments explicitly''])"

text \<open>\<open>resolve_args\<close> on the catalog that \<open>fetch_yolo_modes\<close> returned.\<close>

definition resolve_args ::
    "YoloModes result \<Rightarrow> string \<Rightarrow> bool \<Rightarrow> string list \<Rightarrow> string list result" where
  "resolve_args catalog agent_id enabled args =
     (if \<not> enabled then Inr args
      else and_then catalog (\<lambda>c.
           map_ok (\<lambda>extra. extra @ args) (yolo_extra_args_from c agent_id)))"

text \<open>
  When the bundled catalog decodes, the catalog is always available: a network or
  decoding failure falls back to the bundled one with a warning, a cached catalog is used
  as it is, and later look-ups in the same process return the same catalog silently.
\<close>
lemma yolo_catalog_available:
  assumes "yh_decode host (yh_embedded host) = Inr bundled"
  shows "\<exists>catalog warnings. fetch_yolo_modes host cache = Some (Inr catalog, warnings, Some catalog)
    \<and> fetch_yolo_modes other (Some catalog) = Some (Inr catalog, [], Some catalog)
    \<and> (cache = None \<and> \<not> is_ok (fetch_remote_yolo_modes host) \<longrightarrow> catalog = bundled \<and> warnings \<noteq> [])
    \<and> (cache = None \<longrightarrow> (\<forall>c. fetch_remote_yolo_modes host = Inr c \<longrightarrow> catalog = c \<and> warnings = []))
    \<and> (\<forall>c. cache = Some c \<longrightarrow> catalog = c \<and> warnings = [])"
proof (cases cache)
  case None
  then show ?thesis
    using assms by (cases "fetch_remote_yolo_modes host")
      (simp_all add: fetch_yolo_modes_def embedded_yolo_modes_def yolo_from_json_def cache_set_def)
next
  case (Some c)
  then show ?thesis by (simp add: fetch_yolo_modes_def)
qed

definition offline_yolo :: yolo_host where
  "offline_yolo =
     \<lparr>yh_build_client = Inr (), yh_send = (\<lambda>_. Inl ''offline''), yh_describe = (\<lambda>_. []),
      yh_decode = (\<lambda>_. Inr \<lparr>yv_version = 1, yv_agents = [(''codex'', \<lparr>ym_args = [''--yolo'']\<rparr>)]\<rparr>),
      yh_embedded = ''{}''\<rparr>"

theorem yolo_catalog_available_witness:
  "\<exists>catalog warnings. fetch_yolo_modes offline_yolo None = Some (Inr catalog, warnings, Some catalog)
     \<and> catalog = \<lparr>yv_version = 1, yv_agents = [(''codex'', \<lparr>ym_args = [''--yolo'']\<rparr>)]\<rparr> \<and> warnings \<noteq> []"
proof -
  have d: "yh_decode offline_yolo (yh_embedded offline_yolo)
      = Inr \<lparr>yv_version = 1, yv_agents = [(''codex'', \<lparr>ym_args = [''--yolo'']\<rparr>)]\<rparr>"
    by (simp add: offline_yolo_def)
  have "\<not> is_ok (fetch_remote_yolo_modes offline_yolo)"
    by (simp add: fetch_remote_yolo_modes_def offline_yolo_def)
  with yolo_catalog_available[OF d, of None undefined] show ?thesis by blast
qed

text \<open>
  Yolo arguments are put in front of the user's, which stay last and unchanged;
  an agent without a mapping is an error only when yolo is asked for.
\<close>
lemma resolve_args_outcome:
  "resolve_args (Inr catalog) agent_id enabled args =
     (if \<not> enabled then Inr args
      else case map_of (yv_agents catalog) agent_id of
             Some mode \<Rightarrow> Inr (ym_args mode @ args)
           | None \<Rightarrow> Inl [''no yolo mode mapping known for agent '' @ quoted agent_id
               @ ''; add an entry to data/yolo-modes.json or pass the agent'' @ sq
               @ ''s own arguments explicitly''])"
  by (auto simp: resolve_args_def yolo_extra_args_from_def yolo_find_def split: option.split)

end
