(* ===== verification/Daemon.thy ===== *)
theory Daemon
  imports Routes Runner Yolo
begin

text \<open>
  \<open>src/src/server/daemon.rs\<close>, the handlers of \<open>src/src/server/routes.rs\<close> and the dispatch of
  requests in \<open>src/src/server/control.rs\<close>, each handler run from its start to its end.
  \<open>Daemon_Concurrency\<close> interleaves the same critical sections.

  An \<open>Arc<DaemonInstance>\<close> is its number in a heap, so that \<open>Arc::ptr_eq\<close> is equality of
  numbers. Binding a listener, the end of a listener task and the resolution of an agent
  belong to a host that is a parameter.
\<close>

section \<open>State\<close>

datatype DaemonPhase = PhaseRunning | ShuttingDown

text \<open>\<open>di_listener_task\<close> says whether the join handle is still there; \<open>di_stop_lock\<close> holds the
  task that owns the mutex.\<close>

record 'r DaemonInstance =
  di_name :: string
  di_requested_host :: string
  di_requested_port :: u16
  di_address :: SocketAddr
  di_state :: InstanceState
  di_shutdown :: bool
  di_cancel :: bool
  di_listener_task :: bool
  di_stop_lock :: "nat option"
  di_routes :: "'r routes"

record 'r SupervisorState =
  sv_instances :: "(string \<times> nat) list"
  sv_phase :: DaemonPhase
  sv_heap :: "'r DaemonInstance list"

definition SupervisorState_shared :: "'r SupervisorState" where
  "SupervisorState_shared = \<lparr>sv_instances = [], sv_phase = PhaseRunning, sv_heap = []\<rparr>"

definition instance_result :: "'r DaemonInstance \<Rightarrow> InstanceState \<Rightarrow> InstanceResult" where
  "instance_result i state =
     \<lparr>ir_name = di_name i, ir_host = di_requested_host i, ir_port = sa_port (di_address i),
      ir_address = public_address (di_address i), ir_state = state\<rparr>"

definition instance_for :: "'r SupervisorState \<Rightarrow> string \<Rightarrow> DaemonOperationError + nat" where
  "instance_for s name =
     (case map_of (sv_instances s) name of
        None \<Rightarrow> op_error NotFound (''instance '' @ debug_str name @ '' was not found'')
      | Some i \<Rightarrow> Inr i)"

definition ensure_running :: "'r DaemonInstance \<Rightarrow> DaemonOperationError + unit" where
  "ensure_running i =
     (if di_state i \<noteq> Running then op_error Operation (''instance '' @ di_name i @ '' is stopping'')
      else Inr ())"

definition ensure_phase :: "'r SupervisorState \<Rightarrow> DaemonOperationError + unit" where
  "ensure_phase s =
     (if sv_phase s \<noteq> PhaseRunning then op_error Operation ''daemon is shutting down'' else Inr ())"

definition update_instance ::
    "nat \<Rightarrow> ('r DaemonInstance \<Rightarrow> 'r DaemonInstance) \<Rightarrow> 'r SupervisorState \<Rightarrow> 'r SupervisorState"
where
  "update_instance i f s = s\<lparr>sv_heap := (sv_heap s)[i := f (sv_heap s ! i)]\<rparr>"

section \<open>Creating, listing and stopping\<close>

text \<open>
  \<open>bind\<close> gives the listener's address: an error to bind, or what \<open>local_addr\<close> says.
\<close>

type_synonym listener_bind = "string \<Rightarrow> u16 \<Rightarrow> string + (string + SocketAddr)"

definition new_instance :: "CreateInstanceRequest \<Rightarrow> SocketAddr \<Rightarrow> 'r DaemonInstance" where
  "new_instance request address =
     \<lparr>di_name = ci_name request, di_requested_host = ci_host request,
      di_requested_port = ci_port request, di_address = address, di_state = Running,
      di_shutdown = False, di_cancel = False, di_listener_task = True, di_stop_lock = None,
      di_routes = []\<rparr>"

definition add_instance ::
    "CreateInstanceRequest \<Rightarrow> SocketAddr \<Rightarrow> 'r SupervisorState \<Rightarrow> 'r SupervisorState" where
  "add_instance request address s =
     s\<lparr>sv_heap := sv_heap s @ [new_instance request address],
       sv_instances := alist_put (ci_name request) (length (sv_heap s)) (sv_instances s)\<rparr>"

definition validate_create :: "CreateInstanceRequest \<Rightarrow> DaemonOperationError + unit" where
  "validate_create request =
     (case validate_name (ci_name request) of
        Inl e \<Rightarrow> op_error InvalidInput (error_to_string e)
      | Inr _ \<Rightarrow>
          if trim (ci_host request) = [] then op_error InvalidInput ''instance host must not be empty''
          else Inr ())"

text \<open>The part of \<open>create_instance\<close> under the supervisor's lock.\<close>

definition create_locked ::
    "listener_bind \<Rightarrow> CreateInstanceRequest \<Rightarrow> 'r SupervisorState
     \<Rightarrow> (DaemonOperationError + InstanceResult) \<times> 'r SupervisorState" where
  "create_locked bind request s =
     (case ensure_phase s of
        Inl e \<Rightarrow> (Inl e, s)
      | Inr _ \<Rightarrow>
          (case map_of (sv_instances s) (ci_name request) of
             Some i \<Rightarrow>
               let existing = sv_heap s ! i in
               if di_state existing \<noteq> Running
               then (op_error Operation (''instance '' @ debug_str (ci_name request) @ '' is stopping''), s)
               else if di_requested_host existing = ci_host request
                 \<and> di_requested_port existing = ci_port request
               then (Inr (instance_result existing (di_state existing)), s)
               else (op_error Conflict (''instance '' @ debug_str (ci_name request)
                       @ '' already exists with a different configuration''), s)
           | None \<Rightarrow>
               (case bind (ci_host request) (ci_port request) of
                  Inl e \<Rightarrow> (op_error Unavailable (''failed to bind instance '' @ ci_host request @ '':''
                              @ show_u16 (ci_port request) @ '': '' @ e), s)
                | Inr (Inl e) \<Rightarrow>
                    (op_error Operation (''failed to read instance listener address: '' @ e), s)
                | Inr (Inr address) \<Rightarrow>
                    (Inr (instance_result (new_instance request address :: 'r DaemonInstance) Running),
                     add_instance request address s))))"

definition create_instance ::
    "listener_bind \<Rightarrow> CreateInstanceRequest \<Rightarrow> 'r SupervisorState
     \<Rightarrow> (DaemonOperationError + InstanceResult) \<times> 'r SupervisorState" where
  "create_instance bind request s =
     (case validate_create request of
        Inl e \<Rightarrow> (Inl e, s)
      | Inr _ \<Rightarrow> create_locked bind request s)"

definition name_le :: "InstanceResult \<Rightarrow> InstanceResult \<Rightarrow> bool" where
  "name_le a b = (ir_name a \<le> ir_name b)"

definition list_instances :: "'r SupervisorState \<Rightarrow> InstanceResult list" where
  "list_instances s =
     sort_by name_le
       (map (\<lambda>(_, i). instance_result (sv_heap s ! i) (di_state (sv_heap s ! i))) (sv_instances s))"

definition status_instance :: "'r SupervisorState \<Rightarrow> string \<Rightarrow> DaemonOperationError + InstanceResult" where
  "status_instance s name =
     map_ok (\<lambda>i. instance_result (sv_heap s ! i) (di_state (sv_heap s ! i))) (instance_for s name)"

text \<open>
  The sections of \<open>stop_instance\<close> between its \<open>await\<close>s: mark the instance and signal its
  listener, take the join handle, and remove the entry when it still is this instance.
\<close>

definition mark_stopping :: "'r DaemonInstance \<Rightarrow> 'r DaemonInstance" where
  "mark_stopping i =
     (if di_state i = Running then i\<lparr>di_state := Stopping, di_shutdown := True\<rparr> else i)"

definition take_listener :: "'r DaemonInstance \<Rightarrow> bool \<times> 'r DaemonInstance" where
  "take_listener i = (di_listener_task i, i\<lparr>di_listener_task := False\<rparr>)"

definition remove_same :: "string \<Rightarrow> nat \<Rightarrow> 'r SupervisorState \<Rightarrow> 'r SupervisorState" where
  "remove_same name i s =
     (if map_of (sv_instances s) name = Some i
      then s\<lparr>sv_instances := alist_del name (sv_instances s)\<rparr> else s)"

text \<open>The end of a listener task: its own result, or a join error (panic, cancellation).\<close>

datatype task_end = Finished "unit result" | JoinError string

definition task_result :: "task_end option \<Rightarrow> unit result" where
  "task_result t =
     (case t of
        Some (Finished r) \<Rightarrow> r
      | Some (JoinError e) \<Rightarrow> Inl [''instance listener task failed: '' @ e]
      | None \<Rightarrow> Inr ())"

definition stop_outcome :: "unit result \<Rightarrow> DaemonOperationError + unit" where
  "stop_outcome r =
     (case r of
        Inl e \<Rightarrow> op_error Operation (''instance listener failed: '' @ error_chain e)
      | Inr _ \<Rightarrow> Inr ())"

definition stop_instance ::
    "(nat \<Rightarrow> task_end) \<Rightarrow> string \<Rightarrow> 'r SupervisorState
     \<Rightarrow> (DaemonOperationError + unit) \<times> 'r SupervisorState" where
  "stop_instance await_task name s =
     (case instance_for s name of
        Inl e \<Rightarrow> (Inl e, s)
      | Inr i \<Rightarrow>
          let s1 = update_instance i mark_stopping s;
              taken = fst (take_listener (sv_heap s1 ! i));
              s2 = update_instance i (\<lambda>x. snd (take_listener x)) s1;
              r = task_result (if taken then Some (await_task i) else None)
          in (stop_outcome r, remove_same name i s2))"

fun stop_names ::
    "(nat \<Rightarrow> task_end) \<Rightarrow> string list \<Rightarrow> 'r SupervisorState \<Rightarrow> 'r SupervisorState" where
  "stop_names await_task [] s = s"
| "stop_names await_task (name # names) s = stop_names await_task names (snd (stop_instance await_task name s))"

definition stop_all_instances ::
    "(nat \<Rightarrow> task_end) \<Rightarrow> 'r SupervisorState \<Rightarrow> 'r SupervisorState" where
  "stop_all_instances await_task s = stop_names await_task (map fst (sv_instances s)) s"

section \<open>Routes of an instance\<close>

text \<open>
  What \<open>register\<close> asks the other components for: the registry, the yolo catalog, the cached
  command of the agent and the route runtime. \<open>'w\<close> is the world of the binary cache.
\<close>

record ('v, 'w, 'l, 'r) register_host =
  rh_parse_uri :: "string \<Rightarrow> string + uri"
  rh_max_permits :: u64
  rh_registry :: "'v Registry result"
  rh_yolo :: "YoloModes result"
  rh_run :: "('w, 'l) run_host"
  rh_runtime :: "'l ResolvedAgentConfig \<Rightarrow> RouteConfig \<Rightarrow> bool \<Rightarrow> 'r RouteRuntime result"

definition op_map :: "(error \<Rightarrow> DaemonOperationError) \<Rightarrow> 'a result \<Rightarrow> DaemonOperationError + 'a" where
  "op_map f r = map_err f r"

definition invalid_input :: "error \<Rightarrow> DaemonOperationError" where
  "invalid_input e = \<lparr>de_code = InvalidInput, de_message = error_to_string e\<rparr>"

definition validate_register ::
    "('v, 'w, 'l, 'r) register_host \<Rightarrow> RegisterRequest \<Rightarrow> DaemonOperationError + unit" where
  "validate_register host request =
     and_then (op_map invalid_input (validate_name (rq_name request))) (\<lambda>_.
       if \<not> validate_agent_id (rq_id request)
       then op_error InvalidInput ''agent id must not be empty''
       else op_map invalid_input (validate_route (rh_parse_uri host) (rq_route request)))"

text \<open>
  The part of \<open>register\<close> between the first look at the instance and its lock: everything
  that may take long. \<open>None\<close> is a panic of the resolver.
\<close>

definition register_runtime ::
    "('v, 'w, 'l, 'r) register_host \<Rightarrow> RegisterRequest \<Rightarrow> bool \<Rightarrow> 'w
     \<Rightarrow> ((DaemonOperationError + 'r RouteRuntime) \<times> 'w) option" where
  "register_runtime host request cancel w =
     (let unavailable = (\<lambda>m e. \<lparr>de_code = Unavailable, de_message = m @ error_chain e\<rparr>);
          checked =
            and_then (op_map invalid_input (validate_route_config (rh_max_permits host) (rq_config request))) (\<lambda>_.
            and_then (op_map (unavailable ''failed to fetch agent registry: '') (rh_registry host)) (\<lambda>registry.
            and_then (ok_or (find_agent registry (rq_id request))
              \<lparr>de_code = NotFound,
               de_message = ''agent '' @ rq_id request @ '' was not found in the registry''\<rparr>) (\<lambda>agent.
            and_then (op_map invalid_input
                (resolve_args (rh_yolo host) (rq_id request) (rq_yolo request) (rq_args request))) (\<lambda>args.
            Inr (agent, args)))))
      in case checked of
           Inl e \<Rightarrow> Some (Inl e, w)
         | Inr (agent, args) \<Rightarrow>
             map_option
               (\<lambda>(r, w').
                  (and_then (op_map (unavailable (''failed to resolve agent '' @ rq_id request @ '': '')) r) (\<lambda>resolved.
                   op_map (\<lambda>e. \<lparr>de_code = InvalidInput,
                                de_message = ''failed to construct route runtime: '' @ error_chain e\<rparr>)
                     (rh_runtime host resolved (rq_config request) cancel)), w'))
               (resolve_agent_config_from_registry_agent (rh_run host) agent args w))"

definition request_key :: "RegisterRequest \<Rightarrow> RouteKey" where
  "request_key request =
     \<lparr>rk_id = rq_id request, rk_public_route = rq_route request, rk_config = rq_config request\<rparr>"

text \<open>The part of \<open>register\<close> and \<open>unregister\<close> under the supervisor's lock.\<close>

definition register_locked ::
    "RouteKey \<Rightarrow> 'r RouteRuntime \<Rightarrow> nat \<Rightarrow> 'r SupervisorState
     \<Rightarrow> (DaemonOperationError + RegistrationResult) \<times> 'r SupervisorState" where
  "register_locked route_key runtime i s =
     (case and_then (ensure_phase s) (\<lambda>_.
             commit_registration route_key runtime (di_routes (sv_heap s ! i))) of
        Inl e \<Rightarrow> (Inl e, s)
      | Inr routes \<Rightarrow>
          (Inr (registration_result (di_name (sv_heap s ! i)) (di_address (sv_heap s ! i)) route_key runtime),
           update_instance i (\<lambda>x. x\<lparr>di_routes := routes\<rparr>) s))"

definition register ::
    "('v, 'w, 'l, 'r) register_host \<Rightarrow> RegisterRequest \<Rightarrow> 'r SupervisorState \<times> 'w
     \<Rightarrow> ((DaemonOperationError + RegistrationResult) \<times> 'r SupervisorState \<times> 'w) option" where
  "register host request = (\<lambda>(s, w).
     (case and_then (validate_register host request) (\<lambda>_.
           and_then (instance_for s (rq_name request)) (\<lambda>i.
           and_then (ensure_running (sv_heap s ! i)) (\<lambda>_. Inr i))) of
        Inl e \<Rightarrow> Some (Inl e, s, w)
      | Inr i \<Rightarrow>
          (case register_runtime host request (di_cancel (sv_heap s ! i)) w of
             None \<Rightarrow> None
           | Some (Inl e, w') \<Rightarrow> Some (Inl e, s, w')
           | Some (Inr runtime, w') \<Rightarrow>
               (case ensure_running (sv_heap s ! i) of
                  Inl e \<Rightarrow> Some (Inl e, s, w')
                | Inr _ \<Rightarrow>
                    (let (r, s') = register_locked (request_key request) runtime i s
                     in Some (r, s', w'))))))"

definition unregister_locked ::
    "UnregisterRequest \<Rightarrow> nat \<Rightarrow> 'r SupervisorState
     \<Rightarrow> (DaemonOperationError + UnregisterResult) \<times> 'r SupervisorState" where
  "unregister_locked request i s =
     (case and_then (ensure_phase s) (\<lambda>_.
             commit_unregistration (ur_id request) (di_routes (sv_heap s ! i))) of
        Inl e \<Rightarrow> (Inl e, s)
      | Inr routes \<Rightarrow>
          (Inr \<lparr>un_name = ur_name request, un_id = ur_id request\<rparr>,
           update_instance i (\<lambda>x. x\<lparr>di_routes := routes\<rparr>) s))"

definition validate_unregister :: "UnregisterRequest \<Rightarrow> DaemonOperationError + unit" where
  "validate_unregister request =
     and_then (op_map invalid_input (validate_name (ur_name request))) (\<lambda>_.
       if \<not> validate_agent_id (ur_id request)
       then op_error InvalidInput ''agent id must not be empty'' else Inr ())"

definition unregister ::
    "UnregisterRequest \<Rightarrow> 'r SupervisorState
     \<Rightarrow> (DaemonOperationError + UnregisterResult) \<times> 'r SupervisorState" where
  "unregister request s =
     (case and_then (validate_unregister request) (\<lambda>_.
           and_then (instance_for s (ur_name request)) (\<lambda>i.
           and_then (ensure_running (sv_heap s ! i)) (\<lambda>_. Inr i))) of
        Inl e \<Rightarrow> (Inl e, s)
      | Inr i \<Rightarrow> unregister_locked request i s)"

definition registrations ::
    "'r SupervisorState \<Rightarrow> string \<Rightarrow> DaemonOperationError + RegistrationsResult" where
  "registrations s name =
     map_ok (\<lambda>i. list_registrations name (di_address (sv_heap s ! i)) (di_routes (sv_heap s ! i)))
       (instance_for s name)"

section \<open>Requests\<close>

record ('v, 'w, 'l, 'r) daemon_host =
  dh_bind :: listener_bind
  dh_join :: "nat \<Rightarrow> task_end"
  dh_register :: "('v, 'w, 'l, 'r) register_host"

definition is_mutation :: "Request \<Rightarrow> bool" where
  "is_mutation c =
     (case c of
        ReqCreateInstance _ \<Rightarrow> True | ReqStopInstance _ \<Rightarrow> True
      | ReqRegister _ \<Rightarrow> True | ReqUnregister _ \<Rightarrow> True | _ \<Rightarrow> False)"

definition respond :: "('a \<Rightarrow> Response) \<Rightarrow> DaemonOperationError + 'a \<Rightarrow> ResponseEnvelope" where
  "respond f r =
     (case r of
        Inl e \<Rightarrow> error_response (de_code e) (de_message e)
      | Inr x \<Rightarrow> success (f x))"

definition handle_request ::
    "('v, 'w, 'l, 'r) daemon_host \<Rightarrow> Request \<Rightarrow> 'r SupervisorState \<times> 'w
     \<Rightarrow> (ResponseEnvelope \<times> 'r SupervisorState \<times> 'w) option" where
  "handle_request host command = (\<lambda>(s, w).
     if is_mutation command \<and> sv_phase s \<noteq> PhaseRunning
     then Some (error_response Operation ''daemon is shutting down'', s, w)
     else (case command of
         ReqHealth \<Rightarrow> Some (success (RespHealth \<lparr>hr_protocol_version = PROTOCOL_VERSION\<rparr>), s, w)
       | ReqCreateInstance request \<Rightarrow>
           (let (r, s') = create_instance (dh_bind host) request s
            in Some (respond RespCreateInstance r, s', w))
       | ReqStopInstance request \<Rightarrow>
           (let (r, s') = stop_instance (dh_join host) (si_name request) s
            in Some (respond (\<lambda>_. RespStopInstance \<lparr>sp_name = si_name request\<rparr>) r, s', w))
       | ReqRegister request \<Rightarrow>
           map_option (\<lambda>(r, s', w'). (respond RespRegister r, s', w'))
             (register (dh_register host) request (s, w))
       | ReqUnregister request \<Rightarrow>
           (let (r, s') = unregister request s in Some (respond RespUnregister r, s', w))
       | ReqList \<Rightarrow> Some (success (RespList \<lparr>ls_instances = list_instances s\<rparr>), s, w)
       | ReqStatus request \<Rightarrow> Some (respond RespStatus (status_instance s (sr_name request)), s, w)
       | ReqRegistrations request \<Rightarrow>
           Some (respond RespRegistrations (registrations s (rr_name request)), s, w)
       | ReqShutdown \<Rightarrow> Some (success RespShutdown, s\<lparr>sv_phase := ShuttingDown\<rparr>, w)))"

text \<open>
  One connection: the request frame, the response and whether the supervisor is told to shut
  down. \<open>write\<close> is the outcome of sending the response.
\<close>

definition handle_protocol_connection ::
    "('v, 'w, 'l, 'r) daemon_host \<Rightarrow> RequestEnvelope result \<Rightarrow> (ResponseEnvelope \<Rightarrow> unit result)
     \<Rightarrow> 'r SupervisorState \<times> 'w
     \<Rightarrow> (ResponseEnvelope \<times> unit result \<times> bool \<times> 'r SupervisorState \<times> 'w) option" where
  "handle_protocol_connection host request write = (\<lambda>(s, w).
     (case request of
        Inl e \<Rightarrow> Some (error_response InvalidInput (error_to_string e), Inl e, False, s, w)
      | Inr req \<Rightarrow>
          if re_version req \<noteq> PROTOCOL_VERSION then
            (let response = error_response InvalidInput
                  (''unsupported protocol version '' @ show_nat (unat (re_version req))
                   @ ''; expected '' @ show_nat (unat PROTOCOL_VERSION))
             in Some (response, write response, False, s, w))
          else map_option
            (\<lambda>(response, s', w').
               (response, write response, re_command req = ReqShutdown, s', w'))
            (handle_request host (re_command req) (s, w))))"

text \<open>
  The end of \<open>run_supervisor_loop\<close>: after the loop broke with \<open>result\<close>, stop everything and
  remove the socket; \<open>remove\<close> is the outcome of \<open>remove_file\<close>.
\<close>

definition supervisor_shutdown ::
    "(nat \<Rightarrow> task_end) \<Rightarrow> string \<Rightarrow> io_error + unit \<Rightarrow> unit result \<Rightarrow> 'r SupervisorState
     \<Rightarrow> unit result \<times> 'r SupervisorState" where
  "supervisor_shutdown await_task socket_path remove result s =
     (let s' = stop_all_instances await_task (s\<lparr>sv_phase := ShuttingDown\<rparr>)
      in (case remove of
            Inr _ \<Rightarrow> result
          | Inl e \<Rightarrow> if io_kind e = KNotFound then result
                     else Inl [''failed to remove daemon socket '' @ socket_path, io_text e], s'))"

section \<open>Invariant of the supervisor\<close>

text \<open>
  The table names allocated instances under their own names, every running instance is in
  the table (none is orphaned), and route tables have unique ids and routes.
\<close>

definition daemon_ok :: "'r SupervisorState \<Rightarrow> bool" where
  "daemon_ok s \<longleftrightarrow>
     distinct (map fst (sv_instances s))
     \<and> (\<forall>(name, i) \<in> set (sv_instances s). i < length (sv_heap s) \<and> di_name (sv_heap s ! i) = name)
     \<and> (\<forall>i < length (sv_heap s). di_state (sv_heap s ! i) = Running \<longrightarrow>
          (di_name (sv_heap s ! i), i) \<in> set (sv_instances s))
     \<and> (\<forall>x \<in> set (sv_heap s). routes_ok (di_routes x))"

named_theorems daemon_intros \<open>critical sections that keep the invariant of the supervisor\<close>

lemma instance_for_Inr [simp]: "instance_for s name = Inr i \<longleftrightarrow> map_of (sv_instances s) name = Some i"
  by (auto simp: instance_for_def split: option.split)

lemma ensure_phase_Inr [simp]: "ensure_phase s = Inr u \<longleftrightarrow> sv_phase s = PhaseRunning"
  by (auto simp: ensure_phase_def)

lemma ensure_running_Inr [simp]: "ensure_running i = Inr u \<longleftrightarrow> di_state i = Running"
  by (auto simp: ensure_running_def)

lemma ensure_ok [simp]:
  "sv_phase s = PhaseRunning \<Longrightarrow> ensure_phase s = Inr ()"
  "di_state i = Running \<Longrightarrow> ensure_running i = Inr ()"
  by (simp_all add: ensure_phase_def ensure_running_def)

lemma update_instance_fields [simp]:
  "sv_instances (update_instance i f s) = sv_instances s"
  "sv_phase (update_instance i f s) = sv_phase s"
  "length (sv_heap (update_instance i f s)) = length (sv_heap s)"
  "i < length (sv_heap s) \<Longrightarrow> sv_heap (update_instance i f s) ! i = f (sv_heap s ! i)"
  "j \<noteq> i \<Longrightarrow> sv_heap (update_instance i f s) ! j = sv_heap s ! j"
  by (simp_all add: update_instance_def)

lemma daemon_ok_shared: "daemon_ok SupervisorState_shared"
  by (simp add: daemon_ok_def SupervisorState_shared_def)

lemma daemon_ok_lookup:
  "daemon_ok s \<Longrightarrow> map_of (sv_instances s) name = Some i \<Longrightarrow>
     i < length (sv_heap s) \<and> di_name (sv_heap s ! i) = name"
  by (force simp: daemon_ok_def dest: map_of_SomeD)

lemma daemon_ok_phase [daemon_intros]: "daemon_ok s \<Longrightarrow> daemon_ok (s\<lparr>sv_phase := p\<rparr>)"
  by (simp add: daemon_ok_def)

text \<open>An update of an instance that keeps its name, does not revive it and keeps its table in order.\<close>

lemma daemon_ok_update:
  assumes ok: "daemon_ok s"
    and name: "di_name (f (sv_heap s ! i)) = di_name (sv_heap s ! i)"
    and state: "di_state (f (sv_heap s ! i)) = Running \<Longrightarrow> di_state (sv_heap s ! i) = Running"
    and routes: "routes_ok (di_routes (sv_heap s ! i)) \<Longrightarrow> routes_ok (di_routes (f (sv_heap s ! i)))"
  shows "daemon_ok (update_instance i f s)"
proof (cases "i < length (sv_heap s)")
  case True
  have nth: "sv_heap (update_instance i f s) ! j = (if j = i then f (sv_heap s ! i) else sv_heap s ! j)"
    for j using True by simp
  have "\<forall>x \<in> set (sv_heap (update_instance i f s)). routes_ok (di_routes x)"
    using ok routes True unfolding daemon_ok_def update_instance_def
    by (auto dest!: set_update_subset_insert[THEN subsetD])
  then show ?thesis
    using ok name state unfolding daemon_ok_def nth
    by (auto simp: case_prod_unfold)
next
  case False
  then have "update_instance i f s = s" by (simp add: update_instance_def list_update_beyond)
  with ok show ?thesis by simp
qed

lemma daemon_ok_mark [daemon_intros]: "daemon_ok s \<Longrightarrow> daemon_ok (update_instance i mark_stopping s)"
  by (rule daemon_ok_update) (auto simp: mark_stopping_def split: if_splits)

lemma daemon_ok_take [daemon_intros]:
  "daemon_ok s \<Longrightarrow> daemon_ok (update_instance i (\<lambda>x. snd (take_listener x)) s)"
  by (rule daemon_ok_update) (auto simp: take_listener_def)

lemma daemon_ok_remove:
  assumes "daemon_ok s" "i < length (sv_heap s) \<Longrightarrow> di_state (sv_heap s ! i) \<noteq> Running"
  shows "daemon_ok (remove_same name i s)"
proof (cases "map_of (sv_instances s) name = Some i")
  case True
  then have i: "i < length (sv_heap s)" "di_name (sv_heap s ! i) = name"
    using daemon_ok_lookup[OF assms(1)] by auto
  have other: "di_name (sv_heap s ! j) \<noteq> name"
    if "j < length (sv_heap s)" "di_state (sv_heap s ! j) = Running" for j
  proof
    assume "di_name (sv_heap s ! j) = name"
    with that assms(1) have "(name, j) \<in> set (sv_instances s)" by (auto simp: daemon_ok_def)
    with assms(1) True have "j = i" by (auto simp: daemon_ok_def dest: map_of_is_SomeI)
    with that assms(2) show False by simp
  qed
  show ?thesis
    using assms(1) other distinct_alist_del[of "sv_instances s" name]
    unfolding daemon_ok_def remove_same_def if_P[OF True]
    by (auto simp: set_alist_del)
qed (use assms in \<open>simp add: remove_same_def\<close>)

lemma create_locked_cases:
  fixes s :: "'r SupervisorState"
  obtains (same) r where "create_locked bind request s = (r, s)"
  | (added) address where "sv_phase s = PhaseRunning" "map_of (sv_instances s) (ci_name request) = None"
      "bind (ci_host request) (ci_port request) = Inr (Inr address)"
      "create_locked bind request s =
         (Inr (instance_result (new_instance request address :: 'r DaemonInstance) Running),
          add_instance request address s)"
proof -
  have "(\<exists>r. create_locked bind request s = (r, s)) \<or>
    (\<exists>address. sv_phase s = PhaseRunning \<and> map_of (sv_instances s) (ci_name request) = None
      \<and> bind (ci_host request) (ci_port request) = Inr (Inr address)
      \<and> create_locked bind request s =
         (Inr (instance_result (new_instance request address :: 'r DaemonInstance) Running),
          add_instance request address s))"
    by (auto simp: create_locked_def ensure_phase_def op_error_def Let_def split: option.split sum.split)
  then show thesis using same added by blast
qed

lemma daemon_ok_add:
  fixes s :: "'r SupervisorState"
  assumes "daemon_ok s" "map_of (sv_instances s) (ci_name request) = None"
  shows "daemon_ok (add_instance request address s)"
proof -
  let ?n = "length (sv_heap s)"
  have fresh: "ci_name request \<notin> fst ` set (sv_instances s)"
    using assms(2) by (simp add: map_of_eq_None_iff)
  have new: "di_name (new_instance request address :: 'r DaemonInstance) = ci_name request"
    "routes_ok (di_routes (new_instance request address :: 'r DaemonInstance))"
    by (simp_all add: new_instance_def routes_ok_def)
  have inst: "sv_instances (add_instance request address s) = (ci_name request, ?n) # sv_instances s"
    using alist_del_notin[OF assms(2)] by (simp add: add_instance_def alist_put_def)
  have heap: "sv_heap (add_instance request address s) = sv_heap s @ [new_instance request address]"
    by (simp add: add_instance_def)
  show ?thesis
    using assms(1) fresh new unfolding daemon_ok_def inst heap
    by (auto simp: nth_append less_Suc_eq)
qed

lemma daemon_ok_create [daemon_intros]:
  "daemon_ok s \<Longrightarrow> daemon_ok (snd (create_locked bind request s))"
  by (rule create_locked_cases[of bind request s]) (auto intro: daemon_ok_add)

lemma daemon_ok_register [daemon_intros]:
  assumes "daemon_ok s" shows "daemon_ok (snd (register_locked k runtime i s))"
  using assms commit_registration_ok
  by (auto simp: register_locked_def and_then_eq_Inr split: sum.split intro!: daemon_ok_update)

lemma daemon_ok_unregister [daemon_intros]:
  assumes "daemon_ok s" shows "daemon_ok (snd (unregister_locked request i s))"
  using assms commit_unregistration_ok
  by (auto simp: unregister_locked_def and_then_eq_Inr split: sum.split intro!: daemon_ok_update)

section \<open>Handlers\<close>

lemma daemon_ok_create_instance: "daemon_ok s \<Longrightarrow> daemon_ok (snd (create_instance bind request s))"
  by (auto simp: create_instance_def intro: daemon_ok_create split: sum.split)

lemma not_running_iff: "x \<noteq> Running \<longleftrightarrow> x = Stopping"
  by (cases x) auto

text \<open>The instance that \<open>stop_instance\<close> leaves behind.\<close>

definition stopped :: "'r DaemonInstance \<Rightarrow> 'r DaemonInstance" where
  "stopped x = (mark_stopping x)\<lparr>di_listener_task := False\<rparr>"

lemma stopped_state [simp]: "di_state (stopped x) = Stopping" "di_name (stopped x) = di_name x"
  by (auto simp: stopped_def mark_stopping_def not_running_iff)

lemma stop_instance_found:
  assumes "daemon_ok s" "map_of (sv_instances s) name = Some i"
  shows "stop_instance await_task name s =
    (stop_outcome (task_result (if di_listener_task (sv_heap s ! i) then Some (await_task i) else None)),
     s\<lparr>sv_heap := (sv_heap s)[i := stopped (sv_heap s ! i)],
       sv_instances := alist_del name (sv_instances s)\<rparr>)"
proof -
  have i: "i < length (sv_heap s)" using daemon_ok_lookup[OF assms] by simp
  have task: "di_listener_task (mark_stopping x) = di_listener_task x" for x :: "'a DaemonInstance"
    by (simp add: mark_stopping_def)
  show ?thesis
    using i assms(2)
    by (simp add: stop_instance_def instance_for_def Let_def take_listener_def remove_same_def
        update_instance_def stopped_def task)
qed

lemma stop_instance_not_found:
  "map_of (sv_instances s) name = None \<Longrightarrow>
     stop_instance await_task name s = (op_error NotFound (''instance '' @ debug_str name @ '' was not found''), s)"
  by (simp add: stop_instance_def instance_for_def op_error_def)

lemma daemon_ok_stop_instance:
  assumes "daemon_ok s" shows "daemon_ok (snd (stop_instance await_task name s))"
proof (cases "map_of (sv_instances s) name")
  case None
  with assms show ?thesis by (simp add: stop_instance_not_found)
next
  case (Some i)
  then have i: "i < length (sv_heap s)" using daemon_ok_lookup[OF assms] by simp
  let ?s = "update_instance i (\<lambda>x. snd (take_listener x)) (update_instance i mark_stopping s)"
  have "daemon_ok ?s" by (intro daemon_intros assms)
  moreover have "di_state (sv_heap ?s ! i) \<noteq> Running"
    using i by (simp add: take_listener_def mark_stopping_def)
  ultimately have "daemon_ok (remove_same name i ?s)" by (blast intro: daemon_ok_remove)
  then show ?thesis using Some by (simp add: stop_instance_def instance_for_def Let_def)
qed

lemma daemon_ok_unregister_instance: "daemon_ok s \<Longrightarrow> daemon_ok (snd (unregister request s))"
  by (auto simp: unregister_def intro: daemon_ok_unregister split: sum.split)

lemma register_runtime_Some: "\<exists>r w'. register_runtime host request cancel w = Some (r, w')"
proof -
  have "\<exists>r w'. resolve_agent_config_from_registry_agent (rh_run host) agent args w = Some (r, w')"
    for agent args
    using resolve_agent_command_Some[of "rh_run host" agent args w]
    by (auto simp: resolve_agent_config_from_registry_agent_def)
  then show ?thesis
    by (auto simp: register_runtime_def Let_def case_prod_unfold split: sum.split) (metis prod.collapse)
qed

lemma register_Some:
  assumes "daemon_ok s"
  shows "\<exists>r s' w'. register host request (s, w) = Some (r, s', w') \<and> daemon_ok s'"
proof (cases "and_then (validate_register host request) (\<lambda>_.
           and_then (instance_for s (rq_name request)) (\<lambda>i.
           and_then (ensure_running (sv_heap s ! i)) (\<lambda>_. Inr i)))")
  case (Inl e)
  with assms show ?thesis by (simp add: register_def)
next
  case (Inr i)
  obtain r w' where "register_runtime host request (di_cancel (sv_heap s ! i)) w = Some (r, w')"
    using register_runtime_Some[of host request "di_cancel (sv_heap s ! i)" w] by auto
  with Inr assms daemon_ok_register[OF assms] show ?thesis
    by (cases r; cases "ensure_running (sv_heap s ! i)")
      (auto simp: register_def case_prod_unfold Let_def intro: daemon_ok_register)
qed

text \<open>
  Every request is answered and keeps the supervisor consistent: names are unique
  and name their own instances, every running instance can be reached by its name, and no
  two routes of an instance share an agent or a path. Once the daemon is shutting down, no
  request changes anything.
\<close>
lemma requests_keep_supervisor_consistent:
  assumes "daemon_ok s"
  shows "\<exists>response s' w'. handle_request host command (s, w) = Some (response, s', w')
    \<and> daemon_ok s' \<and> (sv_phase s = ShuttingDown \<longrightarrow> s' = s)"
proof (cases "is_mutation command \<and> sv_phase s \<noteq> PhaseRunning")
  case True
  with assms show ?thesis by (simp add: handle_request_def)
next
  case False
  then have phase: "sv_phase s = ShuttingDown \<Longrightarrow> \<not> is_mutation command" by auto
  show ?thesis
  proof (cases command)
    case (ReqCreateInstance r)
    with False phase daemon_ok_create_instance[OF assms] show ?thesis
      by (auto simp: handle_request_def is_mutation_def case_prod_unfold Let_def)
  next
    case (ReqStopInstance r)
    with False phase daemon_ok_stop_instance[OF assms] show ?thesis
      by (auto simp: handle_request_def is_mutation_def case_prod_unfold Let_def)
  next
    case (ReqRegister r)
    with False phase register_Some[OF assms, of "dh_register host" r w] show ?thesis
      by (auto simp: handle_request_def is_mutation_def)
  next
    case (ReqUnregister r)
    with False phase daemon_ok_unregister_instance[OF assms] show ?thesis
      by (auto simp: handle_request_def is_mutation_def case_prod_unfold Let_def)
  next
    case ReqShutdown
    with assms show ?thesis by (auto simp: handle_request_def is_mutation_def intro: daemon_ok_phase)
  qed (use assms in \<open>simp_all add: handle_request_def is_mutation_def\<close>)
qed

definition sample_create :: CreateInstanceRequest where
  "sample_create = \<lparr>ci_name = ''default'', ci_host = ''127.0.0.1'', ci_port = 8010\<rparr>"

definition sample_bind :: listener_bind where
  "sample_bind host port = Inr (Inr \<lparr>sa_ip = V4 127 0 0 1, sa_port = port\<rparr>)"

definition sample_supervisor :: "unit SupervisorState" where
  "sample_supervisor = snd (create_instance sample_bind sample_create SupervisorState_shared)"

lemma sample_supervisor_ok: "daemon_ok sample_supervisor"
  unfolding sample_supervisor_def by (rule daemon_ok_create_instance[OF daemon_ok_shared])

lemma sample_supervisor_created:
  "create_instance sample_bind sample_create SupervisorState_shared =
     (Inr (instance_result (new_instance sample_create \<lparr>sa_ip = V4 127 0 0 1, sa_port = 8010\<rparr>
             :: unit DaemonInstance) Running), sample_supervisor)"
  "sample_supervisor = add_instance sample_create \<lparr>sa_ip = V4 127 0 0 1, sa_port = 8010\<rparr> SupervisorState_shared"
proof -
  have "trim ''127.0.0.1'' \<noteq> []" by code_simp
  then have "validate_create sample_create = Inr ()"
    by (simp add: validate_create_def validate_name_def sample_create_def is_ascii_alphanumeric_def code_def)
  then have "create_instance sample_bind sample_create (SupervisorState_shared :: unit SupervisorState) =
     (Inr (instance_result (new_instance sample_create \<lparr>sa_ip = V4 127 0 0 1, sa_port = 8010\<rparr>
             :: unit DaemonInstance) Running),
      add_instance sample_create \<lparr>sa_ip = V4 127 0 0 1, sa_port = 8010\<rparr> SupervisorState_shared)"
    by (simp add: create_instance_def create_locked_def SupervisorState_shared_def sample_bind_def
        sample_create_def)
  then show "create_instance sample_bind sample_create SupervisorState_shared =
     (Inr (instance_result (new_instance sample_create \<lparr>sa_ip = V4 127 0 0 1, sa_port = 8010\<rparr>
             :: unit DaemonInstance) Running), sample_supervisor)"
    "sample_supervisor = add_instance sample_create \<lparr>sa_ip = V4 127 0 0 1, sa_port = 8010\<rparr> SupervisorState_shared"
    by (simp_all add: sample_supervisor_def)
qed

lemma sample_supervisor_entry:
  "map_of (sv_instances sample_supervisor) ''default'' = Some 0"
  "di_listener_task (sv_heap sample_supervisor ! 0)"
  by (simp_all add: sample_supervisor_created(2) add_instance_def new_instance_def sample_create_def
      SupervisorState_shared_def)

definition sample_register_host :: "(unit, unit, unit, unit) register_host" where
  "sample_register_host =
     \<lparr>rh_parse_uri = sample_build, rh_max_permits = 1000, rh_registry = Inr sample_registry,
      rh_yolo = Inl [''offline''],
      rh_run = \<lparr>rn_platform = Inr LinuxX86_64, rn_available = (\<lambda>_ _. Inr True),
                rn_cache_binary_target = (\<lambda>_ _ _ w. (Inl [''no cache''], w))\<rparr>,
      rh_runtime = (\<lambda>_ _ _. Inr \<lparr>rt_router = (), rt_health = AgentHealthState_default\<rparr>)\<rparr>"

definition sample_daemon_host :: "(unit, unit, unit, unit) daemon_host" where
  "sample_daemon_host =
     \<lparr>dh_bind = sample_bind, dh_join = (\<lambda>_. Finished (Inr ())), dh_register = sample_register_host\<rparr>"

theorem requests_keep_supervisor_consistent_witness:
  "\<exists>response s' w'. handle_request sample_daemon_host ReqShutdown (sample_supervisor, ())
      = Some (response, s', w') \<and> daemon_ok s'"
  using requests_keep_supervisor_consistent[OF sample_supervisor_ok, of sample_daemon_host ReqShutdown "()"]
  by blast

lemma create_instance_again:
  assumes "daemon_ok s" "create_instance bind request s = (Inr r, s')"
  shows "ir_state r = Running \<and> ir_name r = ci_name request \<and> status_instance s' (ci_name request) = Inr r"
    and "create_instance bind' request s' = (Inr r, s')"
    and "\<lbrakk>ci_name other = ci_name request; trim (ci_host other) \<noteq> [];
      (ci_host other, ci_port other) \<noteq> (ci_host request, ci_port request)\<rbrakk> \<Longrightarrow>
      \<exists>m. create_instance bind' other s' = (op_error Conflict m, s')"
proof -
  have valid: "validate_create request = Inr ()" and locked: "create_locked bind request s = (Inr r, s')"
    using assms(2) by (auto simp: create_instance_def split: sum.splits)
  then have name: "validate_name (ci_name request) = Inr ()"
    by (auto simp: validate_create_def split: sum.splits)
  have phase: "ensure_phase s = Inr ()"
    using locked by (cases "ensure_phase s") (auto simp: create_locked_def)
  obtain i where i: "map_of (sv_instances s') (ci_name request) = Some i"
    "di_state (sv_heap s' ! i) = Running" "di_requested_host (sv_heap s' ! i) = ci_host request"
    "di_requested_port (sv_heap s' ! i) = ci_port request" "di_name (sv_heap s' ! i) = ci_name request"
    "r = instance_result (sv_heap s' ! i) Running" "ensure_phase s' = Inr ()"
  proof (cases "map_of (sv_instances s) (ci_name request)")
    case None
    then obtain address where "s' = add_instance request address s"
      "r = instance_result (new_instance request address :: 'a DaemonInstance) Running"
      using locked phase by (auto simp: create_locked_def split: sum.splits)
    with that[of "length (sv_heap s)"] phase show thesis
      by (simp add: add_instance_def new_instance_def nth_append ensure_phase_def instance_result_def)
  next
    case (Some j)
    then have "s' = s" "di_state (sv_heap s ! j) = Running" "di_requested_host (sv_heap s ! j) = ci_host request"
      "di_requested_port (sv_heap s ! j) = ci_port request"
      "r = instance_result (sv_heap s ! j) (di_state (sv_heap s ! j))"
      using locked phase by (auto simp: create_locked_def Let_def split: if_splits)
    with Some that[of j] daemon_ok_lookup[OF assms(1) Some] phase show thesis by simp
  qed
  then show "ir_state r = Running \<and> ir_name r = ci_name request \<and> status_instance s' (ci_name request) = Inr r"
    by (simp add: status_instance_def instance_for_def instance_result_def)
  show "create_instance bind' request s' = (Inr r, s')"
    using i valid by (simp add: create_instance_def create_locked_def)
  show "\<exists>m. create_instance bind' other s' = (op_error Conflict m, s')"
    if "ci_name other = ci_name request" "trim (ci_host other) \<noteq> []"
      "(ci_host other, ci_port other) \<noteq> (ci_host request, ci_port request)"
    using that i name by (auto simp: create_instance_def create_locked_def validate_create_def)
qed

text \<open>
  Creating an instance is idempotent: a successful creation leaves a running
  instance under that name, the same request again answers the same without binding a
  second listener, and a request with another host or port for the name is a conflict.
\<close>
lemma create_instance_idempotent:
  assumes "daemon_ok s" "create_instance bind request s = (Inr r, s')"
  shows "ir_state r = Running \<and> ir_name r = ci_name request \<and> status_instance s' (ci_name request) = Inr r
    \<and> create_instance bind' request s' = (Inr r, s')
    \<and> (ci_name other = ci_name request \<and> trim (ci_host other) \<noteq> []
       \<and> (ci_host other, ci_port other) \<noteq> (ci_host request, ci_port request) \<longrightarrow>
       (\<exists>m. create_instance bind' other s' = (op_error Conflict m, s')))"
  using create_instance_again[OF assms] by blast

theorem create_instance_idempotent_witness:
  "\<exists>r. create_instance sample_bind sample_create SupervisorState_shared = (Inr r, sample_supervisor)
     \<and> create_instance (\<lambda>_ _. Inl ''in use'') sample_create sample_supervisor = (Inr r, sample_supervisor)"
proof -
  note r = sample_supervisor_created(1)
  from create_instance_idempotent[OF daemon_ok_shared r] r show ?thesis by blast
qed

text \<open>
  Stopping a named instance waits for its listener, reports the listener's error,
  takes the name out of the table and marks the instance as stopping, and leaves every other
  instance as it was; an unknown name is reported and changes nothing.
\<close>
lemma stop_removes_only_that_instance:
  assumes "daemon_ok s"
  shows "case map_of (sv_instances s) name of
      None \<Rightarrow> \<exists>m. stop_instance await_task name s = (op_error NotFound m, s)
    | Some i \<Rightarrow> \<exists>s'. stop_instance await_task name s =
          (stop_outcome (task_result (if di_listener_task (sv_heap s ! i) then Some (await_task i) else None)), s')
        \<and> map_of (sv_instances s') = (map_of (sv_instances s))(name := None)
        \<and> di_state (sv_heap s' ! i) = Stopping
        \<and> (\<forall>j. j \<noteq> i \<longrightarrow> sv_heap s' ! j = sv_heap s ! j) \<and> sv_phase s' = sv_phase s"
proof (cases "map_of (sv_instances s) name")
  case None
  then show ?thesis by (simp add: stop_instance_not_found)
next
  case (Some i)
  with daemon_ok_lookup[OF assms Some] show ?thesis
    by (simp add: stop_instance_found[OF assms Some])
qed

theorem stop_removes_only_that_instance_witness:
  "\<exists>s'. stop_instance (\<lambda>_. Finished (Inr ())) ''default'' sample_supervisor = (Inr (), s')
     \<and> map_of (sv_instances s') = (map_of (sv_instances sample_supervisor))(''default'' := None)"
proof -
  from stop_removes_only_that_instance[OF sample_supervisor_ok, where name = "''default''" and await_task = "\<lambda>_. Finished (Inr ())"]
  show ?thesis by (auto simp: task_result_def stop_outcome_def sample_supervisor_entry)
qed

lemma stop_names_all:
  assumes "daemon_ok s" "fst ` set (sv_instances s) \<subseteq> set names"
  shows "daemon_ok (stop_names await_task names s) \<and> sv_instances (stop_names await_task names s) = []
    \<and> sv_phase (stop_names await_task names s) = sv_phase s"
  using assms
proof (induction names arbitrary: s)
  case (Cons name names)
  let ?s = "snd (stop_instance await_task name s)"
  have ok: "daemon_ok ?s" by (rule daemon_ok_stop_instance[OF Cons.prems(1)])
  have "fst ` set (sv_instances ?s) \<subseteq> set names \<and> sv_phase ?s = sv_phase s"
  proof (cases "map_of (sv_instances s) name")
    case None
    with Cons.prems(2) show ?thesis
      by (auto simp: stop_instance_not_found map_of_eq_None_iff)
  next
    case (Some i)
    with Cons.prems(2) show ?thesis by (auto simp: stop_instance_found[OF Cons.prems(1) Some])
  qed
  with Cons.IH[OF ok] show ?case by simp
qed simp

text \<open>
  When the supervisor's loop ends, whatever ended it, every instance is stopped and
  out of the table and the daemon accepts no more work; the loop's own error is reported
  unless removing the socket fails, and an already missing socket is not an error.
\<close>
lemma supervisor_shutdown_stops_everything:
  assumes "daemon_ok s" "supervisor_shutdown await_task socket_path remove result s = (r, s')"
  shows "sv_instances s' = [] \<and> sv_phase s' = ShuttingDown
    \<and> (\<forall>x \<in> set (sv_heap s'). di_state x = Stopping)
    \<and> (r = result \<or> (\<exists>e. remove = Inl e \<and> io_kind e \<noteq> KNotFound \<and> \<not> is_ok r))"
proof -
  let ?s = "s\<lparr>sv_phase := ShuttingDown\<rparr>"
  have s': "s' = stop_names await_task (map fst (sv_instances ?s)) ?s"
    using assms(2) by (simp add: supervisor_shutdown_def stop_all_instances_def)
  have "daemon_ok ?s" using assms(1) by (rule daemon_ok_phase)
  from stop_names_all[OF this, of "map fst (sv_instances ?s)" await_task]
  have all: "daemon_ok s'" "sv_instances s' = []" "sv_phase s' = ShuttingDown"
    by (simp_all add: s')
  then have "\<forall>x \<in> set (sv_heap s'). di_state x = Stopping"
    by (auto simp: daemon_ok_def in_set_conv_nth simp flip: not_running_iff)
  with all assms(2) show ?thesis
    by (auto simp: supervisor_shutdown_def Let_def split: sum.splits if_splits)
qed

theorem supervisor_shutdown_stops_everything_witness:
  "\<exists>r s'. supervisor_shutdown (\<lambda>_. JoinError ''panic'') ''/run/daemon.sock'' (Inr ()) (Inr ()) sample_supervisor
     = (r, s') \<and> sv_instances s' = [] \<and> r = Inr ()"
proof -
  obtain r s' where e: "supervisor_shutdown (\<lambda>_. JoinError ''panic'') ''/run/daemon.sock'' (Inr ()) (Inr ())
      sample_supervisor = (r, s')" by fastforce
  with supervisor_shutdown_stops_everything[OF sample_supervisor_ok e] show ?thesis by auto
qed

end
