(* ===== verification/Daemon_Concurrency.thy ===== *)
theory Daemon_Concurrency
  imports Daemon
begin

text \<open>
  The requests of the daemon run concurrently, one task per connection
  (\<open>run_supervisor_loop\<close> spawns them), and share the supervisor. A task is at one of the
  points between two \<open>await\<close>s of its handler; a step runs one critical section of
  \<open>Daemon\<close>. The supervisor's mutex, the mutex of an instance's state and the lock of its
  routes are held within one section only; \<open>stop_lock\<close> is held over several and is part of
  the instance.
\<close>

section \<open>Tasks\<close>

datatype 'r pc =
    CreateLocked CreateInstanceRequest
  | StopLookup string
  | StopLock string nat
  | StopMark string nat
  | StopTake string nat
  | StopAwait string nat bool
  | StopRemove string nat "unit result"
  | RegLookup RegisterRequest
  | RegCheck RegisterRequest nat
  | RegResolve RegisterRequest nat
  | RegLock RouteKey "'r RouteRuntime" nat
  | RegRecheck RouteKey "'r RouteRuntime" nat
  | RegCommit RouteKey "'r RouteRuntime" nat
  | UnregLookup UnregisterRequest
  | UnregLock UnregisterRequest nat
  | UnregRecheck UnregisterRequest nat
  | UnregCommit UnregisterRequest nat
  | SetShutdown
  | Done

definition lock_instance :: "nat \<Rightarrow> nat \<Rightarrow> 'r SupervisorState \<Rightarrow> 'r SupervisorState" where
  "lock_instance t i = update_instance i (\<lambda>x. x\<lparr>di_stop_lock := Some t\<rparr>)"

definition unlock_instance :: "nat \<Rightarrow> 'r SupervisorState \<Rightarrow> 'r SupervisorState" where
  "unlock_instance i = update_instance i (\<lambda>x. x\<lparr>di_stop_lock := None\<rparr>)"

text \<open>
  One section of task \<open>t\<close>. A lock step is possible only while the mutex is free. Resolving an
  agent and the end of a listener have any outcome that their models allow.
\<close>

inductive pc_step ::
    "listener_bind \<Rightarrow> ('v, 'w, 'l, 'r) register_host \<Rightarrow> nat \<Rightarrow> 'r pc \<Rightarrow> 'r SupervisorState
     \<Rightarrow> 'r pc \<Rightarrow> 'r SupervisorState \<Rightarrow> bool"
  for bind host t where
  create: "pc_step bind host t (CreateLocked req) s Done (snd (create_locked bind req s))"
| stop_lookup: "map_of (sv_instances s) name = Some i \<Longrightarrow>
    pc_step bind host t (StopLookup name) s (StopLock name i) s"
| stop_missing: "map_of (sv_instances s) name = None \<Longrightarrow>
    pc_step bind host t (StopLookup name) s Done s"
| stop_lock: "di_stop_lock (sv_heap s ! i) = None \<Longrightarrow>
    pc_step bind host t (StopLock name i) s (StopMark name i) (lock_instance t i s)"
| stop_mark: "pc_step bind host t (StopMark name i) s (StopTake name i) (update_instance i mark_stopping s)"
| stop_take: "pc_step bind host t (StopTake name i) s
    (StopAwait name i (fst (take_listener (sv_heap s ! i))))
    (update_instance i (\<lambda>x. snd (take_listener x)) s)"
| stop_await: "pc_step bind host t (StopAwait name i taken) s
    (StopRemove name i (task_result (if taken then Some task_end else None))) s"
| stop_remove: "pc_step bind host t (StopRemove name i r) s Done (unlock_instance i (remove_same name i s))"
| reg_lookup: "map_of (sv_instances s) (rq_name req) = Some i \<Longrightarrow>
    pc_step bind host t (RegLookup req) s (RegCheck req i) s"
| reg_missing: "map_of (sv_instances s) (rq_name req) = None \<Longrightarrow>
    pc_step bind host t (RegLookup req) s Done s"
| reg_check: "pc_step bind host t (RegCheck req i) s
    (case ensure_running (sv_heap s ! i) of Inl _ \<Rightarrow> Done | Inr _ \<Rightarrow> RegResolve req i) s"
| reg_resolve: "register_runtime host req (di_cancel (sv_heap s ! i)) w = Some (r, w') \<Longrightarrow>
    pc_step bind host t (RegResolve req i) s
      (case r of Inl _ \<Rightarrow> Done | Inr runtime \<Rightarrow> RegLock (request_key req) runtime i) s"
| reg_lock: "di_stop_lock (sv_heap s ! i) = None \<Longrightarrow>
    pc_step bind host t (RegLock k runtime i) s (RegRecheck k runtime i) (lock_instance t i s)"
| reg_recheck: "ensure_running (sv_heap s ! i) = Inr () \<Longrightarrow>
    pc_step bind host t (RegRecheck k runtime i) s (RegCommit k runtime i) s"
| reg_late: "ensure_running (sv_heap s ! i) = Inl e \<Longrightarrow>
    pc_step bind host t (RegRecheck k runtime i) s Done (unlock_instance i s)"
| reg_commit: "pc_step bind host t (RegCommit k runtime i) s Done
    (unlock_instance i (snd (register_locked k runtime i s)))"
| unreg_lookup: "map_of (sv_instances s) (ur_name ureq) = Some i \<Longrightarrow>
    pc_step bind host t (UnregLookup ureq) s (UnregLock ureq i) s"
| unreg_missing: "map_of (sv_instances s) (ur_name ureq) = None \<Longrightarrow>
    pc_step bind host t (UnregLookup ureq) s Done s"
| unreg_lock: "di_stop_lock (sv_heap s ! i) = None \<Longrightarrow>
    pc_step bind host t (UnregLock ureq i) s (UnregRecheck ureq i) (lock_instance t i s)"
| unreg_recheck: "ensure_running (sv_heap s ! i) = Inr () \<Longrightarrow>
    pc_step bind host t (UnregRecheck ureq i) s (UnregCommit ureq i) s"
| unreg_late: "ensure_running (sv_heap s ! i) = Inl e \<Longrightarrow>
    pc_step bind host t (UnregRecheck ureq i) s Done (unlock_instance i s)"
| unreg_commit: "pc_step bind host t (UnregCommit ureq i) s Done
    (unlock_instance i (snd (unregister_locked ureq i s)))"
| set_shutdown: "pc_step bind host t SetShutdown s Done (s\<lparr>sv_phase := ShuttingDown\<rparr>)"

text \<open>
  Where a task starts: the phase check of \<open>handle_request\<close> and the validation of the request
  come first. Stops also come from \<open>stop_all_instances\<close>, in any phase.
\<close>

fun can_start :: "('v, 'w, 'l, 'r) register_host \<Rightarrow> 'r pc \<Rightarrow> 'r SupervisorState \<Rightarrow> bool" where
  "can_start host (CreateLocked req) s = (sv_phase s = PhaseRunning \<and> validate_create req = Inr ())"
| "can_start host (StopLookup name) s = True"
| "can_start host (RegLookup req) s = (sv_phase s = PhaseRunning \<and> validate_register host req = Inr ())"
| "can_start host (UnregLookup ureq) s = (sv_phase s = PhaseRunning \<and> validate_unregister ureq = Inr ())"
| "can_start host SetShutdown s = True"
| "can_start host _ s = False"

record 'r daemon_system =
  ds_sup :: "'r SupervisorState"
  ds_tasks :: "(nat \<times> 'r pc) list"

definition daemon_init :: "'r daemon_system" where
  "daemon_init = \<lparr>ds_sup = SupervisorState_shared, ds_tasks = []\<rparr>"

inductive daemon_step ::
    "listener_bind \<Rightarrow> ('v, 'w, 'l, 'r) register_host \<Rightarrow> 'r daemon_system \<Rightarrow> 'r daemon_system \<Rightarrow> bool"
  for bind host where
  spawn: "map_of (ds_tasks s) t = None \<Longrightarrow> can_start host pc (ds_sup s) \<Longrightarrow>
    daemon_step bind host s (s\<lparr>ds_tasks := (t, pc) # ds_tasks s\<rparr>)"
| run: "map_of (ds_tasks s) t = Some pc \<Longrightarrow> pc_step bind host t pc (ds_sup s) pc' s' \<Longrightarrow>
    daemon_step bind host s (s\<lparr>ds_sup := s', ds_tasks := alist_put t pc' (ds_tasks s)\<rparr>)"

section \<open>What a task relies on\<close>

text \<open>The instance a task refers to, the one whose \<open>stop_lock\<close> it holds, and the state it
  knows that instance to have.\<close>

fun pc_index :: "'r pc \<Rightarrow> nat option" where
  "pc_index (StopLock name i) = Some i"
| "pc_index (StopMark name i) = Some i"
| "pc_index (StopTake name i) = Some i"
| "pc_index (StopAwait name i taken) = Some i"
| "pc_index (StopRemove name i r) = Some i"
| "pc_index (RegCheck req i) = Some i"
| "pc_index (RegResolve req i) = Some i"
| "pc_index (RegLock k runtime i) = Some i"
| "pc_index (RegRecheck k runtime i) = Some i"
| "pc_index (RegCommit k runtime i) = Some i"
| "pc_index (UnregLock ureq i) = Some i"
| "pc_index (UnregRecheck ureq i) = Some i"
| "pc_index (UnregCommit ureq i) = Some i"
| "pc_index _ = None"

fun pc_holds :: "'r pc \<Rightarrow> nat option" where
  "pc_holds (StopMark name i) = Some i"
| "pc_holds (StopTake name i) = Some i"
| "pc_holds (StopAwait name i taken) = Some i"
| "pc_holds (StopRemove name i r) = Some i"
| "pc_holds (RegRecheck k runtime i) = Some i"
| "pc_holds (RegCommit k runtime i) = Some i"
| "pc_holds (UnregRecheck ureq i) = Some i"
| "pc_holds (UnregCommit ureq i) = Some i"
| "pc_holds _ = None"

fun pc_expects :: "'r pc \<Rightarrow> (nat \<times> InstanceState) option" where
  "pc_expects (StopTake name i) = Some (i, Stopping)"
| "pc_expects (StopAwait name i taken) = Some (i, Stopping)"
| "pc_expects (StopRemove name i r) = Some (i, Stopping)"
| "pc_expects (RegCommit k runtime i) = Some (i, Running)"
| "pc_expects (UnregCommit ureq i) = Some (i, Running)"
| "pc_expects _ = None"

definition task_ok :: "nat \<Rightarrow> 'r pc \<Rightarrow> 'r SupervisorState \<Rightarrow> bool" where
  "task_ok t pc s \<longleftrightarrow>
     (\<forall>i. pc_index pc = Some i \<longrightarrow> i < length (sv_heap s))
     \<and> (\<forall>i. pc_holds pc = Some i \<longrightarrow> di_stop_lock (sv_heap s ! i) = Some t)
     \<and> (\<forall>i st. pc_expects pc = Some (i, st) \<longrightarrow> di_state (sv_heap s ! i) = st)"

lemma pc_holds_index: "pc_holds pc = Some i \<Longrightarrow> pc_index pc = Some i"
  by (cases pc) auto

lemma pc_expects_holds: "pc_expects pc = Some (i, st) \<Longrightarrow> pc_holds pc = Some i"
  by (cases pc) auto

lemma remove_same_fields [simp]:
  "sv_heap (remove_same name i s) = sv_heap s" "sv_phase (remove_same name i s) = sv_phase s"
  by (simp_all add: remove_same_def)

text \<open>The effect of the locked parts on the heap.\<close>

lemma create_locked_heap:
  "\<exists>news. sv_heap (snd (create_locked bind req s)) = sv_heap s @ news
     \<and> (sv_phase s = ShuttingDown \<longrightarrow> snd (create_locked bind req s) = s)
     \<and> sv_phase (snd (create_locked bind req s)) = sv_phase s"
  by (rule create_locked_cases[of bind req s]) (auto simp: add_instance_def)

lemma register_locked_effect:
  "snd (register_locked k runtime i s) = s
   \<or> sv_phase s = PhaseRunning
     \<and> (\<exists>routes. snd (register_locked k runtime i s) = update_instance i (\<lambda>x. x\<lparr>di_routes := routes\<rparr>) s)"
  by (auto simp: register_locked_def and_then_eq_Inr split: sum.split)

lemma unregister_locked_effect:
  "snd (unregister_locked ureq i s) = s
   \<or> sv_phase s = PhaseRunning
     \<and> (\<exists>routes. snd (unregister_locked ureq i s) = update_instance i (\<lambda>x. x\<lparr>di_routes := routes\<rparr>) s)"
  by (auto simp: unregister_locked_def and_then_eq_Inr split: sum.split)

lemma daemon_ok_lock [daemon_intros]: "daemon_ok s \<Longrightarrow> daemon_ok (lock_instance t i s)"
  and daemon_ok_unlock [daemon_intros]: "daemon_ok s \<Longrightarrow> daemon_ok (unlock_instance i s)"
  unfolding lock_instance_def unlock_instance_def by (auto intro: daemon_ok_update)

lemma heap_update_nth:
  "sv_heap (update_instance i f s) ! j =
     (if j = i \<and> i < length (sv_heap s) then f (sv_heap s ! i) else sv_heap s ! j)"
  by (cases "i < length (sv_heap s)") (auto simp: update_instance_def list_update_beyond)

lemma routes_update_fields:
  assumes "s' = s \<or> P \<and> (\<exists>routes. s' = update_instance i (\<lambda>x. x\<lparr>di_routes := routes\<rparr>) s)"
  shows "length (sv_heap s') = length (sv_heap s)" "sv_instances s' = sv_instances s" "sv_phase s' = sv_phase s"
    "di_state (sv_heap s' ! j) = di_state (sv_heap s ! j)"
    "di_stop_lock (sv_heap s' ! j) = di_stop_lock (sv_heap s ! j)"
    "j \<noteq> i \<Longrightarrow> sv_heap s' ! j = sv_heap s ! j"
    "\<not> P \<Longrightarrow> s' = s"
  using assms by (auto simp: heap_update_nth)

text \<open>Own step: the invariant and the task's own knowledge.\<close>

lemma pc_step_own:
  assumes "pc_step bind host t pc s pc' s'" "daemon_ok s" "task_ok t pc s"
  shows "daemon_ok s' \<and> task_ok t pc' s'"
  using assms
proof (induction rule: pc_step.induct)
  case (stop_lookup s name i)
  with daemon_ok_lookup[OF stop_lookup(2,1)] show ?case by (simp add: task_ok_def)
next
  case (stop_remove name i r s)
  then have "daemon_ok (remove_same name i s)"
    by (intro daemon_ok_remove) (simp_all add: task_ok_def)
  then show ?case by (simp add: task_ok_def daemon_ok_unlock)
next
  case (reg_lookup s req i)
  with daemon_ok_lookup[OF reg_lookup(2,1)] show ?case by (simp add: task_ok_def)
next
  case (unreg_lookup s ureq i)
  with daemon_ok_lookup[OF unreg_lookup(2,1)] show ?case by (simp add: task_ok_def)
next
  case (stop_lock s i name)
  then show ?case by (simp add: task_ok_def daemon_ok_lock) (simp add: lock_instance_def)
next
  case (reg_lock s i k runtime)
  then show ?case by (simp add: task_ok_def daemon_ok_lock) (simp add: lock_instance_def)
next
  case (unreg_lock s i ureq)
  then show ?case by (simp add: task_ok_def daemon_ok_lock) (simp add: lock_instance_def)
next
  case (stop_mark name i s)
  then show ?case
    by (simp add: task_ok_def daemon_ok_mark) (simp add: mark_stopping_def not_running_iff)
next
  case (stop_take name i s)
  then show ?case by (simp add: task_ok_def daemon_ok_take) (simp add: take_listener_def)
next
  case (reg_check req i s)
  then show ?case by (simp add: task_ok_def split: sum.split)
next
  case (reg_resolve req s i w r w')
  then show ?case by (simp add: task_ok_def split: sum.split)
qed (simp_all add: task_ok_def daemon_intros)

text \<open>
  The effect of a step on any instance \<open>j\<close>: its lock is taken or released only by the task
  itself, its state changes only under its lock, and a stopping instance does not change.
\<close>

lemmas section_defs = lock_instance_def unlock_instance_def heap_update_nth

lemma pc_step_lock:
  assumes "pc_step bind host t pc s pc' s'" "task_ok t pc s" "j < length (sv_heap s)"
  shows "j < length (sv_heap s') \<and>
    (di_stop_lock (sv_heap s' ! j) = di_stop_lock (sv_heap s ! j) \<and> (pc_holds pc = Some j \<longleftrightarrow> pc_holds pc' = Some j)
     \<or> di_stop_lock (sv_heap s ! j) = None \<and> di_stop_lock (sv_heap s' ! j) = Some t \<and> pc_holds pc' = Some j
     \<or> pc_holds pc = Some j \<and> di_stop_lock (sv_heap s' ! j) = None)"
  using assms
proof (induction rule: pc_step.induct)
  case (create req s)
  with create_locked_heap[of bind req s] show ?case by (auto simp: nth_append)
next
  case (reg_commit k runtime i s)
  with routes_update_fields[OF register_locked_effect[of k runtime i s]] show ?case
    by (auto simp: section_defs task_ok_def)
next
  case (unreg_commit ureq i s)
  with routes_update_fields[OF unregister_locked_effect[of ureq i s]] show ?case
    by (auto simp: section_defs task_ok_def)
qed (auto simp: section_defs mark_stopping_def take_listener_def task_ok_def split: sum.split)

lemma pc_step_state:
  assumes "pc_step bind host t pc s pc' s'" "j < length (sv_heap s)" "pc_holds pc \<noteq> Some j"
  shows "di_state (sv_heap s' ! j) = di_state (sv_heap s ! j)"
  using assms
proof (induction rule: pc_step.induct)
  case (create req s)
  with create_locked_heap[of bind req s] show ?case by (auto simp: nth_append)
next
  case (reg_commit k runtime i s)
  with routes_update_fields[OF register_locked_effect[of k runtime i s]] show ?case
    by (auto simp: section_defs)
next
  case (unreg_commit ureq i s)
  with routes_update_fields[OF unregister_locked_effect[of ureq i s]] show ?case
    by (auto simp: section_defs)
qed (auto simp: section_defs take_listener_def)

lemma pc_step_frozen:
  assumes "pc_step bind host t pc s pc' s'" "task_ok t pc s" "j < length (sv_heap s)"
    "di_state (sv_heap s ! j) = Stopping"
  shows "di_state (sv_heap s' ! j) = Stopping \<and> di_routes (sv_heap s' ! j) = di_routes (sv_heap s ! j)"
  using assms
proof (induction rule: pc_step.induct)
  case (create req s)
  with create_locked_heap[of bind req s] show ?case by (auto simp: nth_append)
next
  case (reg_commit k runtime i s)
  then have "i \<noteq> j" by (auto simp: task_ok_def)
  with reg_commit routes_update_fields[OF register_locked_effect[of k runtime i s]] show ?case
    by (auto simp: section_defs)
next
  case (unreg_commit ureq i s)
  then have "i \<noteq> j" by (auto simp: task_ok_def)
  with unreg_commit routes_update_fields[OF unregister_locked_effect[of ureq i s]] show ?case
    by (auto simp: section_defs)
qed (auto simp: section_defs take_listener_def mark_stopping_def)

lemma pc_step_shut:
  assumes "pc_step bind host t pc s pc' s'" "sv_phase s = ShuttingDown"
  shows "sv_phase s' = ShuttingDown \<and> length (sv_heap s') = length (sv_heap s)
    \<and> set (sv_instances s') \<subseteq> set (sv_instances s)
    \<and> (\<forall>j < length (sv_heap s). di_routes (sv_heap s' ! j) = di_routes (sv_heap s ! j))"
  using assms
proof (induction rule: pc_step.induct)
  case (create req s)
  with create_locked_heap[of bind req s] show ?case by auto
next
  case (reg_commit k runtime i s)
  with register_locked_effect[of k runtime i s] show ?case by (auto simp: section_defs)
next
  case (unreg_commit ureq i s)
  with unregister_locked_effect[of ureq i s] show ?case by (auto simp: section_defs)
qed (auto simp: section_defs take_listener_def mark_stopping_def remove_same_def set_alist_del)

text \<open>Another task's knowledge survives.\<close>

lemma pc_step_other:
  assumes step: "pc_step bind host t pc s pc' s'" and own: "task_ok t pc s"
    and other: "task_ok u q s" and ne: "u \<noteq> t"
  shows "task_ok u q s'"
  unfolding task_ok_def
proof (intro conjI allI impI)
  fix i
  assume "pc_index q = Some i"
  with other have "i < length (sv_heap s)" by (simp add: task_ok_def)
  with pc_step_lock[OF step own this] show "i < length (sv_heap s')" by simp
next
  fix i
  assume q: "pc_holds q = Some i"
  with other have i: "i < length (sv_heap s)" "di_stop_lock (sv_heap s ! i) = Some u"
    using pc_holds_index[OF q] by (simp_all add: task_ok_def)
  have "pc_holds pc \<noteq> Some i" using own i ne by (auto simp: task_ok_def)
  with pc_step_lock[OF step own i(1)] i show "di_stop_lock (sv_heap s' ! i) = Some u" by auto
next
  fix i st
  assume q: "pc_expects q = Some (i, st)"
  then have h: "pc_holds q = Some i" by (rule pc_expects_holds)
  with other have i: "i < length (sv_heap s)" "di_stop_lock (sv_heap s ! i) = Some u"
    "di_state (sv_heap s ! i) = st"
    using pc_holds_index[OF h] q by (simp_all add: task_ok_def)
  have "pc_holds pc \<noteq> Some i" using own i ne by (auto simp: task_ok_def)
  with pc_step_state[OF step i(1)] i show "di_state (sv_heap s' ! i) = st" by simp
qed

section \<open>The invariant of all interleavings\<close>

definition system_ok :: "'r daemon_system \<Rightarrow> bool" where
  "system_ok s \<longleftrightarrow>
     daemon_ok (ds_sup s)
     \<and> (\<forall>t pc. map_of (ds_tasks s) t = Some pc \<longrightarrow> task_ok t pc (ds_sup s))
     \<and> (\<forall>i u. i < length (sv_heap (ds_sup s)) \<longrightarrow> di_stop_lock (sv_heap (ds_sup s) ! i) = Some u \<longrightarrow>
          (\<exists>pc. map_of (ds_tasks s) u = Some pc \<and> pc_holds pc = Some i))"

lemma can_start_ok:
  "can_start host pc s \<Longrightarrow> task_ok t pc s \<and> pc_holds pc = None"
  by (cases pc) (auto simp: task_ok_def)

lemma new_instances_unlocked:
  assumes "pc_step bind host t pc s pc' s'" "length (sv_heap s) \<le> j" "j < length (sv_heap s')"
  shows "di_stop_lock (sv_heap s' ! j) = None"
  using assms
proof (induction rule: pc_step.induct)
  case (create req s)
  then show ?case
    by (cases rule: create_locked_cases[of bind req s])
      (auto simp: add_instance_def new_instance_def nth_append)
next
  case (reg_commit k runtime i s)
  with routes_update_fields[OF register_locked_effect[of k runtime i s]] show ?case
    by (auto simp: section_defs)
next
  case (unreg_commit ureq i s)
  with routes_update_fields[OF unregister_locked_effect[of ureq i s]] show ?case
    by (auto simp: section_defs)
qed (auto simp: section_defs)

lemma daemon_step_ok: "daemon_step bind host s t \<Longrightarrow> system_ok s \<Longrightarrow> system_ok t"
proof (induction rule: daemon_step.induct)
  case (spawn s t pc)
  have "task_ok t pc (ds_sup s)" using can_start_ok[OF spawn(2)] by blast
  with spawn show ?case by (fastforce simp: system_ok_def)
next
  case (run s t pc pc' s')
  have own: "task_ok t pc (ds_sup s)" and ok: "daemon_ok (ds_sup s)"
    using run by (auto simp: system_ok_def)
  from pc_step_own[OF run(2) ok own] have "daemon_ok s'" "task_ok t pc' s'" by auto
  moreover have "task_ok u q s'" if "u \<noteq> t" "map_of (ds_tasks s) u = Some q" for u q
    using pc_step_other[OF run(2) own _ that(1)] that(2) run(3) by (auto simp: system_ok_def)
  moreover have "\<exists>q. map_of (alist_put t pc' (ds_tasks s)) u = Some q \<and> pc_holds q = Some i"
    if i: "i < length (sv_heap s')" and lock: "di_stop_lock (sv_heap s' ! i) = Some u" for i u
  proof (cases "i < length (sv_heap (ds_sup s))")
    case False
    with new_instances_unlocked[OF run(2) _ i] lock show ?thesis by simp
  next
    case True
    from pc_step_lock[OF run(2) own True] lock
    consider "di_stop_lock (sv_heap (ds_sup s) ! i) = Some u" "pc_holds pc = Some i \<longleftrightarrow> pc_holds pc' = Some i"
      | "u = t" "pc_holds pc' = Some i" by auto
    then show ?thesis
    proof cases
      case 1
      from 1(1) True run(3) obtain q where "map_of (ds_tasks s) u = Some q" "pc_holds q = Some i"
        unfolding system_ok_def by blast
      with 1 run(1) show ?thesis by auto
    qed simp
  qed
  ultimately show ?case by (simp add: system_ok_def)
qed

lemma daemon_init_ok: "s = daemon_init \<Longrightarrow> system_ok s"
  using daemon_ok_shared by (simp add: system_ok_def daemon_init_def SupervisorState_shared_def)

interpretation daemon: invariant_machine "\<lambda>s. s = daemon_init" "daemon_step bind host" system_ok
  for bind host
  by unfold_locales (rule daemon_init_ok, assumption, rule daemon_step_ok)

abbreviation daemon_reachable ::
    "listener_bind \<Rightarrow> ('v, 'w, 'l, 'r) register_host \<Rightarrow> 'r daemon_system \<Rightarrow> bool" where
  "daemon_reachable bind host \<equiv> reach (\<lambda>s. s = daemon_init) (daemon_step bind host)"

text \<open>
  Property C4: however the requests interleave, the supervisor stays consistent (unique names,
  no orphaned running instance, unique agents and routes per instance), and no two requests
  are in a section that changes the same instance's life or routes at once.
\<close>
theorem concurrent_requests_consistent:
  assumes "daemon_reachable bind host s"
  shows "daemon_ok (ds_sup s)
    \<and> (\<forall>t u p q i. map_of (ds_tasks s) t = Some p \<and> map_of (ds_tasks s) u = Some q
         \<and> pc_holds p = Some i \<and> pc_holds q = Some i \<longrightarrow> t = u)"
proof -
  have ok: "system_ok s" using assms by (rule daemon.inv_reach)
  then have "t = u" if "map_of (ds_tasks s) t = Some p" "map_of (ds_tasks s) u = Some q"
    "pc_holds p = Some i" "pc_holds q = Some i" for t u p q i
    using that unfolding system_ok_def task_ok_def by (metis option.inject)
  with ok show ?thesis by (auto simp: system_ok_def)
qed

text \<open>
  Property C13: once an instance is stopping it never runs again and its routes are frozen: no
  interleaving of a registration with a stop adds or removes a route afterwards. After the
  daemon has begun to shut down, no instance is created and no route changes anywhere.
\<close>
theorem stopping_is_final:
  assumes "daemon_reachable bind host s" "daemon_step bind host s t" "i < length (sv_heap (ds_sup s))"
  shows "(di_state (sv_heap (ds_sup s) ! i) = Stopping \<longrightarrow>
      di_state (sv_heap (ds_sup t) ! i) = Stopping
      \<and> di_routes (sv_heap (ds_sup t) ! i) = di_routes (sv_heap (ds_sup s) ! i))
    \<and> (sv_phase (ds_sup s) = ShuttingDown \<longrightarrow>
      sv_phase (ds_sup t) = ShuttingDown \<and> length (sv_heap (ds_sup t)) = length (sv_heap (ds_sup s))
      \<and> set (sv_instances (ds_sup t)) \<subseteq> set (sv_instances (ds_sup s))
      \<and> di_routes (sv_heap (ds_sup t) ! i) = di_routes (sv_heap (ds_sup s) ! i))"
  using assms(2)
proof cases
  case (run u pc pc' s')
  have "system_ok s" using assms(1) by (rule daemon.inv_reach)
  with run(2) have "task_ok u pc (ds_sup s)" by (simp add: system_ok_def)
  with pc_step_frozen[OF run(3) this assms(3)] pc_step_shut[OF run(3)] run(1) assms(3)
  show ?thesis by simp
qed simp

section \<open>Progress\<close>

text \<open>A task that is not waiting for a \<open>stop_lock\<close> can take its next section.\<close>

fun waits_for :: "'r pc \<Rightarrow> nat option" where
  "waits_for (StopLock name i) = Some i"
| "waits_for (RegLock k runtime i) = Some i"
| "waits_for (UnregLock ureq i) = Some i"
| "waits_for _ = None"

lemma pc_step_enabled:
  assumes "pc \<noteq> Done" "\<And>i. waits_for pc = Some i \<Longrightarrow> di_stop_lock (sv_heap s ! i) = None"
  shows "\<exists>pc' s'. pc_step bind host t pc s pc' s'"
proof (cases pc)
  case (StopLookup name)
  then show ?thesis by (cases "map_of (sv_instances s) name") (auto intro: pc_step.intros)
next
  case (RegLookup req)
  then show ?thesis by (cases "map_of (sv_instances s) (rq_name req)") (auto intro: pc_step.intros)
next
  case (UnregLookup ureq)
  then show ?thesis by (cases "map_of (sv_instances s) (ur_name ureq)") (auto intro: pc_step.intros)
next
  case (RegResolve req i)
  from register_runtime_Some[of host req "di_cancel (sv_heap s ! i)" undefined]
  show ?thesis unfolding RegResolve by (blast intro: pc_step.reg_resolve)
next
  case (RegRecheck k runtime i)
  then show ?thesis
    using pc_step.reg_recheck pc_step.reg_late by (metis (full_types) old.unit.exhaust sum.exhaust)
next
  case (UnregRecheck ureq i)
  then show ?thesis
    using pc_step.unreg_recheck pc_step.unreg_late by (metis (full_types) old.unit.exhaust sum.exhaust)
qed (use assms in \<open>auto intro: pc_step.intros\<close>)


section \<open>A concrete interleaving\<close>

text \<open>
  Task 0 creates an instance, task 1 stops it: after its lock is granted the instance is marked
  as stopping.
\<close>

definition stopping_sup :: "unit SupervisorState" where
  "stopping_sup = update_instance 0 mark_stopping (lock_instance 1 0 sample_supervisor)"

definition stopping_system :: "unit daemon_system" where
  "stopping_system =
     \<lparr>ds_sup = stopping_sup, ds_tasks = [(1, StopTake ''default'' 0), (0, Done)]\<rparr>"

lemma sample_create_locked:
  "snd (create_locked sample_bind sample_create SupervisorState_shared) = sample_supervisor"
  using sample_supervisor_created(1)
  by (auto simp: create_instance_def sample_supervisor_def split: sum.splits)

abbreviation sample_system :: "unit SupervisorState \<Rightarrow> (nat \<times> unit pc) list \<Rightarrow> unit daemon_system" where
  "sample_system sv tasks \<equiv> \<lparr>ds_sup = sv, ds_tasks = tasks\<rparr>"

abbreviation sample_step :: "unit daemon_system \<Rightarrow> unit daemon_system \<Rightarrow> bool" where
  "sample_step \<equiv> daemon_step sample_bind sample_register_host"

lemma sample_run:
  assumes "pc_step sample_bind sample_register_host t pc sv pc' sv'"
    and "map_of tasks t = Some pc" "tasks' = alist_put t pc' tasks"
  shows "sample_step (sample_system sv tasks) (sample_system sv' tasks')"
  using daemon_step.run[of "sample_system sv tasks" t pc sample_bind sample_register_host pc' sv'] assms
  by simp

lemma sample_spawn:
  assumes "map_of tasks t = None" "can_start sample_register_host pc sv"
  shows "sample_step (sample_system sv tasks) (sample_system sv ((t, pc) # tasks))"
  using daemon_step.spawn[of "sample_system sv tasks" t sample_register_host pc sample_bind] assms
  by simp

lemma sample_steps:
  "sample_step (sample_system SupervisorState_shared []) (sample_system SupervisorState_shared [(0, CreateLocked sample_create)])"
  "sample_step (sample_system SupervisorState_shared [(0, CreateLocked sample_create)])
     (sample_system sample_supervisor [(0, Done)])"
  "sample_step (sample_system sample_supervisor [(0, Done)])
     (sample_system sample_supervisor [(1, StopLookup ''default''), (0, Done)])"
  "sample_step (sample_system sample_supervisor [(1, StopLookup ''default''), (0, Done)])
     (sample_system sample_supervisor [(1, StopLock ''default'' 0), (0, Done)])"
  "sample_step (sample_system sample_supervisor [(1, StopLock ''default'' 0), (0, Done)])
     (sample_system (lock_instance 1 0 sample_supervisor) [(1, StopMark ''default'' 0), (0, Done)])"
  "sample_step (sample_system (lock_instance 1 0 sample_supervisor) [(1, StopMark ''default'' 0), (0, Done)])
     stopping_system"
proof -
  have "validate_create sample_create = Inr ()"
    using sample_supervisor_created(1) by (auto simp: create_instance_def split: sum.splits)
  then show "sample_step (sample_system SupervisorState_shared [])
      (sample_system SupervisorState_shared [(0, CreateLocked sample_create)])"
    by (intro sample_spawn) (simp_all add: SupervisorState_shared_def)
  show "sample_step (sample_system SupervisorState_shared [(0, CreateLocked sample_create)])
     (sample_system sample_supervisor [(0, Done)])"
    using sample_run[where t = 0, OF pc_step.create[where req = sample_create and s = SupervisorState_shared],
        unfolded sample_create_locked, of "[(0, CreateLocked sample_create)]" "[(0, Done)]"]
    by (simp add: alist_put_def alist_del_def)
  show "sample_step (sample_system sample_supervisor [(0, Done)])
     (sample_system sample_supervisor [(1, StopLookup ''default''), (0, Done)])"
    by (rule sample_spawn) simp_all
  show "sample_step (sample_system sample_supervisor [(1, StopLookup ''default''), (0, Done)])
     (sample_system sample_supervisor [(1, StopLock ''default'' 0), (0, Done)])"
    by (rule sample_run[where t = 1, OF pc_step.stop_lookup[OF sample_supervisor_entry(1)]])
      (simp_all add: alist_put_def alist_del_def)
  have "di_stop_lock (sv_heap sample_supervisor ! 0) = None"
    by (simp add: sample_supervisor_created(2) add_instance_def new_instance_def SupervisorState_shared_def)
  then show "sample_step (sample_system sample_supervisor [(1, StopLock ''default'' 0), (0, Done)])
     (sample_system (lock_instance 1 0 sample_supervisor) [(1, StopMark ''default'' 0), (0, Done)])"
    by (intro sample_run[where t = 1, OF pc_step.stop_lock]) (simp_all add: alist_put_def alist_del_def)
  show "sample_step (sample_system (lock_instance 1 0 sample_supervisor) [(1, StopMark ''default'' 0), (0, Done)])
     stopping_system"
    unfolding stopping_system_def stopping_sup_def
    by (rule sample_run[where t = 1, OF pc_step.stop_mark]) (simp_all add: alist_put_def alist_del_def)
qed

lemma stopping_system_reachable: "daemon_reachable sample_bind sample_register_host stopping_system"
proof -
  have "daemon_reachable sample_bind sample_register_host (sample_system SupervisorState_shared [])"
    by (rule reach_init) (simp add: daemon_init_def)
  then have "daemon_reachable sample_bind sample_register_host
      (sample_system SupervisorState_shared [(0, CreateLocked sample_create)])"
    by (rule reach_step) (rule sample_steps(1))
  then have "daemon_reachable sample_bind sample_register_host (sample_system sample_supervisor [(0, Done)])"
    by (rule reach_step) (rule sample_steps(2))
  then have "daemon_reachable sample_bind sample_register_host
      (sample_system sample_supervisor [(1, StopLookup ''default''), (0, Done)])"
    by (rule reach_step) (rule sample_steps(3))
  then have "daemon_reachable sample_bind sample_register_host
      (sample_system sample_supervisor [(1, StopLock ''default'' 0), (0, Done)])"
    by (rule reach_step) (rule sample_steps(4))
  then have "daemon_reachable sample_bind sample_register_host
      (sample_system (lock_instance 1 0 sample_supervisor) [(1, StopMark ''default'' 0), (0, Done)])"
    by (rule reach_step) (rule sample_steps(5))
  then show ?thesis by (rule reach_step) (rule sample_steps(6))
qed

lemma stopping_sup_state:
  "length (sv_heap stopping_sup) = 1" "di_state (sv_heap stopping_sup ! 0) = Stopping"
  by (simp_all add: stopping_sup_def lock_instance_def heap_update_nth mark_stopping_def
      sample_supervisor_created(2) add_instance_def SupervisorState_shared_def new_instance_def)

theorem concurrent_requests_consistent_witness:
  "daemon_ok (ds_sup stopping_system) \<and> map_of (ds_tasks stopping_system) 1 = Some (StopTake ''default'' 0)"
  using concurrent_requests_consistent[OF stopping_system_reachable] by (simp add: stopping_system_def)

theorem stopping_is_final_witness:
  "di_state (sv_heap (update_instance 0 (\<lambda>x. snd (take_listener x)) stopping_sup) ! 0) = Stopping"
proof -
  have "sample_step stopping_system
      (sample_system (update_instance 0 (\<lambda>x. snd (take_listener x)) stopping_sup)
        [(1, StopAwait ''default'' 0 (fst (take_listener (sv_heap stopping_sup ! 0)))), (0, Done)])"
    unfolding stopping_system_def
    by (rule sample_run[where t = 1, OF pc_step.stop_take[where name = "''default''"]]) (simp_all add: alist_put_def alist_del_def)
  from stopping_is_final[OF stopping_system_reachable this, of 0] show ?thesis
    by (simp add: stopping_system_def stopping_sup_state)
qed


end
