(* ===== verification/Cache_Keys.thy ===== *)
theory Cache_Keys
  imports Registry
begin

text \<open>
  The naming of the binary cache (\<open>src/src/installer/cache.rs\<close>) and of its work
  directories (\<open>src/src/installer/binary/publication.rs\<close>, \<open>recovery.rs\<close>). A path is the
  list of its components; SHA-256 is a parameter.
\<close>

definition CACHE_NAMESPACE :: string where "CACHE_NAMESPACE = ''acp-agent''"
definition AGENTS_DIR :: string where "AGENTS_DIR = ''agents''"
definition EXTRACTED_DIR_NAME :: string where "EXTRACTED_DIR_NAME = ''extracted''"
definition METADATA_FILE_NAME :: string where "METADATA_FILE_NAME = ''metadata.json''"

section \<open>Safe path components\<close>

definition is_safe_char :: "char \<Rightarrow> bool" where
  "is_safe_char c = (is_ascii_alphanumeric c \<or> c \<in> {CHR ''.'', CHR ''-'', CHR ''_''})"

text \<open>
  One underscore for every character that is not safe; a character beyond ASCII is a leading
  byte and its continuation bytes.
\<close>

fun sanitize :: "string \<Rightarrow> string" where
  "sanitize [] = []"
| "sanitize (c # cs) =
     (if is_safe_char c then c # sanitize cs
      else if is_continuation c then sanitize cs
      else CHR ''_'' # sanitize cs)"

definition stable_path_digest :: "(string \<Rightarrow> string) \<Rightarrow> string \<Rightarrow> string" where
  "stable_path_digest sha256 value = hex_encode (take 6 (sha256 value))"

definition trimmed_component :: "string \<Rightarrow> string" where
  "trimmed_component value =
     (let t = trim_matches CHR ''.'' (sanitize value) in if t = [] then ''_'' else t)"

definition safe_path_component :: "(string \<Rightarrow> string) \<Rightarrow> string \<Rightarrow> string" where
  "safe_path_component sha256 value =
     (let lossy = (value = [] \<or> \<not> list_all is_safe_char value);
          trimmed = trimmed_component value
      in if lossy \<or> trimmed \<noteq> value then trimmed @ ''-'' @ stable_path_digest sha256 value
         else trimmed)"

section \<open>Paths of a cache entry\<close>

record BinaryCachePaths =
  bp_root_dir :: path
  bp_parent_dir :: path
  bp_cache_dir :: path
  bp_extracted_dir :: path
  bp_metadata_path :: path

definition platform_cache_key :: "Platform \<Rightarrow> string" where
  "platform_cache_key p =
     (case p of
        DarwinAarch64 \<Rightarrow> ''darwin-aarch64''
      | DarwinX86_64 \<Rightarrow> ''darwin-x86_64''
      | LinuxAarch64 \<Rightarrow> ''linux-aarch64''
      | LinuxX86_64 \<Rightarrow> ''linux-x86_64'')"

definition cache_root_dir :: "path option \<Rightarrow> path result" where
  "cache_root_dir cache_dir =
     map_ok (\<lambda>root. root @ [CACHE_NAMESPACE])
       (ok_or cache_dir [''could not determine the platform cache directory''])"

definition binary_cache_paths ::
    "(string \<Rightarrow> string) \<Rightarrow> path \<Rightarrow> string \<Rightarrow> string \<Rightarrow> Platform \<Rightarrow> BinaryCachePaths" where
  "binary_cache_paths sha256 root agent_id agent_version platform =
     (let parent = root @ [AGENTS_DIR, safe_path_component sha256 agent_id, platform_cache_key platform];
          dir = parent @ [safe_path_component sha256 agent_version]
      in \<lparr>bp_root_dir = root, bp_parent_dir = parent, bp_cache_dir = dir,
          bp_extracted_dir = dir @ [EXTRACTED_DIR_NAME], bp_metadata_path = dir @ [METADATA_FILE_NAME]\<rparr>)"

definition binary_cache_paths_with_digest ::
    "(string \<Rightarrow> string) \<Rightarrow> path \<Rightarrow> string \<Rightarrow> string \<Rightarrow> Platform \<Rightarrow> string \<Rightarrow> BinaryCachePaths" where
  "binary_cache_paths_with_digest sha256 root agent_id agent_version platform digest =
     binary_cache_paths sha256 root agent_id
       (agent_version @ ''-sha256-'' @ to_ascii_lowercase digest) platform"

definition file_name :: "path \<Rightarrow> string option" where
  "file_name p = (if p = [] then None else Some (last p))"

definition binary_cache_lock_path :: "(string \<Rightarrow> string) \<Rightarrow> BinaryCachePaths \<Rightarrow> path" where
  "binary_cache_lock_path sha256 paths =
     bp_parent_dir paths @
       [safe_path_component sha256 (case file_name (bp_cache_dir paths) of None \<Rightarrow> ''cache'' | Some n \<Rightarrow> n)
        @ ''-cache.lock'']"

definition binary_cache_use_lock_path :: "(string \<Rightarrow> string) \<Rightarrow> BinaryCachePaths \<Rightarrow> path" where
  "binary_cache_use_lock_path sha256 paths =
     bp_parent_dir paths @
       [safe_path_component sha256 (case file_name (bp_cache_dir paths) of None \<Rightarrow> ''cache'' | Some n \<Rightarrow> n)
        @ ''-cache.use.lock'']"

record BinaryCacheMetadata =
  md_agent_id :: string
  md_agent_version :: string
  md_platform :: string
  md_archive :: string
  md_cmd :: string
  md_sha256 :: "string option"
  md_executable_sha256 :: "string option"
  md_payload_sha256 :: "string option"

definition BinaryCacheMetadata_new ::
    "string \<Rightarrow> string \<Rightarrow> Platform \<Rightarrow> string \<Rightarrow> string \<Rightarrow> string option \<Rightarrow> BinaryCacheMetadata" where
  "BinaryCacheMetadata_new agent_id agent_version platform archive cmd sha256 =
     \<lparr>md_agent_id = agent_id, md_agent_version = agent_version,
      md_platform = platform_cache_key platform, md_archive = archive, md_cmd = cmd,
      md_sha256 = map_option to_ascii_lowercase sha256,
      md_executable_sha256 = None, md_payload_sha256 = None\<rparr>"

section \<open>Work directories\<close>

text \<open>
  \<open>unique_work_dir_name\<close> with the process id and the clock; staging directories are named by
  the \<open>tempfile\<close> crate from a prefix and random alphanumeric characters.
\<close>

definition unique_work_dir_name :: "(string \<Rightarrow> string) \<Rightarrow> nat \<Rightarrow> nat \<Rightarrow> string \<Rightarrow> string \<Rightarrow> string" where
  "unique_work_dir_name sha256 pid nanos component kind =
     ''.'' @ safe_path_component sha256 component @ ''-'' @ kind @ ''-'' @ show_nat pid @ ''-'' @ show_nat nanos"

definition unique_backup_dir_name :: "(string \<Rightarrow> string) \<Rightarrow> nat \<Rightarrow> nat \<Rightarrow> path \<Rightarrow> string" where
  "unique_backup_dir_name sha256 pid nanos cache_dir =
     unique_work_dir_name sha256 pid nanos
       (case file_name cache_dir of None \<Rightarrow> ''cache'' | Some n \<Rightarrow> n) ''backup''"

definition staging_dir_name :: "path \<Rightarrow> string \<Rightarrow> string" where
  "staging_dir_name cache_dir random =
     ''.'' @ (case file_name cache_dir of None \<Rightarrow> ''cache'' | Some n \<Rightarrow> n) @ ''-staging-'' @ random"

text \<open>\<open>max_by_key\<close> over at most two candidates: the later one wins a tie.\<close>

definition work_dir_cache_key :: "string \<Rightarrow> string option" where
  "work_dir_cache_key name =
     Option.bind (strip_prefix ''.'' name) (\<lambda>name.
     let key = (\<lambda>i. if take i name = [] then None else Some (take i name))
     in case (rfind ''-staging-'' name, rfind ''-backup-'' name) of
          (None, None) \<Rightarrow> None
        | (Some i, None) \<Rightarrow> key i
        | (None, Some j) \<Rightarrow> key j
        | (Some i, Some j) \<Rightarrow> if j \<ge> i then key j else key i)"

section \<open>Safe components cannot leave their directory\<close>

lemma sanitize_safe: "c \<in> set (sanitize s) \<Longrightarrow> is_safe_char c"
  by (induction s rule: sanitize.induct) (auto simp: is_safe_char_def split: if_splits)

lemma sanitize_id: "list_all is_safe_char s \<Longrightarrow> sanitize s = s"
  by (induction s) auto

lemma trim_matches_facts:
  "set (trim_matches c s) \<subseteq> set s"
  "trim_matches c s \<noteq> [] \<Longrightarrow> hd (trim_matches c s) \<noteq> c"
  "trim_matches c s \<noteq> [] \<Longrightarrow> last (trim_matches c s) \<noteq> c"
proof -
  let ?a = "dropWhile (\<lambda>x. x = c) s"
  have eq: "trim_matches c s = rev (dropWhile (\<lambda>x. x = c) (rev ?a))"
    by (simp add: trim_matches_def trim_start_matches_dropWhile)
  show "set (trim_matches c s) \<subseteq> set s"
    by (auto simp: eq dest!: set_dropWhileD)
  show "last (trim_matches c s) \<noteq> c" if "trim_matches c s \<noteq> []"
    using that hd_dropWhile[of "\<lambda>x. x = c" "rev ?a"] by (auto simp: eq last_rev)
  show "hd (trim_matches c s) \<noteq> c" if ne: "trim_matches c s \<noteq> []"
  proof -
    have "prefix (trim_matches c s) ?a"
      using suffix_dropWhile[of "\<lambda>x. x = c" "rev ?a"] by (simp add: eq suffix_to_prefix)
    then obtain zs where zs: "?a = trim_matches c s @ zs" by (auto simp: prefix_def)
    with ne have "hd (trim_matches c s) = hd ?a" "?a \<noteq> []"
      by (metis hd_append2, metis append_is_Nil_conv)
    with hd_dropWhile[of "\<lambda>x. x = c" s] show ?thesis by metis
  qed
qed

lemma hex_digit_safe: "n < 16 \<Longrightarrow> is_safe_char (hex_digit n) \<and> hex_digit n \<noteq> CHR ''.''"
proof -
  assume n: "n < 16"
  have dot: "code CHR ''.'' = 46" by (simp add: code_def)
  show "is_safe_char (hex_digit n) \<and> hex_digit n \<noteq> CHR ''.''"
  proof (cases "n < 10")
    case True
    then have "code (hex_digit n) = 48 + n" by (simp add: hex_digit_def)
    with True dot show ?thesis
      by (auto simp: is_safe_char_def is_ascii_alphanumeric_def is_ascii_digit_def)
  next
    case False
    with n have "code (hex_digit n) = 87 + n" by (simp add: hex_digit_def)
    with n False dot show ?thesis
      by (auto simp: is_safe_char_def is_ascii_alphanumeric_def is_ascii_digit_def)
  qed
qed

lemma hex_encode_safe: "c \<in> set (hex_encode bs) \<Longrightarrow> is_safe_char c \<and> c \<noteq> CHR ''.''"
proof -
  assume "c \<in> set (hex_encode bs)"
  then obtain b where "c = hex_digit (code b div 16) \<or> c = hex_digit (code b mod 16)"
    by (auto simp: hex_encode_def hex_byte_def)
  moreover have "code b div 16 < 16" using code_less_256[of b] by (simp add: less_mult_imp_div_less)
  ultimately show ?thesis using hex_digit_safe by auto
qed

lemma trimmed_component_facts:
  "trimmed_component v \<noteq> []" "list_all is_safe_char (trimmed_component v)"
  "hd (trimmed_component v) \<noteq> CHR ''.''" "last (trimmed_component v) \<noteq> CHR ''.''"
  using trim_matches_facts[where c = "CHR ''.''" and s = "sanitize v"] sanitize_safe[of _ v]
  by (auto simp: trimmed_component_def Let_def list_all_iff is_safe_char_def)

definition safe_component :: "string \<Rightarrow> bool" where
  "safe_component s \<longleftrightarrow>
     s \<noteq> [] \<and> list_all is_safe_char s \<and> hd s \<noteq> CHR ''.'' \<and> last s \<noteq> CHR ''.''"

lemma safe_path_component_safe: "safe_component (safe_path_component sha256 v)"
proof -
  have d: "\<forall>c \<in> set (stable_path_digest sha256 v). is_safe_char c \<and> c \<noteq> CHR ''.''"
    using hex_encode_safe by (auto simp: stable_path_digest_def)
  then have "stable_path_digest sha256 v = [] \<or> last (stable_path_digest sha256 v) \<noteq> CHR ''.''"
    using last_in_set by blast
  moreover have "is_safe_char CHR ''-''" by code_simp
  moreover have "list_all is_safe_char (stable_path_digest sha256 v)"
    using d by (simp add: list_all_iff)
  ultimately have "safe_component (trimmed_component v @ ''-'' @ stable_path_digest sha256 v)"
    using trimmed_component_facts[of v] unfolding safe_component_def by auto
  moreover have "safe_component (trimmed_component v)"
    using trimmed_component_facts[of v] by (simp add: safe_component_def)
  ultimately show ?thesis by (simp only: safe_path_component_def Let_def split: if_split) simp
qed

lemma safe_component_fixed:
  assumes "safe_component s" shows "safe_path_component sha256 s = s"
proof -
  have s: "s \<noteq> []" "list_all is_safe_char s" "hd s \<noteq> CHR ''.''" "last s \<noteq> CHR ''.''"
    using assms by (auto simp: safe_component_def)
  have "dropWhile (\<lambda>x. x = CHR ''.'') s = s" using s(1,3) by (cases s) auto
  moreover have "dropWhile (\<lambda>x. x = CHR ''.'') (rev s) = rev s"
    using s(1,4) by (cases s rule: rev_cases) auto
  ultimately have "trim_matches CHR ''.'' s = s"
    by (simp add: trim_matches_def trim_start_matches_dropWhile)
  then have "trimmed_component s = s" using s(1,2) by (simp add: trimmed_component_def sanitize_id)
  with s show ?thesis by (simp add: safe_path_component_def)
qed

lemma safe_component_no_slash: "safe_component s \<Longrightarrow> CHR ''/'' \<notin> set s"
  by (auto simp: safe_component_def list_all_iff is_safe_char_def is_ascii_alphanumeric_def
      is_ascii_digit_def code_def)

text \<open>
  The component made of any registry id or version is one path component that is
  not empty, not a dot directory and free of separators, making it again changes nothing, and
  values that already are such components are used as they are.
\<close>
lemma safe_path_component_contained:
  "safe_path_component sha256 v \<noteq> [] \<and> CHR ''/'' \<notin> set (safe_path_component sha256 v)
   \<and> safe_path_component sha256 v \<noteq> ''.'' \<and> safe_path_component sha256 v \<noteq> ''..''
   \<and> safe_path_component other (safe_path_component sha256 v) = safe_path_component sha256 v
   \<and> (safe_path_component sha256 v = v \<longleftrightarrow> safe_component v)"
proof -
  let ?s = "safe_path_component sha256 v"
  have s: "safe_component ?s" by (rule safe_path_component_safe)
  then have ne: "?s \<noteq> []" "hd ?s \<noteq> CHR ''.''" by (simp_all add: safe_component_def)
  then have "?s \<noteq> ''.''" "?s \<noteq> ''..''" by auto
  with s ne safe_component_fixed[OF s, of other] safe_component_fixed[of v sha256]
    safe_component_no_slash[OF s]
  show ?thesis by metis
qed

text \<open>
  Two different values share a component only if their digests collide or one of
  them is literally the disambiguated component of the other.
\<close>
lemma safe_path_component_collisions:
  assumes "\<forall>v. length (sha256 v) = 32" "safe_path_component sha256 a = safe_path_component sha256 b" "a \<noteq> b"
  shows "stable_path_digest sha256 a = stable_path_digest sha256 b
    \<or> a = safe_path_component sha256 b \<or> b = safe_path_component sha256 a"
proof (cases "safe_path_component sha256 a = a \<or> safe_path_component sha256 b = b")
  case True
  with assms show ?thesis by metis
next
  case False
  have unfold: "safe_path_component sha256 v = trimmed_component v @ ''-'' @ stable_path_digest sha256 v"
    if "safe_path_component sha256 v \<noteq> v" for v
    using that by (auto simp: safe_path_component_def Let_def split: if_splits)
  have "length (stable_path_digest sha256 v) = 12" for v
    using assms(1) by (simp add: stable_path_digest_def)
  then have len: "length (''-'' @ stable_path_digest sha256 a) = length (''-'' @ stable_path_digest sha256 b)"
    by simp
  have "trimmed_component a @ (''-'' @ stable_path_digest sha256 a)
      = trimmed_component b @ (''-'' @ stable_path_digest sha256 b)"
    using assms(2) False unfold[of a] unfold[of b] by simp
  then have "''-'' @ stable_path_digest sha256 a = ''-'' @ stable_path_digest sha256 b"
    using len append_eq_append_conv by blast
  then show ?thesis by simp
qed

text \<open>A hash of 32 bytes for the examples.\<close>

definition toy_sha256 :: "string \<Rightarrow> string" where
  "toy_sha256 s = replicate 31 CHR 0x00 @ [char_of (length s mod 256)]"

theorem safe_path_component_collisions_witness:
  "safe_path_component toy_sha256 ''a/b'' = safe_path_component toy_sha256 ''a:b''
   \<and> (stable_path_digest toy_sha256 ''a/b'' = stable_path_digest toy_sha256 ''a:b''
      \<or> ''a/b'' = safe_path_component toy_sha256 ''a:b'' \<or> ''a:b'' = safe_path_component toy_sha256 ''a/b'')"
proof
  have len: "\<forall>v. length (toy_sha256 v) = 32" by (simp add: toy_sha256_def)
  show eq: "safe_path_component toy_sha256 ''a/b'' = safe_path_component toy_sha256 ''a:b''" by code_simp
  show "stable_path_digest toy_sha256 ''a/b'' = stable_path_digest toy_sha256 ''a:b''
      \<or> ''a/b'' = safe_path_component toy_sha256 ''a:b'' \<or> ''a:b'' = safe_path_component toy_sha256 ''a/b''"
    by (rule safe_path_component_collisions[OF len eq]) simp
qed

text \<open>
  Contrary to the documentation of \<open>safe_path_component\<close>, distinct ids can share a
  directory whatever the hash: the id that spells the disambiguated form of another.
\<close>
lemma distinct_ids_share_a_directory:
  "\<not> safe_component v \<longrightarrow>
     (\<exists>w. w \<noteq> v \<and> bp_cache_dir (binary_cache_paths sha256 root v version platform)
                 = bp_cache_dir (binary_cache_paths sha256 root w version platform))"
proof
  assume v: "\<not> safe_component v"
  let ?w = "safe_path_component sha256 v"
  have "?w \<noteq> v" using v safe_path_component_safe by metis
  moreover have "safe_path_component sha256 ?w = ?w"
    using safe_path_component_safe by (rule safe_component_fixed)
  ultimately show "\<exists>w. w \<noteq> v \<and> bp_cache_dir (binary_cache_paths sha256 root v version platform)
                 = bp_cache_dir (binary_cache_paths sha256 root w version platform)"
    by (intro exI[of _ ?w]) (simp add: binary_cache_paths_def Let_def)
qed

theorem distinct_ids_share_a_directory_witness:
  "\<exists>w. w \<noteq> ''a/b'' \<and> bp_cache_dir (binary_cache_paths toy_sha256 [''cache''] ''a/b'' ''1'' LinuxX86_64)
                 = bp_cache_dir (binary_cache_paths toy_sha256 [''cache''] w ''1'' LinuxX86_64)"
proof -
  have "\<not> safe_component ''a/b''" by code_simp
  then show ?thesis by (rule mp[OF distinct_ids_share_a_directory])
qed

section \<open>Work directories name their cache entry\<close>

text \<open>
  A marker \<open>-w-\<close> in front of a rest is the last one in the name when the rest holds no dash,
  or no second character of the sought marker.
\<close>

lemma no_later_marker:
  assumes d: "1 \<le> d" and w: "CHR ''-'' \<notin> set w"
    and rest: "CHR ''-'' \<notin> set rest \<or> x \<notin> set rest"
  shows "\<not> prefix (CHR ''-'' # x # p @ ''-'') (drop d (CHR ''-'' # w @ CHR ''-'' # rest))"
proof
  let ?s = "CHR ''-'' # w @ CHR ''-'' # rest"
  assume "prefix (CHR ''-'' # x # p @ ''-'') (drop d ?s)"
  then obtain z where z: "drop d ?s = CHR ''-'' # x # p @ CHR ''-'' # z" by (auto simp: prefix_def)
  obtain e where e: "d = Suc e" using d by (cases d) auto
  with z have ze: "drop e (w @ CHR ''-'' # rest) = CHR ''-'' # x # p @ CHR ''-'' # z" by simp
  show False
  proof (cases "e < length w")
    case True
    have "(w @ CHR ''-'' # rest) ! e = CHR ''-''" using ze by (rule nth_via_drop)
    with True have "w ! e = CHR ''-''" by (simp add: nth_append)
    with True w show False by (metis nth_mem)
  next
    case False
    define k where "k = e - length w"
    have "drop k (CHR ''-'' # rest) = CHR ''-'' # x # p @ CHR ''-'' # z"
      using ze False by (simp add: k_def drop_append)
    then have "x # p @ CHR ''-'' # z = drop k rest"
      by (cases k) (auto dest: arg_cong[where f = tl] simp: drop_Suc tl_drop)
    then have "set (x # p @ CHR ''-'' # z) \<subseteq> set rest" by (metis set_drop_subset)
    with rest show False by auto
  qed
qed

lemma rfind_marker:
  assumes "CHR ''-'' \<notin> set w" "CHR ''-'' \<notin> set rest \<or> x \<notin> set rest" "w = x # p"
  shows "rfind (CHR ''-'' # w @ ''-'') (key @ CHR ''-'' # w @ CHR ''-'' # rest) = Some (length key)"
proof (rule rfind_eqI)
  show "prefix (CHR ''-'' # w @ ''-'') (drop (length key) (key @ CHR ''-'' # w @ CHR ''-'' # rest))"
    by (simp add: prefix_def)
  fix j
  assume "length key < j" "j \<le> length (key @ CHR ''-'' # w @ CHR ''-'' # rest)"
  then show "\<not> prefix (CHR ''-'' # w @ ''-'') (drop j (key @ CHR ''-'' # w @ CHR ''-'' # rest))"
    using no_later_marker[of "j - length key" w rest x p] assms by (simp add: drop_append)
qed simp

lemma rfind_other_marker:
  assumes "CHR ''-'' \<notin> set w" "CHR ''-'' \<notin> set rest \<or> x \<notin> set rest" "hd w \<noteq> x" "w \<noteq> []"
    "rfind (CHR ''-'' # x # p @ ''-'') (key @ CHR ''-'' # w @ CHR ''-'' # rest) = Some j"
  shows "j < length key"
proof (rule ccontr)
  assume j: "\<not> j < length key"
  have pre: "prefix (CHR ''-'' # x # p @ ''-'') (drop (j - length key) (CHR ''-'' # w @ CHR ''-'' # rest))"
    using rfind_Some(2)[OF assms(5)] j by (simp add: drop_append)
  show False
  proof (cases "j = length key")
    case True
    with pre assms(3,4) show False by (cases w) auto
  next
    case False
    with j have "1 \<le> j - length key" by arith
    from no_later_marker[OF this assms(1,2)] pre show False by blast
  qed
qed

lemma work_dir_key_marker:
  assumes rest: "CHR ''-'' \<notin> set rest \<or> CHR ''s'' \<notin> set rest \<and> CHR ''b'' \<notin> set rest"
    and key: "key \<noteq> []" and marker: "marker = ''-staging-'' \<or> marker = ''-backup-''"
  shows "work_dir_cache_key (''.'' @ key @ marker @ rest) = Some key"
  using marker
proof
  assume m: "marker = ''-staging-''"
  have a: "rfind ''-staging-'' (key @ marker @ rest) = Some (length key)"
    using rfind_marker[of "''staging''" rest "CHR ''s''" "''taging''" key] rest by (simp add: m)
  have b: "j < length key" if "rfind ''-backup-'' (key @ marker @ rest) = Some j" for j
    using rfind_other_marker[of "''staging''" rest "CHR ''b''" "''ackup''" key j] rest that by (simp add: m)
  show ?thesis
    using a b key by (cases "rfind ''-backup-'' (key @ marker @ rest)")
      (auto simp: work_dir_cache_key_def strip_prefix_def Let_def)
next
  assume m: "marker = ''-backup-''"
  have a: "rfind ''-backup-'' (key @ marker @ rest) = Some (length key)"
    using rfind_marker[of "''backup''" rest "CHR ''b''" "''ackup''" key] rest by (simp add: m)
  have b: "j < length key" if "rfind ''-staging-'' (key @ marker @ rest) = Some j" for j
    using rfind_other_marker[of "''backup''" rest "CHR ''s''" "''taging''" key j] rest that by (simp add: m)
  show ?thesis
    using a b key by (cases "rfind ''-staging-'' (key @ marker @ rest)")
      (auto simp: work_dir_cache_key_def strip_prefix_def Let_def dest: b)
qed

lemma show_nat_no_letter: "c \<in> set (show_nat n) \<Longrightarrow> c \<noteq> CHR ''s'' \<and> c \<noteq> CHR ''b''"
  using show_nat_digits[of c n] by (auto simp: is_ascii_digit_def code_def)

lemma cache_dir_name:
  "file_name (bp_cache_dir (binary_cache_paths sha256 root agent_id key platform))
     = Some (safe_path_component sha256 key)"
  by (simp add: binary_cache_paths_def Let_def file_name_def)

text \<open>
  The start-up sweep recognises every staging and backup directory that an install
  of an entry creates, and groups it under exactly that entry, whatever the agent and
  version are called (including names that contain the markers themselves).
\<close>
lemma work_directories_name_their_entry:
  assumes "CHR ''-'' \<notin> set random"
  shows "let entry = bp_cache_dir (binary_cache_paths sha256 root agent_id key platform) in
    work_dir_cache_key (staging_dir_name entry random) = file_name entry
    \<and> work_dir_cache_key (unique_backup_dir_name sha256 pid nanos entry) = file_name entry"
proof -
  let ?k = "safe_path_component sha256 key"
  have ne: "?k \<noteq> []" using safe_path_component_safe[of sha256 key] by (simp add: safe_component_def)
  have idem: "safe_path_component sha256 ?k = ?k"
    using safe_path_component_safe by (rule safe_component_fixed)
  have "work_dir_cache_key (''.'' @ ?k @ ''-staging-'' @ random) = Some ?k"
    using assms ne by (intro work_dir_key_marker) auto
  moreover have "work_dir_cache_key (''.'' @ ?k @ ''-backup-'' @ show_nat pid @ ''-'' @ show_nat nanos) = Some ?k"
    using ne show_nat_no_letter[of _ pid] show_nat_no_letter[of _ nanos]
    by (intro work_dir_key_marker) auto
  ultimately show ?thesis
    by (simp add: cache_dir_name staging_dir_name_def unique_backup_dir_name_def
        unique_work_dir_name_def idem)
qed

theorem work_directories_name_their_entry_witness:
  "work_dir_cache_key ''.1-staging-2-staging-Ab3'' = Some ''1-staging-2''
   \<and> work_dir_cache_key (staging_dir_name
       (bp_cache_dir (binary_cache_paths toy_sha256 [''c''] ''demo'' ''1-staging-2'' LinuxX86_64)) ''Ab3'')
     = file_name (bp_cache_dir (binary_cache_paths toy_sha256 [''c''] ''demo'' ''1-staging-2'' LinuxX86_64))"
proof
  show "work_dir_cache_key ''.1-staging-2-staging-Ab3'' = Some ''1-staging-2''"
    using work_dir_key_marker[of "''Ab3''" "''1-staging-2''" "''-staging-''"] by simp
  have "CHR ''-'' \<notin> set ''Ab3''" by simp
  from work_directories_name_their_entry[OF this, unfolded Let_def]
  show "work_dir_cache_key (staging_dir_name
       (bp_cache_dir (binary_cache_paths toy_sha256 [''c''] ''demo'' ''1-staging-2'' LinuxX86_64)) ''Ab3'')
     = file_name (bp_cache_dir (binary_cache_paths toy_sha256 [''c''] ''demo'' ''1-staging-2'' LinuxX86_64))"
    by blast
qed

end
