(* ===== verification/Archive_Paths.thy ===== *)
theory Archive_Paths
  imports Cache_Keys
begin

text \<open>
  \<open>src/src/installer/binary/paths.rs\<close>: the checks on the paths inside an archive, on the
  file name of a download and on the command of a binary target. \<open>components\<close> is
  \<open>Path::components\<close> on Unix.
\<close>

datatype component = RootDir | CurDir | ParentDir | Normal string

definition path_components :: "string \<Rightarrow> component list" where
  "path_components s =
     (if prefix ''/'' s then [RootDir]
      else if s = ''.'' \<or> prefix ''./'' s then [CurDir] else [])
     @ map (\<lambda>c. if c = ''..'' then ParentDir else Normal c)
         (filter (\<lambda>c. c \<noteq> [] \<and> c \<noteq> ''.'') (split_char CHR ''/'' s))"

definition backslash :: char where "backslash = CHR 0x5C"
definition nul :: char where "nul = CHR 0x00"

text \<open>The loop over the components: whether a normal one was seen, or the first unsafe one.\<close>

fun scan_components :: "error \<Rightarrow> bool \<Rightarrow> component list \<Rightarrow> bool result" where
  "scan_components unsafe seen [] = Inr seen"
| "scan_components unsafe seen (Normal _ # cs) = scan_components unsafe True cs"
| "scan_components unsafe seen (CurDir # cs) = scan_components unsafe seen cs"
| "scan_components unsafe seen (ParentDir # cs) = Inl unsafe"
| "scan_components unsafe seen (RootDir # cs) = Inl unsafe"

text \<open>\<open>text\<close> is the path as a string, absent when it is not valid UTF-8.\<close>

definition validate_archive_path :: "string option \<Rightarrow> unit result" where
  "validate_archive_path path =
     and_then (ok_or path [''archive path is not valid UTF-8'']) (\<lambda>text.
       let unsafe = [''unsafe archive path: '' @ debug_str text] in
       if backslash \<in> set text \<or> nul \<in> set text then Inl unsafe
       else and_then (scan_components unsafe False (path_components text)) (\<lambda>has_normal.
         if \<not> has_normal then bail ''empty archive path'' else Inr ()))"

definition validate_archive_component :: "string \<Rightarrow> unit result" where
  "validate_archive_component c =
     (if c = [] \<or> c = ''.'' \<or> c = ''..'' \<or> CHR ''/'' \<in> set c \<or> backslash \<in> set c \<or> nul \<in> set c
      then bail (''unsafe archive filename: '' @ debug_str c)
      else Inr ())"

fun push_components :: "string \<Rightarrow> path \<Rightarrow> component list \<Rightarrow> path result" where
  "push_components cmd resolved [] = Inr resolved"
| "push_components cmd resolved (CurDir # cs) = push_components cmd resolved cs"
| "push_components cmd resolved (ParentDir # cs) =
     bail (''binary command path must stay within the extracted payload: '' @ cmd)"
| "push_components cmd resolved (RootDir # cs) =
     bail (''binary command path must be relative to the extracted payload: '' @ cmd)"
| "push_components cmd resolved (Normal c # cs) = push_components cmd (resolved @ [c]) cs"

definition resolve_cmd_path :: "path \<Rightarrow> string \<Rightarrow> path result" where
  "resolve_cmd_path extracted_dir cmd =
     (let candidate = trim cmd in
      if prefix ''/'' candidate
      then bail (''binary command path must be relative to the extracted payload: '' @ cmd)
      else push_components cmd extracted_dir (path_components candidate))"

section \<open>What the checks guarantee\<close>

text \<open>A name that stays in its directory.\<close>

definition plain_name :: "string \<Rightarrow> bool" where
  "plain_name c \<longleftrightarrow> c \<noteq> [] \<and> c \<noteq> ''.'' \<and> c \<noteq> ''..'' \<and> CHR ''/'' \<notin> set c"

lemma split_char_no_sep: "w \<in> set (split_char c s) \<Longrightarrow> c \<notin> set w"
proof (induction s arbitrary: w)
  case (Cons x s)
  show ?case
  proof (cases "x = c")
    case True
    with Cons show ?thesis by auto
  next
    case False
    obtain v vs where v: "split_char c s = v # vs" by (cases "split_char c s") auto
    with False Cons.prems have "w = x # v \<or> w \<in> set vs" by simp
    with False v Cons.IH[of v] Cons.IH[of w] show ?thesis by auto
  qed
qed simp

lemma normal_component_plain: "Normal c \<in> set (path_components s) \<Longrightarrow> plain_name c"
  using split_char_no_sep[of c "CHR ''/''" s]
  by (auto simp: path_components_def plain_name_def split: if_splits)

lemma scan_components_Inr:
  "scan_components unsafe seen cs = Inr r \<longleftrightarrow>
     RootDir \<notin> set cs \<and> ParentDir \<notin> set cs \<and> (r \<longleftrightarrow> seen \<or> (\<exists>c. Normal c \<in> set cs))"
  by (induction unsafe seen cs rule: scan_components.induct) auto

lemma push_components_Inr:
  "push_components cmd base cs = Inr p \<Longrightarrow>
     \<exists>rel. p = base @ rel \<and> (\<forall>c \<in> set rel. Normal c \<in> set cs) \<and> ParentDir \<notin> set cs \<and> RootDir \<notin> set cs"
proof (induction cmd base cs rule: push_components.induct)
  case (5 cmd resolved c cs)
  then obtain rel where "p = (resolved @ [c]) @ rel" "\<forall>c \<in> set rel. Normal c \<in> set cs"
    "ParentDir \<notin> set cs" "RootDir \<notin> set cs" by auto
  then show ?case by (intro exI[of _ "c # rel"]) auto
qed auto

text \<open>
  The command of a target resolves to a path below the extracted payload made of
  plain names only, whatever the registry says; parent and absolute paths are refused.
\<close>
lemma resolve_cmd_path_contained:
  "(case resolve_cmd_path extracted_dir cmd of
      Inr p \<Rightarrow> (\<exists>rel. p = extracted_dir @ rel \<and> list_all plain_name rel)
        \<and> ParentDir \<notin> set (path_components (trim cmd))
    | Inl e \<Rightarrow> prefix ''/'' (trim cmd) \<or> ParentDir \<in> set (path_components (trim cmd)))"
proof (cases "prefix ''/'' (trim cmd)")
  case True
  then show ?thesis by (simp add: resolve_cmd_path_def bail_def)
next
  case False
  have root: "RootDir \<notin> set (path_components (trim cmd))"
    using False by (auto simp: path_components_def)
  show ?thesis
  proof (cases "push_components cmd extracted_dir (path_components (trim cmd))")
    case (Inl e)
    have "push_components cmd base cs = Inl e \<Longrightarrow> RootDir \<notin> set cs \<Longrightarrow> ParentDir \<in> set cs" for base cs
      by (induction cmd base cs rule: push_components.induct) auto
    with Inl root False show ?thesis by (simp add: resolve_cmd_path_def Let_def)
  next
    case (Inr p)
    from push_components_Inr[OF this] obtain rel where
      "p = extracted_dir @ rel" "\<forall>c \<in> set rel. Normal c \<in> set (path_components (trim cmd))"
      "ParentDir \<notin> set (path_components (trim cmd))" by blast
    with Inr False normal_component_plain show ?thesis
      by (auto simp: resolve_cmd_path_def Let_def list_all_iff)
  qed
qed

text \<open>
  An accepted path of an archive entry (or link target) is relative, names at least
  one file or directory, and never climbs out of the directory it is unpacked into.
\<close>
lemma archive_paths_stay_inside:
  "validate_archive_path path = Inr () \<longleftrightarrow>
     (\<exists>text. path = Some text \<and> backslash \<notin> set text \<and> nul \<notin> set text
        \<and> RootDir \<notin> set (path_components text) \<and> ParentDir \<notin> set (path_components text)
        \<and> (\<exists>c. Normal c \<in> set (path_components text) \<and> plain_name c))"
  using normal_component_plain
  by (auto simp: validate_archive_path_def and_then_eq_Inr Let_def scan_components_Inr split: if_splits)

lemma validate_archive_component_Inr:
  "validate_archive_component c = Inr () \<longleftrightarrow> plain_name c \<and> backslash \<notin> set c \<and> nul \<notin> set c"
  by (auto simp: validate_archive_component_def plain_name_def)

end
