(* ===== verification/Files.thy ===== *)
theory Files
  imports Archive_Paths
begin

text \<open>
  The file system under the installer's standard-library calls. A file system maps paths to
  nodes; the root always is a directory. Every call may fail for a reason of the outside
  world: a world carries an oracle that says which calls fail and what a failed call left
  behind, so a theorem about all worlds is a theorem about all failures.
\<close>

datatype node =
    DirNode
  | FileNode (file_bytes: string) (file_mode: nat)
  | LinkNode string
  | OtherNode u64

type_synonym files = "(path \<times> node) list"

definition lookup :: "files \<Rightarrow> path \<Rightarrow> node option" where
  "lookup fs p = (if p = [] then Some DirNode else map_of fs p)"

definition subtree :: "files \<Rightarrow> path \<Rightarrow> path \<Rightarrow> node option" where
  "subtree fs p q = lookup fs (p @ q)"

definition remove_tree :: "path \<Rightarrow> files \<Rightarrow> files" where
  "remove_tree p fs = filter (\<lambda>(q, _). \<not> prefix p q) fs"

definition move_tree :: "path \<Rightarrow> path \<Rightarrow> files \<Rightarrow> files" where
  "move_tree src dst fs =
     map (\<lambda>(q, n). (if prefix src q then dst @ drop (length src) q else q, n)) (remove_tree dst fs)"

definition put_node :: "path \<Rightarrow> node \<Rightarrow> files \<Rightarrow> files" where
  "put_node p n fs = alist_put p n fs"

definition child_names :: "files \<Rightarrow> path \<Rightarrow> string list" where
  "child_names fs p =
     remdups (map (\<lambda>(q, _). last q) (filter (\<lambda>(q, _). q \<noteq> [] \<and> butlast q = p) fs))"

section \<open>Calls that may fail\<close>

text \<open>
  \<open>ft_gone\<close> says which nodes below a directory a failed recursive removal has already removed,
  \<open>ft_written\<close> how much of the bytes a failed write has written.
\<close>

record fault =
  ft_error :: io_error
  ft_gone :: "path \<Rightarrow> bool"
  ft_written :: nat

record world =
  w_files :: files
  w_calls :: nat
  w_faults :: "nat \<Rightarrow> fault option"

type_synonym 'a sys = "world \<Rightarrow> (io_error + 'a) \<times> world"

definition syscall ::
    "(fault \<Rightarrow> files \<Rightarrow> files) \<Rightarrow> (files \<Rightarrow> (io_error + 'a) \<times> files) \<Rightarrow> 'a sys" where
  "syscall broken f w =
     (let w1 = w\<lparr>w_calls := Suc (w_calls w)\<rparr> in
      case w_faults w (w_calls w) of
        Some ft \<Rightarrow> (Inl (ft_error ft), w1\<lparr>w_files := broken ft (w_files w)\<rparr>)
      | None \<Rightarrow> (case f (w_files w) of (r, fs) \<Rightarrow> (r, w1\<lparr>w_files := fs\<rparr>)))"

definition intact :: "fault \<Rightarrow> files \<Rightarrow> files" where
  "intact ft fs = fs"

definition not_found :: io_error where
  "not_found = \<lparr>io_kind = KNotFound, io_text = ''No such file or directory (os error 2)''\<rparr>"

definition io_other :: "string \<Rightarrow> io_error" where
  "io_other text = \<lparr>io_kind = KOther, io_text = text\<rparr>"

text \<open>Path resolution follows at most 40 symbolic links, as Linux does.\<close>

function resolve :: "files \<Rightarrow> nat \<Rightarrow> path \<Rightarrow> path \<Rightarrow> path option" where
  "resolve fs n acc [] = Some acc"
| "resolve fs n acc (c # cs) =
     (if c = [] \<or> c = ''.'' then resolve fs n acc cs
      else if c = ''..'' then resolve fs n (butlast acc) cs
      else case lookup fs (acc @ [c]) of
             None \<Rightarrow> None
           | Some (LinkNode t) \<Rightarrow>
               (if n = 0 then None
                else resolve fs (n - 1) (if prefix ''/'' t then [] else acc) (split_char CHR ''/'' t @ cs))
           | Some _ \<Rightarrow> if cs \<noteq> [] \<and> lookup fs (acc @ [c]) \<noteq> Some DirNode then None
                       else resolve fs n (acc @ [c]) cs)"
  by pat_completeness auto
termination
  by (relation "measures [\<lambda>(fs, n, acc, cs). n, \<lambda>(fs, n, acc, cs). length cs]") auto

definition stat :: "files \<Rightarrow> path \<Rightarrow> node option" where
  "stat fs p = Option.bind (resolve fs 40 [] p) (lookup fs)"

definition reading :: "(files \<Rightarrow> io_error + 'a) \<Rightarrow> 'a sys" where
  "reading f = syscall intact (\<lambda>fs. (f fs, fs))"

definition sys_try_exists :: "path \<Rightarrow> bool sys" where
  "sys_try_exists p = reading (\<lambda>fs. Inr (stat fs p \<noteq> None))"

text \<open>\<open>Path::exists\<close>: an error counts as absent.\<close>

definition sys_exists :: "path \<Rightarrow> world \<Rightarrow> bool \<times> world" where
  "sys_exists p w = (case sys_try_exists p w of (Inr b, w') \<Rightarrow> (b, w') | (Inl _, w') \<Rightarrow> (False, w'))"

definition sys_metadata :: "path \<Rightarrow> node sys" where
  "sys_metadata p = reading (\<lambda>fs. ok_or (stat fs p) not_found)"

definition sys_symlink_metadata :: "path \<Rightarrow> node sys" where
  "sys_symlink_metadata p = reading (\<lambda>fs. ok_or (lookup fs p) not_found)"

definition sys_read :: "path \<Rightarrow> string sys" where
  "sys_read p =
     reading (\<lambda>fs. case stat fs p of
        Some (FileNode b _) \<Rightarrow> Inr b
      | Some _ \<Rightarrow> Inl (io_other ''Is a directory (os error 21)'')
      | None \<Rightarrow> Inl not_found)"

definition sys_read_dir :: "path \<Rightarrow> string list sys" where
  "sys_read_dir p =
     reading (\<lambda>fs. case resolve fs 40 [] p of
        None \<Rightarrow> Inl not_found
      | Some q \<Rightarrow> (case lookup fs q of
            Some DirNode \<Rightarrow> Inr (child_names fs q)
          | Some _ \<Rightarrow> Inl (io_other ''Not a directory (os error 20)'')
          | None \<Rightarrow> Inl not_found))"

definition sys_read_link :: "path \<Rightarrow> string sys" where
  "sys_read_link p =
     reading (\<lambda>fs. case lookup fs p of
        Some (LinkNode t) \<Rightarrow> Inr t
      | Some _ \<Rightarrow> Inl (io_other ''Invalid argument (os error 22)'')
      | None \<Rightarrow> Inl not_found)"

definition rename_files :: "path \<Rightarrow> path \<Rightarrow> files \<Rightarrow> (io_error + unit) \<times> files" where
  "rename_files src dst fs =
     (if lookup fs src = None \<or> lookup fs (butlast dst) \<noteq> Some DirNode then (Inl not_found, fs)
      else if src = dst then (Inr (), fs)
      else if prefix src dst \<or> prefix dst src then (Inl (io_other ''Invalid argument (os error 22)''), fs)
      else case lookup fs dst of
             None \<Rightarrow> (Inr (), move_tree src dst fs)
           | Some DirNode \<Rightarrow>
               if lookup fs src \<noteq> Some DirNode then (Inl (io_other ''Is a directory (os error 21)''), fs)
               else if child_names fs dst \<noteq> [] then (Inl (io_other ''Directory not empty (os error 39)''), fs)
               else (Inr (), move_tree src dst fs)
           | Some _ \<Rightarrow>
               if lookup fs src = Some DirNode then (Inl (io_other ''Not a directory (os error 20)''), fs)
               else (Inr (), move_tree src dst fs))"

definition sys_rename :: "path \<Rightarrow> path \<Rightarrow> unit sys" where
  "sys_rename src dst = syscall intact (rename_files src dst)"

definition partly_removed :: "path \<Rightarrow> fault \<Rightarrow> files \<Rightarrow> files" where
  "partly_removed p ft fs = filter (\<lambda>(q, _). \<not> (strict_prefix p q \<and> ft_gone ft q)) fs"

definition sys_remove_dir_all :: "path \<Rightarrow> unit sys" where
  "sys_remove_dir_all p =
     syscall (partly_removed p) (\<lambda>fs. case lookup fs p of
        None \<Rightarrow> (Inl not_found, fs)
      | Some (FileNode _ _) \<Rightarrow> (Inl (io_other ''Not a directory (os error 20)''), fs)
      | Some (OtherNode _) \<Rightarrow> (Inl (io_other ''Not a directory (os error 20)''), fs)
      | Some _ \<Rightarrow> (Inr (), remove_tree p fs))"

definition sys_remove_dir :: "path \<Rightarrow> unit sys" where
  "sys_remove_dir p =
     syscall intact (\<lambda>fs. case lookup fs p of
        Some DirNode \<Rightarrow>
          if child_names fs p \<noteq> [] then (Inl (io_other ''Directory not empty (os error 39)''), fs)
          else (Inr (), remove_tree p fs)
      | Some _ \<Rightarrow> (Inl (io_other ''Not a directory (os error 20)''), fs)
      | None \<Rightarrow> (Inl not_found, fs))"

definition sys_remove_file :: "path \<Rightarrow> unit sys" where
  "sys_remove_file p =
     syscall intact (\<lambda>fs. case lookup fs p of
        None \<Rightarrow> (Inl not_found, fs)
      | Some DirNode \<Rightarrow> (Inl (io_other ''Is a directory (os error 21)''), fs)
      | Some _ \<Rightarrow> (Inr (), remove_tree p fs))"

text \<open>\<open>std::fs::write\<close>: create or truncate, then write all bytes.\<close>

definition sys_write :: "path \<Rightarrow> string \<Rightarrow> unit sys" where
  "sys_write p bytes =
     syscall (\<lambda>ft fs. if lookup fs (butlast p) = Some DirNode \<and> lookup fs p \<noteq> Some DirNode
                      then put_node p (FileNode (take (ft_written ft) bytes) 420) fs else fs)
       (\<lambda>fs. if lookup fs (butlast p) \<noteq> Some DirNode then (Inl not_found, fs)
             else case lookup fs p of
               Some DirNode \<Rightarrow> (Inl (io_other ''Is a directory (os error 21)''), fs)
             | Some (FileNode _ m) \<Rightarrow> (Inr (), put_node p (FileNode bytes m) fs)
             | _ \<Rightarrow> (Inr (), put_node p (FileNode bytes 420) fs))"

text \<open>
  \<open>File::create\<close> makes an empty file or empties the one there; \<open>write_all\<close> on the open file
  appends, and may have written a part when it fails.
\<close>

definition sys_create_file :: "path \<Rightarrow> unit sys" where
  "sys_create_file p =
     syscall intact
       (\<lambda>fs. if lookup fs (butlast p) \<noteq> Some DirNode then (Inl not_found, fs)
             else case lookup fs p of
               Some DirNode \<Rightarrow> (Inl (io_other ''Is a directory (os error 21)''), fs)
             | Some (FileNode _ m) \<Rightarrow> (Inr (), put_node p (FileNode [] m) fs)
             | _ \<Rightarrow> (Inr (), put_node p (FileNode [] 420) fs))"

definition append_to :: "path \<Rightarrow> string \<Rightarrow> files \<Rightarrow> files" where
  "append_to p bytes fs =
     (case lookup fs p of Some (FileNode b m) \<Rightarrow> put_node p (FileNode (b @ bytes) m) fs | _ \<Rightarrow> fs)"

definition sys_append :: "path \<Rightarrow> string \<Rightarrow> unit sys" where
  "sys_append p bytes =
     syscall (\<lambda>ft. append_to p (take (ft_written ft) bytes)) (\<lambda>fs. (Inr (), append_to p bytes fs))"

definition sys_symlink :: "string \<Rightarrow> path \<Rightarrow> unit sys" where
  "sys_symlink target p =
     syscall intact
       (\<lambda>fs. if lookup fs (butlast p) \<noteq> Some DirNode then (Inl not_found, fs)
             else if lookup fs p \<noteq> None
             then (Inl \<lparr>io_kind = KAlreadyExists, io_text = ''File exists (os error 17)''\<rparr>, fs)
             else (Inr (), put_node p (LinkNode target) fs))"

text \<open>\<open>create_dir_all\<close>: every missing ancestor is made; a non-directory in the way is an error.\<close>

fun make_dirs :: "path list \<Rightarrow> files \<Rightarrow> (io_error + unit) \<times> files" where
  "make_dirs [] fs = (Inr (), fs)"
| "make_dirs (p # ps) fs =
     (case lookup fs p of
        None \<Rightarrow> make_dirs ps (put_node p DirNode fs)
      | Some DirNode \<Rightarrow> make_dirs ps fs
      | Some _ \<Rightarrow> (Inl (io_other ''Not a directory (os error 20)''), fs))"

definition sys_create_dir_all :: "path \<Rightarrow> unit sys" where
  "sys_create_dir_all p = syscall intact (make_dirs (map (\<lambda>n. take n p) [1..<Suc (length p)]))"

text \<open>A call as part of a function that returns \<open>anyhow::Result\<close>.\<close>

definition sys_io :: "'a sys \<Rightarrow> (world, 'a) io" where
  "sys_io f w = (case f w of (r, w') \<Rightarrow> (any_io r, w'))"

definition sys_context :: "string \<Rightarrow> 'a sys \<Rightarrow> (world, 'a) io" where
  "sys_context c f = io_context c (sys_io f)"

section \<open>The interface of a file store\<close>

text \<open>What the installer relies on: removing and moving a tree act on the subtrees alone.\<close>

locale file_store =
  fixes look :: "'f \<Rightarrow> path \<Rightarrow> node option"
    and remove :: "path \<Rightarrow> 'f \<Rightarrow> 'f" and move :: "path \<Rightarrow> path \<Rightarrow> 'f \<Rightarrow> 'f"
  assumes look_remove: "p \<noteq> [] \<Longrightarrow> look (remove p f) q = (if prefix p q then None else look f q)"
    and look_move: "\<lbrakk>src \<noteq> []; dst \<noteq> []; \<not> prefix src dst; \<not> prefix dst src\<rbrakk> \<Longrightarrow>
      look (move src dst f) q =
        (if prefix dst q then look f (src @ drop (length dst) q)
         else if prefix src q then None else look f q)"
begin

lemma look_moved:
  assumes "src \<noteq> []" "dst \<noteq> []" "\<not> prefix src dst" "\<not> prefix dst src"
  shows "look (move src dst f) (dst @ q) = look f (src @ q)"
    and "look (move src dst f) (src @ q) = None"
  using assms by (auto simp: look_move prefix_def append_eq_append_conv2)

lemma move_back:
  assumes ne: "a \<noteq> []" "b \<noteq> []" "\<not> prefix a b" "\<not> prefix b a" and empty: "\<And>q. look f (b @ q) = None"
  shows "look (move b a (move a b f)) q = look f q"
proof -
  have "look (move b a (move a b f)) q =
     (if prefix a q then look (move a b f) (b @ drop (length a) q)
      else if prefix b q then None else look (move a b f) q)"
    using ne by (intro look_move) auto
  then show ?thesis
    using look_moved(1)[OF ne] look_move[OF ne, of f q] empty by (auto simp: prefix_def)
qed

end

lemma lookup_remove_tree:
  "p \<noteq> [] \<Longrightarrow> lookup (remove_tree p fs) q = (if prefix p q then None else lookup fs q)"
  unfolding lookup_def remove_tree_def by (induction fs) auto

lemma lookup_move_tree:
  assumes "src \<noteq> []" "dst \<noteq> []" "\<not> prefix src dst" "\<not> prefix dst src"
  shows "lookup (move_tree src dst fs) q =
     (if prefix dst q then lookup fs (src @ drop (length dst) q)
      else if prefix src q then None else lookup fs q)"
proof (cases "q = []")
  case True
  with assms show ?thesis by (simp add: lookup_def)
next
  case False
  show ?thesis
  proof (induction fs)
    case Nil
    with False assms show ?case by (auto simp: lookup_def move_tree_def remove_tree_def)
  next
    case (Cons e fs)
    obtain r n where e: "e = (r, n)" by fastforce
    have key: "(dst @ drop (length src) r = q) = (prefix dst q \<and> r = src @ drop (length dst) q)"
      if "prefix src r" using that by (auto simp: prefix_def)
    have *: "prefix dst q \<Longrightarrow> r = src @ drop (length dst) q \<Longrightarrow> \<not> prefix dst r"
      using assms by (auto simp: prefix_def append_eq_append_conv2)
    show ?case
      using Cons.IH False assms key * e
      by (auto simp: lookup_def move_tree_def remove_tree_def)
  qed
qed

interpretation disk: file_store lookup remove_tree move_tree
  by unfold_locales (rule lookup_remove_tree, assumption, rule lookup_move_tree)

section \<open>Well-formed file systems\<close>

text \<open>Every entry has plain names and stands in a directory.\<close>

definition wf_files :: "files \<Rightarrow> bool" where
  "wf_files fs \<longleftrightarrow>
     list_all (\<lambda>(q, _). q \<noteq> [] \<and> list_all plain_name q \<and> lookup fs (butlast q) = Some DirNode) fs"

lemma lookup_Nil [simp]: "lookup fs [] = Some DirNode"
  by (simp add: lookup_def)

lemma lookup_put_node: "p \<noteq> [] \<Longrightarrow> lookup (put_node p n fs) q = (if q = p then Some n else lookup fs q)"
  by (auto simp: lookup_def put_node_def)

lemma lookup_mem: "q \<noteq> [] \<Longrightarrow> lookup fs q = Some n \<Longrightarrow> (q, n) \<in> set fs"
  by (simp add: lookup_def map_of_SomeD)

lemma wf_filesD:
  assumes "wf_files fs" "lookup fs (q @ [c]) \<noteq> None"
  shows "lookup fs q = Some DirNode" "plain_name c" "list_all plain_name q"
proof -
  obtain n where "(q @ [c], n) \<in> set fs"
    using assms(2) lookup_mem[of "q @ [c]"] by blast
  with assms(1) show "lookup fs q = Some DirNode" "plain_name c" "list_all plain_name q"
    by (auto simp: wf_files_def list_all_iff)
qed

lemma child_names_iff:
  assumes "wf_files fs" shows "c \<in> set (child_names fs p) \<longleftrightarrow> lookup fs (p @ [c]) \<noteq> None"
proof -
  have "c \<in> set (child_names fs p) \<longleftrightarrow> (\<exists>n. (p @ [c], n) \<in> set fs)"
  proof
    assume "c \<in> set (child_names fs p)"
    then obtain q n where "(q, n) \<in> set fs" "q \<noteq> []" "butlast q = p" "last q = c"
      by (auto simp: child_names_def)
    then show "\<exists>n. (p @ [c], n) \<in> set fs" by (metis append_butlast_last_id)
  next
    assume "\<exists>n. (p @ [c], n) \<in> set fs"
    then show "c \<in> set (child_names fs p)" by (force simp: child_names_def)
  qed
  also have "\<dots> \<longleftrightarrow> lookup fs (p @ [c]) \<noteq> None"
    by (force simp: lookup_def map_of_eq_None_iff)
  finally show ?thesis .
qed

lemma distinct_child_names [simp]: "distinct (child_names fs p)"
  by (simp add: child_names_def)

lemma wf_ancestor:
  assumes wf: "wf_files fs" shows "lookup fs (q @ r) \<noteq> None \<Longrightarrow> r \<noteq> [] \<Longrightarrow> lookup fs q = Some DirNode"
proof (induction r rule: rev_induct)
  case (snoc c r)
  have "lookup fs (q @ r) = Some DirNode" using wf_filesD(1)[OF wf, of "q @ r" c] snoc.prems by simp
  then show ?case using snoc.IH by (cases r) auto
qed simp

lemma resolve_plain:
  assumes wf: "wf_files fs"
  shows "lookup fs (acc @ cs) = Some n \<Longrightarrow> \<forall>t. n \<noteq> LinkNode t \<Longrightarrow> resolve fs k acc cs = Some (acc @ cs)"
proof (induction cs arbitrary: acc)
  case (Cons c cs)
  have there: "lookup fs (acc @ [c]) = Some (if cs = [] then n else DirNode)"
    using Cons.prems wf_ancestor[OF wf, of "acc @ [c]" cs] by auto
  then have "plain_name c" using wf_filesD(2)[OF wf, of acc c] by simp
  moreover have "resolve fs k (acc @ [c]) cs = Some (acc @ c # cs)"
    using Cons.IH[of "acc @ [c]"] Cons.prems by simp
  ultimately show ?case
    using there Cons.prems(2) by (cases n) (auto simp: plain_name_def)
qed simp

lemma stat_plain:
  "wf_files fs \<Longrightarrow> lookup fs p = Some n \<Longrightarrow> \<forall>t. n \<noteq> LinkNode t \<Longrightarrow> stat fs p = Some n"
  using resolve_plain[of fs "[]" p n 40] by (simp add: stat_def)

text \<open>A directory that stands on directories.\<close>

definition anchored :: "files \<Rightarrow> path \<Rightarrow> bool" where
  "anchored fs d \<longleftrightarrow> (\<forall>n. lookup fs (take n d) = Some DirNode)"

lemma resolve_through:
  "list_all plain_name d \<Longrightarrow> \<forall>n. lookup fs (acc @ take n d) = Some DirNode \<Longrightarrow>
     resolve fs k acc (d @ cs) = resolve fs k (acc @ d) cs"
proof (induction d arbitrary: acc)
  case (Cons c d)
  have "lookup fs (acc @ [c]) = Some DirNode" using spec[OF Cons.prems(2), of 1] by simp
  moreover have "\<forall>n. lookup fs ((acc @ [c]) @ take n d) = Some DirNode"
  proof
    fix n show "lookup fs ((acc @ [c]) @ take n d) = Some DirNode"
      using spec[OF Cons.prems(2), of "Suc n"] by simp
  qed
  ultimately show ?case using Cons by (auto simp: plain_name_def)
qed simp

lemma resolve_below:
  "anchored fs d \<Longrightarrow> list_all plain_name d \<Longrightarrow> resolve fs k [] (d @ cs) = resolve fs k d cs"
  using resolve_through[of d fs "[]" k cs] by (simp add: anchored_def)

lemma anchored_stat: "anchored fs d \<Longrightarrow> list_all plain_name d \<Longrightarrow> stat fs d = Some DirNode"
  using resolve_below[of fs d 40 "[]"] unfolding anchored_def stat_def
  by (metis append.right_neutral bind.bind_lunit order_refl resolve.simps(1) take_all)

section \<open>Runs without faults\<close>

definition calm :: "world \<Rightarrow> bool" where
  "calm w \<longleftrightarrow> (\<forall>n. w_faults w n = None)"

text \<open>Without faults the program reads the files \<open>fs\<close> and returns \<open>x\<close>.\<close>

definition yields :: "(world, 'a) io \<Rightarrow> files \<Rightarrow> 'a \<Rightarrow> bool" where
  "yields m fs x \<longleftrightarrow>
     (\<forall>w. w_files w = fs \<longrightarrow> calm w \<longrightarrow> (\<exists>w'. m w = (Inr x, w') \<and> w_files w' = fs \<and> calm w'))"

lemma yields_fst: "yields m fs x \<Longrightarrow> w_files w = fs \<Longrightarrow> calm w \<Longrightarrow> fst (m w) = Inr x"
  by (force simp: yields_def)

named_theorems yields_intros \<open>results of fault-free runs\<close>

lemma yields_return [yields_intros]: "yields (io_return x) fs x"
  and yields_Pair [yields_intros]: "yields (Pair (Inr x)) fs x"
  and yields_result [yields_intros]: "yields (io_result (Inr x)) fs x"
  by (simp_all add: yields_def)

lemma yields_then [yields_intros]: "yields m fs x \<Longrightarrow> yields (f x) fs y \<Longrightarrow> yields (io_then m f) fs y"
  unfolding yields_def io_then_def by (metis (no_types, lifting) case_prod_conv old.sum.simps(6))

lemma yields_context [yields_intros]: "yields m fs x \<Longrightarrow> yields (io_context c m) fs x"
  unfolding yields_def by (metis io_context_eq_Inr)

lemma yields_reading [yields_intros]: "f fs = Inr x \<Longrightarrow> yields (sys_io (reading f)) fs x"
  by (auto simp: yields_def calm_def sys_io_def reading_def syscall_def)

lemma yields_sys_context [yields_intros]: "yields (sys_io f) fs x \<Longrightarrow> yields (sys_context c f) fs x"
  unfolding sys_context_def by (rule yields_context)

lemma yields_collect:
  "list_all2 (\<lambda>x y. yields (f x) fs y) xs ys \<Longrightarrow> yields (io_collect f xs) fs ys"
  by (induction rule: list_all2_induct) (auto intro!: yields_intros)

section \<open>Programs that only read\<close>

definition same_files :: "world \<Rightarrow> world \<Rightarrow> bool" where
  "same_files w w' \<longleftrightarrow> w_files w' = w_files w \<and> w_faults w' = w_faults w"

lemma same_files_refl [simp]: "reflp same_files"
  and same_files_trans [simp]: "transp same_files"
  by (auto simp: same_files_def reflp_def transp_def)

abbreviation reads_only :: "(world, 'a) io \<Rightarrow> bool" where
  "reads_only m \<equiv> io_keeps same_files m"

lemma reads_only_return [keeps_intros]: "reads_only (io_return x)"
  and reads_only_result [keeps_intros]: "reads_only (io_result r)"
  and reads_only_Pair [keeps_intros]: "reads_only (Pair r)"
  using io_keeps_return io_keeps_result by (simp_all add: io_keeps_def same_files_def)

lemma reads_only_then [keeps_intros]: "reads_only m \<Longrightarrow> (\<And>x. reads_only (f x)) \<Longrightarrow> reads_only (io_then m f)"
  and reads_only_try [keeps_intros]: "reads_only m \<Longrightarrow> (\<And>r. reads_only (g r)) \<Longrightarrow> reads_only (io_try m g)"
  by (simp_all add: io_keeps_then io_keeps_try)

lemma reads_only_reading [keeps_intros]: "reads_only (sys_io (reading f))"
  by (simp add: io_keeps_def same_files_def sys_io_def reading_def syscall_def Let_def intact_def
      split: option.split prod.split)

lemma reads_only_sys_context [keeps_intros]: "reads_only (sys_io f) \<Longrightarrow> reads_only (sys_context c f)"
  by (simp add: sys_context_def io_keeps_context)

lemma reads_only_collect [keeps_intros]:
  "(\<And>x. reads_only (f x)) \<Longrightarrow> reads_only (io_collect f xs)"
  by (induction xs) (auto intro!: keeps_intros)

lemmas reading_calls = sys_try_exists_def sys_metadata_def sys_symlink_metadata_def sys_read_def
  sys_read_dir_def sys_read_link_def

lemma sys_io_reading_Inr:
  "sys_io (reading f) w = (Inr x, w') \<Longrightarrow> f (w_files w) = Inr x \<and> w_files w' = w_files w"
  by (auto simp: sys_io_def reading_def syscall_def Let_def split: option.splits)

lemma sys_context_reading_Inr:
  "sys_context c (reading f) w = (Inr x, w') \<Longrightarrow> f (w_files w) = Inr x \<and> w_files w' = w_files w"
  unfolding sys_context_def by (simp add: sys_io_reading_Inr)

lemma sys_read_Inr: "sys_context c (sys_read p) w = (Inr b, w') \<Longrightarrow>
    (\<exists>m. stat (w_files w) p = Some (FileNode b m)) \<and> w_files w' = w_files w"
  unfolding sys_read_def by (drule sys_context_reading_Inr) (auto split: option.splits node.splits)

lemma sys_metadata_Inr: "sys_io (sys_metadata p) w = (Inr n, w') \<Longrightarrow>
    stat (w_files w) p = Some n"
  unfolding sys_metadata_def by (drule sys_io_reading_Inr) auto

lemma reads_only_files: "reads_only m \<Longrightarrow> m w = (r, w') \<Longrightarrow> w_files w' = w_files w"
  by (drule (1) io_keepsD) (simp add: same_files_def)

end
