(* ===== verification/Payload.thy ===== *)
theory Payload
  imports Files Binary_Types
begin

text \<open>
  The digests of \<open>src/src/installer/binary/validation.rs\<close>: the bytes fed to the hasher for a
  file and for a complete payload tree. SHA-256 itself is a parameter; \<open>cancel\<close> says whether
  the cancellation flag is set when a given number of system calls has been made.
\<close>

type_synonym cancel = "nat \<Rightarrow> bool"

definition check_extraction_cancelled :: "cancel \<Rightarrow> (world, unit) io" where
  "check_extraction_cancelled cancel w =
     (if cancel (w_calls w) then bail ''extraction cancelled'' else Inr (), w)"

definition never :: cancel where "never = (\<lambda>_. False)"

definition BUFFER :: nat where "BUFFER = 32 * 1024"

text \<open>Little-endian bytes of a \<open>u64\<close>.\<close>

fun le_bytes :: "nat \<Rightarrow> nat \<Rightarrow> string" where
  "le_bytes 0 n = []"
| "le_bytes (Suc k) n = char_of (n mod 256) # le_bytes k (n div 256)"

definition le64 :: "u64 \<Rightarrow> string" where
  "le64 w = le_bytes 8 (unat w)"

definition hash_length_prefixed :: "string \<Rightarrow> string" where
  "hash_length_prefixed bytes = le64 (of_nat (length bytes)) @ bytes"

section \<open>The digest of a file\<close>

text \<open>The read loop; \<open>rest\<close> is what the open file has left, \<open>seen\<close> what was hashed.\<close>

function hash_file_loop :: "cancel \<Rightarrow> string \<Rightarrow> string \<Rightarrow> (world, string) io" where
  "hash_file_loop cancel rest seen =
     io_then (check_extraction_cancelled cancel) (\<lambda>_.
     io_then (sys_io (reading (\<lambda>_. Inr ()))) (\<lambda>_.
       if rest = [] then io_return seen
       else hash_file_loop cancel (drop BUFFER rest) (seen @ take BUFFER rest)))"
  by pat_completeness auto
termination
  by (relation "measure (\<lambda>(_, rest, _). length rest)") (auto simp: BUFFER_def)

declare hash_file_loop.simps [simp del]

definition hash_file_sha256_blocking ::
    "(string \<Rightarrow> string) \<Rightarrow> cancel \<Rightarrow> path \<Rightarrow> (world, string) io" where
  "hash_file_sha256_blocking sha256 cancel p =
     io_then (sys_context (''failed to open executable '' @ path_display p) (sys_read p)) (\<lambda>content.
     io_then (hash_file_loop cancel content []) (\<lambda>seen.
     io_then (check_extraction_cancelled cancel) (\<lambda>_.
       io_return (hex_encode (sha256 seen)))))"

section \<open>The digest of a payload tree\<close>

function hash_content_loop :: "cancel \<Rightarrow> error \<Rightarrow> string \<Rightarrow> string \<Rightarrow> u64 \<Rightarrow> (world, string \<times> u64) io" where
  "hash_content_loop cancel too_large rest seen actual_len =
     io_then (check_extraction_cancelled cancel) (\<lambda>_.
     io_then (sys_io (reading (\<lambda>_. Inr ()))) (\<lambda>_.
       if rest = [] then io_return (seen, actual_len)
       else io_then (io_result (ok_or (checked_add actual_len (of_nat (length (take BUFFER rest)))) too_large))
              (\<lambda>n. hash_content_loop cancel too_large (drop BUFFER rest) (seen @ take BUFFER rest) n)))"
  by pat_completeness auto
termination
  by (relation "measure (\<lambda>(_, _, rest, _, _). length rest)") (auto simp: BUFFER_def)

declare hash_content_loop.simps [simp del]

text \<open>
  \<open>hash_payload_entry\<close> returns the bytes it feeds to the hasher. The first argument bounds
  the depth of the recursion; \<open>tree_fuel\<close> is enough for every directory of a file system.
\<close>

fun hash_payload_entry :: "nat \<Rightarrow> cancel \<Rightarrow> path \<Rightarrow> string \<Rightarrow> (world, string) io" where
  "hash_payload_entry 0 cancel p rel = io_result (bail ''payload tree is too deep'')"
| "hash_payload_entry (Suc n) cancel p rel =
     io_then (check_extraction_cancelled cancel) (\<lambda>_.
     io_then (sys_context (''failed to inspect payload entry '' @ path_display p) (sys_symlink_metadata p)) (\<lambda>kind.
     io_then
       (case kind of
          DirNode \<Rightarrow>
            io_then (sys_context (''failed to read payload directory '' @ path_display p) (sys_read_dir p)) (\<lambda>names.
            io_then (io_collect (\<lambda>name. hash_payload_entry n cancel (p @ [name]) (path_join rel name)) (sort names))
              (\<lambda>parts. io_return (''d'' @ le64 (of_nat (length names)) @ concat parts)))
        | FileNode content _ \<Rightarrow>
            (let expected_len = of_nat (length content) in
             io_then (sys_context (''failed to open payload file '' @ path_display p) (sys_read p)) (\<lambda>bytes.
             io_then (hash_content_loop cancel [''payload file is too large to hash: '' @ path_display p] bytes [] 0)
               (\<lambda>(seen, actual_len).
                 if actual_len \<noteq> expected_len
                 then io_result (bail (''payload file changed while hashing: '' @ path_display p))
                 else io_return (''f'' @ le64 expected_len @ seen))))
        | LinkNode _ \<Rightarrow>
            io_then (sys_context (''failed to read payload link '' @ path_display p) (sys_read_link p))
              (\<lambda>target. io_return (''l'' @ hash_length_prefixed target))
        | OtherNode len \<Rightarrow> io_return (''o'' @ le64 len))
       (\<lambda>body. io_return (hash_length_prefixed rel @ body))))"

definition tree_fuel :: "files \<Rightarrow> nat" where
  "tree_fuel fs = Suc (fold max (map (length \<circ> fst) fs) 0)"

definition payload_header :: string where
  "payload_header = ''acp-agent-payload-tree-v2'' @ [nul]"

definition hash_payload_sha256_blocking ::
    "(string \<Rightarrow> string) \<Rightarrow> cancel \<Rightarrow> path \<Rightarrow> (world, string) io" where
  "hash_payload_sha256_blocking sha256 cancel p w =
     io_then (hash_payload_entry (tree_fuel (w_files w)) cancel p [])
       (\<lambda>fed. io_return (hex_encode (sha256 (payload_header @ fed)))) w"

section \<open>Payload trees\<close>

text \<open>What a payload is, apart from file modes; the entries of a directory are in byte order.\<close>

datatype tree = TDir "(string \<times> tree) list" | TFile string | TLink string | TOther u64

fun tree_bytes :: "string \<Rightarrow> tree \<Rightarrow> string" where
  "tree_bytes rel (TDir es) =
     hash_length_prefixed rel @ ''d'' @ le64 (of_nat (length es))
       @ concat (map (\<lambda>(name, t). tree_bytes (path_join rel name) t) es)"
| "tree_bytes rel (TFile content) =
     hash_length_prefixed rel @ ''f'' @ le64 (of_nat (length content)) @ content"
| "tree_bytes rel (TLink target) = hash_length_prefixed rel @ ''l'' @ hash_length_prefixed target"
| "tree_bytes rel (TOther len) = hash_length_prefixed rel @ ''o'' @ le64 len"

fun tree_at :: "files \<Rightarrow> path \<Rightarrow> tree \<Rightarrow> bool" where
  "tree_at fs p (TDir es) \<longleftrightarrow>
     lookup fs p = Some DirNode \<and> map fst es = sort (child_names fs p)
     \<and> list_all (\<lambda>(name, t). tree_at fs (p @ [name]) t) es"
| "tree_at fs p (TFile content) \<longleftrightarrow> (case lookup fs p of Some (FileNode c _) \<Rightarrow> c = content | _ \<Rightarrow> False)"
| "tree_at fs p (TLink target) \<longleftrightarrow> lookup fs p = Some (LinkNode target)"
| "tree_at fs p (TOther len) \<longleftrightarrow> lookup fs p = Some (OtherNode len)"

text \<open>Sizes that the file system and the format can express.\<close>

fun sized :: "string \<Rightarrow> tree \<Rightarrow> bool" where
  "sized rel (TDir es) \<longleftrightarrow>
     length rel < 2 ^ 64 \<and> length es < 2 ^ 64
     \<and> list_all (\<lambda>(name, t). plain_name name \<and> sized (path_join rel name) t) es"
| "sized rel (TFile content) \<longleftrightarrow> length rel < 2 ^ 64 \<and> length content < 2 ^ 64"
| "sized rel (TLink target) \<longleftrightarrow> length rel < 2 ^ 64 \<and> length target < 2 ^ 64"
| "sized rel (TOther len) \<longleftrightarrow> length rel < 2 ^ 64"

section \<open>The hashing functions only read\<close>

lemma reads_only_check [keeps_intros]: "reads_only (check_extraction_cancelled cancel)"
  by (simp add: io_keeps_def check_extraction_cancelled_def same_files_def)

lemma reads_only_file_loop [keeps_intros]: "reads_only (hash_file_loop cancel rest seen)"
proof (induction cancel rest seen rule: hash_file_loop.induct)
  case (1 cancel rest seen)
  then show ?case by (subst hash_file_loop.simps) (auto intro!: keeps_intros)
qed

lemma reads_only_content_loop [keeps_intros]: "reads_only (hash_content_loop cancel e rest seen n)"
proof (induction cancel e rest seen n rule: hash_content_loop.induct)
  case (1 cancel e rest seen n)
  then show ?case by (subst hash_content_loop.simps) (auto intro!: keeps_intros)
qed

lemma reads_only_hash_file [keeps_intros]: "reads_only (hash_file_sha256_blocking sha256 cancel p)"
  by (auto simp: hash_file_sha256_blocking_def reading_calls intro!: keeps_intros)

lemma reads_only_hash_entry [keeps_intros]: "reads_only (hash_payload_entry n cancel p rel)"
  by (induction n cancel p rel rule: hash_payload_entry.induct)
    (auto simp: reading_calls Let_def split: node.split intro!: keeps_intros)

lemma reads_only_hash_payload [keeps_intros]: "reads_only (hash_payload_sha256_blocking sha256 cancel p)"
proof -
  have "reads_only (io_then (hash_payload_entry n cancel p [])
      (\<lambda>fed. io_return (hex_encode (sha256 (payload_header @ fed)))))" for n
    by (auto intro!: keeps_intros)
  then show ?thesis by (simp add: io_keeps_def hash_payload_sha256_blocking_def)
qed

section \<open>The encoding is a prefix code\<close>

lemma length_le_bytes [simp]: "length (le_bytes k n) = k"
  by (induction k arbitrary: n) auto

lemma le_bytes_inject:
  "le_bytes k m = le_bytes k n \<Longrightarrow> m < 256 ^ k \<Longrightarrow> n < 256 ^ k \<Longrightarrow> m = n"
proof (induction k arbitrary: m n)
  case (Suc k)
  have "of_char (char_of (m mod 256) :: char) = (of_char (char_of (n mod 256) :: char) :: nat)"
    using Suc.prems(1) by simp
  then have "m mod 256 = n mod 256" by (simp only: of_char_of) simp
  moreover have "m div 256 = n div 256"
    using Suc.prems by (intro Suc.IH) (auto simp: less_mult_imp_div_less mult.commute)
  ultimately show ?case by (metis div_mult_mod_eq)
qed simp

lemma length_le64 [simp]: "length (le64 w) = 8"
  by (simp add: le64_def)

lemma le64_inject [simp]: "le64 a = le64 b \<longleftrightarrow> a = b"
proof
  assume "le64 a = le64 b"
  then have "unat a = unat b"
    using unsigned_less[of a] unsigned_less[of b] by (intro le_bytes_inject[of 8]) (auto simp: le64_def)
  then show "a = b" by (rule unsigned_word_eqI)
qed simp

lemma of_nat_u64_inject:
  "m < 2 ^ 64 \<Longrightarrow> n < 2 ^ 64 \<Longrightarrow> (of_nat m :: u64) = of_nat n \<longleftrightarrow> m = n"
  using inj_of_nat_u64 by (auto simp: inj_on_def)

lemma length_prefixed_cancel:
  assumes "length a < 2 ^ 64" "length b < 2 ^ 64"
  shows "hash_length_prefixed a @ r = hash_length_prefixed b @ s \<longleftrightarrow> a = b \<and> r = s"
proof
  assume eq: "hash_length_prefixed a @ r = hash_length_prefixed b @ s"
  then have 1: "le64 (of_nat (length a)) = le64 (of_nat (length b))" and 2: "a @ r = b @ s"
    by (simp_all add: hash_length_prefixed_def)
  from 1 have "length a = length b" using assms by (simp add: of_nat_u64_inject)
  with 2 show "a = b \<and> r = s" by simp
qed simp

lemma le64_cancel: "le64 a @ r = le64 b @ s \<longleftrightarrow> a = b \<and> r = s"
  by (simp add: append_eq_append_conv)

lemma path_join_inject:
  "plain_name a \<Longrightarrow> plain_name b \<Longrightarrow> path_join rel a = path_join rel b \<longleftrightarrow> a = b"
  by (cases a; cases b) (auto simp: path_join_def plain_name_def)

text \<open>A payload tree followed by anything determines the tree and what follows.\<close>

lemma tree_bytes_cancel:
  "sized rel t \<Longrightarrow> sized rel' t' \<Longrightarrow> tree_bytes rel t @ r = tree_bytes rel' t' @ r'
   \<Longrightarrow> rel = rel' \<and> t = t' \<and> r = r'"
proof (induction rel t arbitrary: rel' t' r r' rule: tree_bytes.induct)
  case (1 rel es)
  then obtain es' where t': "t' = TDir es'"
    by (cases t') (auto simp: length_prefixed_cancel)
  define body where "body = (\<lambda>es. concat (map (\<lambda>(name, t). tree_bytes (path_join rel name) t) es))"
  have rel: "rel = rel'" and len: "length es = length es'" and eq: "body es @ r = body es' @ r'"
    using "1.prems" by (auto simp: t' length_prefixed_cancel le64_cancel of_nat_u64_inject body_def)
  have list: "list_all (\<lambda>(name, t). plain_name name \<and> sized (path_join rel name) t) es"
    "list_all (\<lambda>(name, t). plain_name name \<and> sized (path_join rel name) t) es'"
    using "1.prems" rel t' by auto
  have "xs = ys \<and> r = r'"
    if "length xs = length ys" "body xs @ r = body ys @ r'" "set xs \<subseteq> set es" "set ys \<subseteq> set es'" for xs ys
    using that
  proof (induction xs ys rule: list_induct2)
    case (Cons x xs y ys)
    obtain a t b u where xy: "x = (a, t)" "y = (b, u)" by fastforce
    have "tree_bytes (path_join rel a) t @ (body xs @ r) = tree_bytes (path_join rel b) u @ (body ys @ r')"
      using Cons.prems(1) by (simp add: body_def xy)
    moreover have "(a, t) \<in> set es" "(b, u) \<in> set es'" using Cons.prems xy by auto
    moreover from this have "plain_name a" "sized (path_join rel a) t" "plain_name b" "sized (path_join rel b) u"
      using list by (auto simp: list_all_iff)
    ultimately have "path_join rel a = path_join rel b" "t = u" "body xs @ r = body ys @ r'"
      using "1.IH"[of "(a, t)" a t "path_join rel b" u "body xs @ r" "body ys @ r'"] by auto
    with Cons \<open>plain_name a\<close> \<open>plain_name b\<close> show ?case by (simp add: xy path_join_inject)
  qed (simp add: body_def)
  with rel len eq t' show ?case by auto
next
  case (2 rel content)
  then show ?case
    by (cases t') (auto simp: length_prefixed_cancel le64_cancel of_nat_u64_inject)
next
  case (3 rel target)
  then show ?case by (cases t') (auto simp: length_prefixed_cancel)
next
  case (4 rel len)
  then show ?case by (cases t') (auto simp: length_prefixed_cancel le64_cancel)
qed

section \<open>Without faults the hasher is fed the tree\<close>

lemma yields_check [yields_intros]: "yields (check_extraction_cancelled never) fs ()"
  by (simp add: yields_def check_extraction_cancelled_def never_def)

lemma file_loop_yields [yields_intros]: "yields (hash_file_loop never rest seen) fs (seen @ rest)"
proof (induction never rest seen rule: hash_file_loop.induct)
  case (1 rest seen)
  then show ?case by (subst hash_file_loop.simps) (cases "rest = []"; auto intro!: yields_intros)
qed

lemma content_loop_yields:
  "unat n + length rest < 2 ^ 64 \<Longrightarrow>
   yields (hash_content_loop never e rest seen n) fs (seen @ rest, n + of_nat (length rest))"
proof (induction never e rest seen n rule: hash_content_loop.induct)
  case (1 e rest seen n)
  let ?k = "length (take BUFFER rest)"
  show ?case
  proof (cases "rest = []")
    case True
    then show ?thesis by (subst hash_content_loop.simps) (auto intro!: yields_intros)
  next
    case False
    have k: "?k + length (drop BUFFER rest) = length rest" by (simp add: min_def)
    have small: "unat (of_nat ?k :: u64) = ?k" "unat n + ?k < 2 ^ 64"
      using "1.prems" k by (auto intro: unat_of_nat_u64)
    then have add: "checked_add n (of_nat ?k) = Some (n + of_nat ?k)" by (simp add: checked_add_def)
    have "unat (n + of_nat ?k) = unat n + ?k" using unat_plus_u64[of n "of_nat ?k"] small by simp
    then have "yields (hash_content_loop never e (drop BUFFER rest) (seen @ take BUFFER rest) (n + of_nat ?k)) fs
        ((seen @ take BUFFER rest) @ drop BUFFER rest, (n + of_nat ?k) + of_nat (length (drop BUFFER rest)))"
      using "1.prems" k by (intro "1.hyps"[OF False]) auto
    moreover have "(n + of_nat ?k) + of_nat (length (drop BUFFER rest)) = n + of_nat (length rest)"
      using k by (metis add.assoc of_nat_add)
    ultimately have "yields (hash_content_loop never e (drop BUFFER rest) (seen @ take BUFFER rest) (n + of_nat ?k)) fs
        (seen @ rest, n + of_nat (length rest))"
      by (simp only: append.assoc append_take_drop_id)
    then show ?thesis
      using False add by (subst hash_content_loop.simps) (auto intro!: yields_intros)
  qed
qed


section \<open>The hasher is fed the payload\<close>

definition deepest :: "files \<Rightarrow> nat" where
  "deepest fs = fold max (map (length \<circ> fst) fs) 0"

lemma fold_max_ge: "m \<le> fold max xs (m :: nat) \<and> (\<forall>x \<in> set xs. x \<le> fold max xs m)"
proof (induction xs arbitrary: m)
  case (Cons x xs)
  have "max x m \<le> fold max xs (max x m)" "\<forall>y \<in> set xs. y \<le> fold max xs (max x m)"
    using Cons.IH by blast+
  then show ?case by simp
qed simp

lemma lookup_deepest: "lookup fs p \<noteq> None \<Longrightarrow> length p \<le> deepest fs"
  using fold_max_ge[where m = 0 and xs = "map (length \<circ> fst) fs"] lookup_mem[of p fs]
  by (cases "p = []") (force simp: deepest_def)+

lemma tree_at_lookup: "tree_at fs p t \<Longrightarrow> lookup fs p \<noteq> None"
  by (cases t) (auto split: option.splits)

text \<open>Every entry of a well-formed file system is a payload tree.\<close>

lemma tree_exists:
  assumes wf: "wf_files fs"
  shows "lookup fs p \<noteq> None \<Longrightarrow> \<exists>t. tree_at fs p t"
proof (induction "deepest fs - length p" arbitrary: p rule: less_induct)
  case less
  then obtain n where n: "lookup fs p = Some n" by blast
  show ?case
  proof (cases n)
    case DirNode
    have "\<exists>t. tree_at fs (p @ [c]) t" if "c \<in> set (child_names fs p)" for c
      using that less.hyps[of "p @ [c]"] child_names_iff[OF wf] lookup_deepest[of fs "p @ [c]"] by fastforce
    then obtain f where "\<And>c. c \<in> set (child_names fs p) \<Longrightarrow> tree_at fs (p @ [c]) (f c)" by metis
    then have "tree_at fs p (TDir (map (\<lambda>c. (c, f c)) (sort (child_names fs p))))"
      using n DirNode by (simp add: list_all_iff comp_def)
    then show ?thesis by blast
  next
    case (FileNode content m)
    with n have "tree_at fs p (TFile content)" by simp
    then show ?thesis by blast
  next
    case (LinkNode target)
    with n have "tree_at fs p (TLink target)" by simp
    then show ?thesis by blast
  next
    case (OtherNode len)
    with n have "tree_at fs p (TOther len)" by simp
    then show ?thesis by blast
  qed
qed

lemma entry_yields:
  assumes wf: "wf_files fs"
  shows "tree_at fs p t \<Longrightarrow> sized rel t \<Longrightarrow> deepest fs < n + length p \<Longrightarrow>
    yields (hash_payload_entry n never p rel) fs (tree_bytes rel t)"
proof (induction n arbitrary: p rel t)
  case 0
  then show ?case using lookup_deepest[OF tree_at_lookup] by fastforce
next
  case (Suc n)
  have found: "resolve fs 40 [] p = Some p" "stat fs p = Some k" if "lookup fs p = Some k" "\<forall>t. k \<noteq> LinkNode t" for k
    using that resolve_plain[OF wf, of "[]" p k] stat_plain[OF wf, of p k] by simp_all
  show ?case
  proof (cases t)
    case (TDir es)
    have es: "lookup fs p = Some DirNode" "map fst es = sort (child_names fs p)"
      "\<And>c u. (c, u) \<in> set es \<Longrightarrow> tree_at fs (p @ [c]) u \<and> sized (path_join rel c) u"
      using Suc.prems TDir by (auto simp: list_all_iff)
    have len: "length (child_names fs p) = length es" using es(2) by (metis length_map length_sort)
    have "list_all2 (\<lambda>c x. yields (hash_payload_entry n never (p @ [c]) (path_join rel c)) fs x)
        (map fst es) (map (\<lambda>(c, u). tree_bytes (path_join rel c) u) es)"
      using es(3) Suc.prems(3) by (auto simp: list_all2_map1 list_all2_map2 list_all2_same intro!: Suc.IH)
    then have "yields (io_collect (\<lambda>c. hash_payload_entry n never (p @ [c]) (path_join rel c)) (map fst es)) fs
        (map (\<lambda>(c, u). tree_bytes (path_join rel c) u) es)"
      by (rule yields_collect)
    then show ?thesis
      unfolding TDir using es(1) found[of DirNode] len
      by (auto simp: reading_calls es(2) intro!: yields_intros)
  next
    case (TFile content)
    then obtain m where m: "lookup fs p = Some (FileNode content m)"
      using Suc.prems(1) by (auto split: option.splits node.splits)
    moreover have "yields (hash_content_loop never e content [] 0) fs (content, of_nat (length content))" for e
      using content_loop_yields[where n = 0 and rest = content and seen = "[]"] Suc.prems TFile by simp
    ultimately show ?thesis
      using TFile found[of "FileNode content m"]
      by (auto simp: reading_calls Let_def intro!: yields_intros) (auto intro!: yields_intros)
  next
    case (TLink target)
    with Suc.prems(1) show ?thesis by (auto simp: reading_calls intro!: yields_intros)
  next
    case (TOther len)
    with Suc.prems(1) show ?thesis by (auto simp: reading_calls intro!: yields_intros)
  qed
qed

lemma hash_payload_yields:
  assumes "wf_files fs" "tree_at fs p t" "sized [] t"
  shows "yields (hash_payload_sha256_blocking sha256 never p) fs
    (hex_encode (sha256 (payload_header @ tree_bytes [] t)))"
proof -
  have "yields (hash_payload_entry (tree_fuel fs) never p []) fs (tree_bytes [] t)"
    using assms by (intro entry_yields) (auto simp: tree_fuel_def deepest_def)
  then have "yields (io_then (hash_payload_entry (tree_fuel fs) never p [])
      (\<lambda>fed. io_return (hex_encode (sha256 (payload_header @ fed))))) fs
      (hex_encode (sha256 (payload_header @ tree_bytes [] t)))"
    by (auto intro!: yields_intros)
  then show ?thesis by (simp add: yields_def hash_payload_sha256_blocking_def)
qed

lemma hex_digit_inject: "m < 16 \<Longrightarrow> n < 16 \<Longrightarrow> hex_digit m = hex_digit n \<Longrightarrow> m = n"
proof -
  assume mn: "m < 16" "n < 16" "hex_digit m = hex_digit n"
  have "code (hex_digit k) = (if k < 10 then 48 + k else 87 + k)" if "k < 16" for k
    using that by (simp add: hex_digit_def)
  then have "(if m < 10 then 48 + m else 87 + m) = (if n < 10 then 48 + n else 87 + n)"
    using mn by metis
  then show "m = n" by (simp split: if_splits)
qed

lemma hex_encode_inject [simp]: "hex_encode a = hex_encode b \<longleftrightarrow> a = b"
proof (induction a arbitrary: b)
  case Nil
  then show ?case by (cases b) (auto simp: hex_encode_def hex_byte_def)
next
  case (Cons x a)
  show ?case
  proof (cases b)
    case (Cons y b')
    have "code c div 16 < 16" for c using code_less_256[of c] by (simp add: less_mult_imp_div_less)
    then have "hex_byte x = hex_byte y \<longleftrightarrow> x = y"
      using hex_digit_inject[of "code x div 16" "code y div 16"] hex_digit_inject[of "code x mod 16" "code y mod 16"]
      by (auto simp: hex_byte_def) (metis code_inject div_mult_mod_eq)
    then show ?thesis using Cons.IH[of b'] Cons by (auto simp: hex_encode_def hex_byte_def)
  qed (auto simp: hex_encode_def hex_byte_def)
qed

text \<open>
  Without I/O errors and cancellation, hashing a directory ends, changes no file and
  returns the digest of the complete tree below it: names, kinds, link targets and all bytes.
\<close>
lemma payload_digest_covers_the_tree:
  assumes "wf_files (w_files w)" "calm w" "lookup (w_files w) p = Some DirNode"
  shows "\<exists>t. tree_at (w_files w) p t \<and>
    (sized [] t \<longrightarrow>
      (\<exists>w'. hash_payload_sha256_blocking sha256 never p w
              = (Inr (hex_encode (sha256 (payload_header @ tree_bytes [] t))), w')
            \<and> w_files w' = w_files w))"
proof -
  obtain t where t: "tree_at (w_files w) p t"
    using tree_exists[OF assms(1), of p] assms(3) by blast
  then show ?thesis
    using hash_payload_yields[OF assms(1) t, of sha256] assms(2) unfolding yields_def by blast
qed

definition demo_payload :: "nat \<Rightarrow> files" where
  "demo_payload mode =
     [([''p''], DirNode), ([''p'', ''bin''], FileNode ''run'' mode), ([''p'', ''doc''], LinkNode ''bin'')]"

definition demo_tree :: tree where
  "demo_tree = TDir [(''bin'', TFile ''run''), (''doc'', TLink ''bin'')]"

definition calm_world :: "files \<Rightarrow> world" where
  "calm_world fs = \<lparr>w_files = fs, w_calls = 0, w_faults = (\<lambda>_. None)\<rparr>"

lemma calm_world_simps [simp]: "calm (calm_world fs)" "w_files (calm_world fs) = fs"
  by (simp_all add: calm_world_def calm_def)

lemma demo_payload_facts:
  "wf_files (demo_payload mode)" "tree_at (demo_payload mode) [''p''] demo_tree" "sized [] demo_tree"
  "lookup (demo_payload mode) [''p''] = Some DirNode"
  by (simp_all add: wf_files_def demo_payload_def lookup_def plain_name_def demo_tree_def child_names_def
      sort_key_def path_join_def less_eq_char_def)

theorem payload_digest_covers_the_tree_witness:
  "\<exists>t. tree_at (demo_payload 420) [''p''] t \<and>
    (sized [] t \<longrightarrow>
      (\<exists>w'. hash_payload_sha256_blocking rev never [''p''] (calm_world (demo_payload 420))
              = (Inr (hex_encode (rev (payload_header @ tree_bytes [] t))), w')
            \<and> w_files w' = demo_payload 420))"
  using payload_digest_covers_the_tree[of "calm_world (demo_payload 420)" "[''p'']" rev]
  by (simp add: demo_payload_facts)

text \<open>
  Two payloads with the same digest are the same tree, unless the two byte streams
  collide under SHA-256: no renaming, reordering, retargeting or moving of bytes between
  entries keeps the digest. File modes are not part of it.
\<close>
lemma payload_digest_pins_the_tree:
  assumes "wf_files (w_files w)" "calm w" "tree_at (w_files w) p t" "sized [] t"
    and "wf_files (w_files v)" "calm v" "tree_at (w_files v) q u" "sized [] u"
    and "fst (hash_payload_sha256_blocking sha256 never p w)
       = fst (hash_payload_sha256_blocking sha256 never q v)"
    and "inj_on sha256 {payload_header @ tree_bytes [] t, payload_header @ tree_bytes [] u}"
  shows "t = u"
proof -
  have "fst (hash_payload_sha256_blocking sha256 never p w)
      = Inr (hex_encode (sha256 (payload_header @ tree_bytes [] t)))"
    using hash_payload_yields[OF assms(1,3,4)] assms(2) by (auto dest: yields_fst)
  moreover have "fst (hash_payload_sha256_blocking sha256 never q v)
      = Inr (hex_encode (sha256 (payload_header @ tree_bytes [] u)))"
    using hash_payload_yields[OF assms(5,7,8)] assms(6) by (auto dest: yields_fst)
  ultimately have "sha256 (payload_header @ tree_bytes [] t) = sha256 (payload_header @ tree_bytes [] u)"
    using assms(9) by (simp only: sum.inject(2) hex_encode_inject)
  then have "payload_header @ tree_bytes [] t = payload_header @ tree_bytes [] u"
    by (rule inj_onD[OF assms(10)]) (rule insertI1, rule insertI2, rule singletonI)
  then have "tree_bytes [] t = tree_bytes [] u" by (simp only: same_append_eq)
  then show ?thesis using tree_bytes_cancel[OF assms(4,8), of "[]" "[]"] by simp
qed

theorem payload_digest_pins_the_tree_witness:
  "\<exists>t u. tree_at (demo_payload 420) [''p''] t \<and> tree_at (demo_payload 493) [''p''] u \<and> t = u"
proof -
  have "fst (hash_payload_sha256_blocking rev never [''p''] (calm_world (demo_payload m)))
      = Inr (hex_encode (rev (payload_header @ tree_bytes [] demo_tree)))" for m
    using yields_fst[OF hash_payload_yields[OF demo_payload_facts(1-3)], of "calm_world (demo_payload m)"]
    by simp
  then have "demo_tree = demo_tree"
    using payload_digest_pins_the_tree[of "calm_world (demo_payload 420)" "[''p'']" demo_tree
        "calm_world (demo_payload 493)" "[''p'']" demo_tree rev]
    by (simp add: demo_payload_facts)
  then show ?thesis using demo_payload_facts(2) by blast
qed

end
