(* ===== verification/Validation.thy ===== *)
theory Validation
  imports Payload
begin

text \<open>
  The check of a cache entry before it is used (\<open>validate_cached_binary_blocking\<close> of
  \<open>src/src/installer/binary/validation.rs\<close>). SHA-256 and the JSON decoder of the metadata are
  parameters; the decoder's errors are not looked at.
\<close>

definition is_file :: "node result \<Rightarrow> bool" where
  "is_file r = (case r of Inr (FileNode _ _) \<Rightarrow> True | _ \<Rightarrow> False)"

text \<open>The six fields that must be the expected ones.\<close>

definition same_identity :: "BinaryCacheMetadata \<Rightarrow> BinaryCacheMetadata \<Rightarrow> bool" where
  "same_identity a b =
     (md_agent_id a = md_agent_id b \<and> md_agent_version a = md_agent_version b
      \<and> md_platform a = md_platform b \<and> md_archive a = md_archive b
      \<and> md_cmd a = md_cmd b \<and> md_sha256 a = md_sha256 b)"

text \<open>
  A recorded digest must be the actual one; a missing digest is accepted only for a target
  without a checksum.
\<close>

definition digest_accepted ::
    "string option \<Rightarrow> string option \<Rightarrow> (world, string) io \<Rightarrow> (world, bool) io" where
  "digest_accepted recorded bound actual =
     (case recorded of
        Some d \<Rightarrow> io_then actual (\<lambda>a. io_return (eq_ignore_ascii_case d a))
      | None \<Rightarrow> io_return (bound = None))"

definition validate_cached_binary_blocking ::
    "(string \<Rightarrow> string) \<Rightarrow> (string \<Rightarrow> BinaryCacheMetadata option) \<Rightarrow> BinaryCachePaths
     \<Rightarrow> BinaryCacheMetadata \<Rightarrow> (world, 'l CachedBinary option) io" where
  "validate_cached_binary_blocking sha256 decode paths expected =
     io_then (sys_context (''failed to inspect '' @ path_display (bp_metadata_path paths))
                (sys_try_exists (bp_metadata_path paths))) (\<lambda>present.
     if \<not> present then io_return None
     else
       io_then (sys_context (''failed to read '' @ path_display (bp_metadata_path paths))
                  (sys_read (bp_metadata_path paths))) (\<lambda>bytes.
       case decode bytes of
         None \<Rightarrow> io_return None
       | Some metadata \<Rightarrow>
           if \<not> same_identity metadata expected then io_return None
           else case resolve_cmd_path (bp_extracted_dir paths) (md_cmd metadata) of
             Inl _ \<Rightarrow> io_return None
           | Inr executable_path \<Rightarrow>
               io_try (sys_io (sys_metadata executable_path)) (\<lambda>file_metadata.
               if \<not> is_file file_metadata then io_return None
               else
                 io_then (digest_accepted (md_executable_sha256 metadata) (md_sha256 expected)
                            (hash_file_sha256_blocking sha256 never executable_path)) (\<lambda>executable_ok.
                 if \<not> executable_ok then io_return None
                 else
                   io_then (digest_accepted (md_payload_sha256 metadata) (md_sha256 expected)
                              (hash_payload_sha256_blocking sha256 never (bp_extracted_dir paths))) (\<lambda>payload_ok.
                   if \<not> payload_ok then io_return None
                   else io_return (Some
                     \<lparr>cb_executable_path = executable_path,
                      cb_extracted_dir = bp_extracted_dir paths,
                      cb_cache_dir = bp_cache_dir paths,
                      cb_cache_use_lease = None\<rparr>))))))"

text \<open>\<open>make_executable_blocking\<close>: set the owner's execute bit.\<close>

definition set_mode :: "files \<Rightarrow> path \<Rightarrow> nat \<Rightarrow> (io_error + unit) \<times> files" where
  "set_mode fs p mode =
     (case resolve fs 40 [] p of
        None \<Rightarrow> (Inl not_found, fs)
      | Some q \<Rightarrow> (case lookup fs q of
            Some (FileNode content _) \<Rightarrow> (Inr (), put_node q (FileNode content mode) fs)
          | Some _ \<Rightarrow> (Inr (), fs)
          | None \<Rightarrow> (Inl not_found, fs)))"

definition node_mode :: "node \<Rightarrow> nat" where
  "node_mode n = (case n of FileNode _ m \<Rightarrow> m | _ \<Rightarrow> 493)"

definition make_executable_blocking :: "path \<Rightarrow> (world, unit) io" where
  "make_executable_blocking p =
     io_then (sys_io (sys_metadata p)) (\<lambda>n.
       sys_io (syscall intact (\<lambda>fs. set_mode fs p (or (node_mode n) 64))))"

section \<open>Validation only reads\<close>

lemma reads_only_digest_accepted [keeps_intros]:
  "reads_only actual \<Longrightarrow> reads_only (digest_accepted recorded bound actual)"
  by (auto simp: digest_accepted_def split: option.split intro!: keeps_intros)

lemma reads_only_validate [keeps_intros]:
  "reads_only (validate_cached_binary_blocking sha256 decode paths expected)"
  unfolding validate_cached_binary_blocking_def reading_calls
  by (auto split: option.split sum.split intro!: keeps_intros)

section \<open>A successful run had no faults\<close>

text \<open>A program whose successful runs go the same way when nothing can fail.\<close>

definition without_faults :: "world \<Rightarrow> world" where
  "without_faults w = w\<lparr>w_faults := (\<lambda>_. None)\<rparr>"

lemma without_faults_simps [simp]:
  "calm (without_faults w)" "w_files (without_faults w) = w_files w" "w_calls (without_faults w) = w_calls w"
  by (simp_all add: without_faults_def calm_def)

definition honest :: "(world, 'a) io \<Rightarrow> bool" where
  "honest m \<longleftrightarrow>
     (\<forall>w x w'. m w = (Inr x, w') \<longrightarrow> m (without_faults w) = (Inr x, without_faults w'))"

named_theorems honest_intros \<open>programs whose successful runs had no faults\<close>

lemma honest_return [honest_intros]: "honest (io_return x)"
  and honest_result [honest_intros]: "honest (io_result r)"
  and honest_Pair [honest_intros]: "honest (Pair r)"
  by (simp_all add: honest_def)

lemma honest_then [honest_intros]: "honest m \<Longrightarrow> (\<And>x. honest (f x)) \<Longrightarrow> honest (io_then m f)"
  unfolding honest_def io_then_eq_Inr by blast

lemma honest_context [honest_intros]: "honest m \<Longrightarrow> honest (io_context c m)"
  by (simp add: honest_def)

lemma honest_reading [honest_intros]: "honest (sys_io (reading f))"
  by (auto simp: honest_def sys_io_def reading_def syscall_def Let_def without_faults_def
      split: option.splits prod.splits)

lemma honest_sys_context [honest_intros]: "honest (sys_io f) \<Longrightarrow> honest (sys_context c f)"
  by (simp add: sys_context_def honest_context)

lemma honest_collect [honest_intros]: "(\<And>x. honest (f x)) \<Longrightarrow> honest (io_collect f xs)"
  by (induction xs) (auto intro!: honest_intros)

lemma honest_check [honest_intros]: "honest (check_extraction_cancelled cancel)"
  by (auto simp: honest_def check_extraction_cancelled_def bail_def)

lemma honest_file_loop [honest_intros]: "honest (hash_file_loop cancel rest seen)"
proof (induction cancel rest seen rule: hash_file_loop.induct)
  case (1 cancel rest seen)
  then show ?case by (subst hash_file_loop.simps) (auto intro!: honest_intros)
qed

lemma honest_content_loop [honest_intros]: "honest (hash_content_loop cancel e rest seen n)"
proof (induction cancel e rest seen n rule: hash_content_loop.induct)
  case (1 cancel e rest seen n)
  then show ?case by (subst hash_content_loop.simps) (auto intro!: honest_intros)
qed

lemma honest_hash_file [honest_intros]: "honest (hash_file_sha256_blocking sha256 cancel p)"
  by (auto simp: hash_file_sha256_blocking_def reading_calls intro!: honest_intros)

lemma honest_hash_entry [honest_intros]: "honest (hash_payload_entry n cancel p rel)"
  by (induction n cancel p rel rule: hash_payload_entry.induct)
    (auto simp: reading_calls Let_def split: node.split intro!: honest_intros)

lemma honest_hash_payload [honest_intros]: "honest (hash_payload_sha256_blocking sha256 cancel p)"
proof -
  have "honest (io_then (hash_payload_entry n cancel p [])
      (\<lambda>fed. io_return (hex_encode (sha256 (payload_header @ fed)))))" for n
    by (auto intro!: honest_intros)
  then show ?thesis unfolding honest_def hash_payload_sha256_blocking_def by simp
qed

lemma honest_yields:
  assumes "honest m" "m w = (Inr x, w')" "yields m fs y" "w_files w = fs"
  shows "x = y"
proof -
  have "fst (m (without_faults w)) = Inr x" using assms(1,2) by (simp add: honest_def)
  moreover have "fst (m (without_faults w)) = Inr y" using assms(3,4) by (simp add: yields_fst)
  ultimately show ?thesis by simp
qed

lemma hash_file_yields:
  assumes "stat fs p = Some (FileNode content m)"
  shows "yields (hash_file_sha256_blocking sha256 never p) fs (hex_encode (sha256 content))"
  unfolding hash_file_sha256_blocking_def using assms
  by (auto simp: reading_calls intro!: yields_intros)

section \<open>What an accepted entry is\<close>

definition recorded_ok :: "string option \<Rightarrow> string option \<Rightarrow> string \<Rightarrow> bool" where
  "recorded_ok recorded bound actual \<longleftrightarrow>
     (case recorded of Some d \<Rightarrow> eq_ignore_ascii_case d actual | None \<Rightarrow> bound = None)"

lemma digest_accepted_Inr:
  assumes "digest_accepted recorded bound m w = (Inr True, w')" "honest m" "yields m fs a" "w_files w = fs"
  shows "recorded_ok recorded bound a"
  using assms honest_yields[OF assms(2) _ assms(3)]
  by (auto simp: digest_accepted_def recorded_ok_def io_then_eq_Inr split: option.splits)

lemma digest_accepted_yields:
  "yields m fs a \<Longrightarrow> yields (digest_accepted recorded bound m) fs (recorded_ok recorded bound a)"
  by (auto simp: digest_accepted_def recorded_ok_def split: option.split intro!: yields_intros)

text \<open>
  The entry at \<open>paths\<close> in \<open>fs\<close>, with payload tree \<open>t\<close>, is the expected one: its metadata names
  the expected target, its command is a file of the payload, and the recorded digests are
  those of the command and of the tree.
\<close>

definition entry_valid ::
    "(string \<Rightarrow> string) \<Rightarrow> (string \<Rightarrow> BinaryCacheMetadata option) \<Rightarrow> files \<Rightarrow> BinaryCachePaths
     \<Rightarrow> BinaryCacheMetadata \<Rightarrow> tree \<Rightarrow> BinaryCacheMetadata \<Rightarrow> path \<Rightarrow> bool" where
  "entry_valid sha256 decode fs paths expected t md exe \<longleftrightarrow>
     (\<exists>bytes m content k.
        stat fs (bp_metadata_path paths) = Some (FileNode bytes m) \<and> decode bytes = Some md
        \<and> same_identity md expected
        \<and> resolve_cmd_path (bp_extracted_dir paths) (md_cmd md) = Inr exe
        \<and> stat fs exe = Some (FileNode content k)
        \<and> recorded_ok (md_executable_sha256 md) (md_sha256 expected) (hex_encode (sha256 content))
        \<and> recorded_ok (md_payload_sha256 md) (md_sha256 expected)
             (hex_encode (sha256 (payload_header @ tree_bytes [] t))))"

definition cached_at :: "BinaryCachePaths \<Rightarrow> path \<Rightarrow> 'l CachedBinary" where
  "cached_at paths exe =
     \<lparr>cb_executable_path = exe, cb_extracted_dir = bp_extracted_dir paths,
      cb_cache_dir = bp_cache_dir paths, cb_cache_use_lease = None\<rparr>"

lemma validate_sound:
  assumes wf: "wf_files (w_files w)"
    and tree: "tree_at (w_files w) (bp_extracted_dir paths) t" "sized [] t"
    and run: "validate_cached_binary_blocking sha256 decode paths expected w = (Inr (Some c), w')"
  shows "\<exists>md exe. entry_valid sha256 decode (w_files w) paths expected t md exe \<and> c = cached_at paths exe"
proof -
  let ?fs = "w_files w"
  from run obtain w1 bytes w2 md where
      1: "sys_context (''failed to inspect '' @ path_display (bp_metadata_path paths))
            (sys_try_exists (bp_metadata_path paths)) w = (Inr True, w1)"
    and 2: "sys_context (''failed to read '' @ path_display (bp_metadata_path paths))
              (sys_read (bp_metadata_path paths)) w1 = (Inr bytes, w2)"
    and md: "decode bytes = Some md" "same_identity md expected"
    and rest: "(case resolve_cmd_path (bp_extracted_dir paths) (md_cmd md) of
             Inl _ \<Rightarrow> io_return None
           | Inr executable_path \<Rightarrow>
               io_try (sys_io (sys_metadata executable_path)) (\<lambda>file_metadata.
               if \<not> is_file file_metadata then io_return None
               else
                 io_then (digest_accepted (md_executable_sha256 md) (md_sha256 expected)
                            (hash_file_sha256_blocking sha256 never executable_path)) (\<lambda>executable_ok.
                 if \<not> executable_ok then io_return None
                 else
                   io_then (digest_accepted (md_payload_sha256 md) (md_sha256 expected)
                              (hash_payload_sha256_blocking sha256 never (bp_extracted_dir paths))) (\<lambda>payload_ok.
                   if \<not> payload_ok then io_return None
                   else io_return (Some (cached_at paths executable_path)))))) w2 = (Inr (Some c), w')"
    unfolding validate_cached_binary_blocking_def cached_at_def
    by (auto simp: io_then_eq_Inr split: if_splits option.splits)
  from rest obtain exe n w3 w4 w5 where
      exe: "resolve_cmd_path (bp_extracted_dir paths) (md_cmd md) = Inr exe"
    and 3: "sys_io (sys_metadata exe) w2 = (n, w3)" "is_file n"
    and 4: "digest_accepted (md_executable_sha256 md) (md_sha256 expected)
              (hash_file_sha256_blocking sha256 never exe) w3 = (Inr True, w4)"
    and 5: "digest_accepted (md_payload_sha256 md) (md_sha256 expected)
              (hash_payload_sha256_blocking sha256 never (bp_extracted_dir paths)) w4 = (Inr True, w5)"
    and c: "c = cached_at paths exe"
    by (auto simp: io_try_def io_then_eq_Inr split: sum.splits prod.splits if_splits)
  have w1: "w_files w1 = ?fs" using 1 by (auto simp: sys_try_exists_def dest: sys_context_reading_Inr)
  then have w2: "w_files w2 = ?fs" and bytes: "\<exists>m. stat ?fs (bp_metadata_path paths) = Some (FileNode bytes m)"
    using sys_read_Inr[OF 2] by auto
  obtain content k where stat: "stat ?fs exe = Some (FileNode content k)"
    using 3 w2 sys_metadata_Inr[of exe w2] by (cases n) (auto simp: is_file_def split: node.splits)
  have w3: "w_files w3 = ?fs"
    using 3(1) w2 reads_only_files[of "sys_io (sys_metadata exe)" w2 n w3]
    by (auto simp: sys_metadata_def intro!: keeps_intros)
  then have w4: "w_files w4 = ?fs" using 4 by (metis reads_only_files reads_only_digest_accepted reads_only_hash_file)
  have "recorded_ok (md_executable_sha256 md) (md_sha256 expected) (hex_encode (sha256 content))"
    using digest_accepted_Inr[OF 4 honest_hash_file hash_file_yields[OF stat] w3] .
  moreover have "recorded_ok (md_payload_sha256 md) (md_sha256 expected)
      (hex_encode (sha256 (payload_header @ tree_bytes [] t)))"
    using digest_accepted_Inr[OF 5 honest_hash_payload hash_payload_yields[OF wf tree] w4] .
  ultimately show ?thesis using bytes md exe stat c by (auto simp: entry_valid_def)
qed

lemma lowercase_hex_encode [simp]: "to_ascii_lowercase (hex_encode bs) = hex_encode bs"
proof -
  have "to_ascii_lowercase_char (hex_digit n) = hex_digit n" if "n < 16" for n
    using that by (auto simp: to_ascii_lowercase_char_def hex_digit_def)
  moreover have "code c div 16 < 16" for c using code_less_256[of c] by (simp add: less_mult_imp_div_less)
  ultimately show ?thesis
    by (auto simp: to_ascii_lowercase_def hex_encode_def hex_byte_def map_concat intro!: arg_cong[of _ _ concat])
qed

text \<open>One recorded digest matches the digests of equal byte strings only.\<close>

lemma recorded_digest_unique:
  assumes "recorded_ok r bound (hex_encode a)" "recorded_ok r bound (hex_encode b)" "bound \<noteq> None"
  shows "a = b"
  using assms by (auto simp: recorded_ok_def eq_ignore_ascii_case_def split: option.splits)

text \<open>
  Property C9: the payload of a checksum-bound entry that was valid once cannot be changed and
  used again: as long as its metadata file is the same, any other payload tree is refused,
  whatever calls fail, unless the two payloads collide under SHA-256.
\<close>
theorem tampered_payload_refused:
  assumes "wf_files (w_files w)" "tree_at (w_files w) (bp_extracted_dir paths) t" "sized [] t"
    and "fst (validate_cached_binary_blocking sha256 decode paths expected w) = Inr (Some c)"
    and "wf_files (w_files v)" "tree_at (w_files v) (bp_extracted_dir paths) u" "sized [] u"
    and "stat (w_files v) (bp_metadata_path paths) = stat (w_files w) (bp_metadata_path paths)"
    and "md_sha256 expected \<noteq> None" "t \<noteq> u"
    and "inj_on sha256 {payload_header @ tree_bytes [] t, payload_header @ tree_bytes [] u}"
  shows "fst (validate_cached_binary_blocking sha256 decode paths expected v) \<noteq> Inr (Some c')"
proof
  assume "fst (validate_cached_binary_blocking sha256 decode paths expected v) = Inr (Some c')"
  then obtain md' exe' where v: "entry_valid sha256 decode (w_files v) paths expected u md' exe'"
    using validate_sound[OF assms(5-7)] by (metis prod.collapse)
  obtain md exe where w: "entry_valid sha256 decode (w_files w) paths expected t md exe"
    using validate_sound[OF assms(1-3)] assms(4) by (metis prod.collapse)
  have "md' = md" using v w assms(8) by (auto simp: entry_valid_def)
  then have "sha256 (payload_header @ tree_bytes [] t) = sha256 (payload_header @ tree_bytes [] u)"
    using v w by (intro recorded_digest_unique[OF _ _ assms(9), where r = "md_payload_sha256 md"])
      (auto simp: entry_valid_def)
  then have "payload_header @ tree_bytes [] t = payload_header @ tree_bytes [] u"
    by (rule inj_onD[OF assms(11)]) (rule insertI1, rule insertI2, rule singletonI)
  then have "tree_bytes [] t = tree_bytes [] u" by (simp only: same_append_eq)
  then show False using tree_bytes_cancel[OF assms(3,7), of "[]" "[]"] assms(10) by simp
qed

section \<open>What validation accepts without faults\<close>

lemma validate_complete:
  assumes wf: "wf_files fs"
    and tree: "tree_at fs (bp_extracted_dir paths) t" "sized [] t"
    and valid: "entry_valid sha256 decode fs paths expected t md exe"
  shows "yields (validate_cached_binary_blocking sha256 decode paths expected) fs (Some (cached_at paths exe))"
proof -
  obtain bytes m content k where
      b: "stat fs (bp_metadata_path paths) = Some (FileNode bytes m)" "decode bytes = Some md"
        "same_identity md expected" "resolve_cmd_path (bp_extracted_dir paths) (md_cmd md) = Inr exe"
    and e: "stat fs exe = Some (FileNode content k)"
    and d: "recorded_ok (md_executable_sha256 md) (md_sha256 expected) (hex_encode (sha256 content))"
      "recorded_ok (md_payload_sha256 md) (md_sha256 expected)
         (hex_encode (sha256 (payload_header @ tree_bytes [] t)))"
    using valid unfolding entry_valid_def by blast
  have h: "yields (digest_accepted (md_executable_sha256 md) (md_sha256 expected)
        (hash_file_sha256_blocking sha256 never exe)) fs True"
    "yields (digest_accepted (md_payload_sha256 md) (md_sha256 expected)
        (hash_payload_sha256_blocking sha256 never (bp_extracted_dir paths))) fs True"
    using digest_accepted_yields[OF hash_file_yields[OF e, of sha256]]
      digest_accepted_yields[OF hash_payload_yields[OF wf tree, of sha256]] d by metis+
  have meta: "yields (io_try (sys_io (sys_metadata exe)) g) fs y"
    if "yields (g (Inr (FileNode content k))) fs y" for g :: "node result \<Rightarrow> (world, 'b) io" and y
    using that e unfolding yields_def io_try_def
    by (auto simp: sys_metadata_def sys_io_def reading_def syscall_def calm_def)
  have r: "yields (sys_context c (sys_try_exists (bp_metadata_path paths))) fs True"
    "yields (sys_context c (sys_read (bp_metadata_path paths))) fs bytes" for c
    using b(1) by (auto simp: reading_calls(1,4) intro!: yields_intros)
  show ?thesis
    unfolding validate_cached_binary_blocking_def
    by (rule yields_then[OF r(1)], simp, rule yields_then[OF r(2)], simp add: b(2-4), rule meta,
        simp add: is_file_def, rule yields_then[OF h(1)], simp, rule yields_then[OF h(2)],
        simp add: cached_at_def yields_return)
qed

text \<open>A demonstration entry with one file, whose content may be changed.\<close>

definition demo_paths :: BinaryCachePaths where
  "demo_paths = \<lparr>bp_root_dir = [], bp_parent_dir = [], bp_cache_dir = [''c''],
     bp_extracted_dir = [''c'', ''extracted''], bp_metadata_path = [''c'', ''metadata.json'']\<rparr>"

definition demo_entry_tree :: "string \<Rightarrow> tree" where
  "demo_entry_tree content = TDir [(''bin'', TFile content)]"

definition demo_entry :: "string \<Rightarrow> files" where
  "demo_entry content =
     [([''c''], DirNode), ([''c'', ''extracted''], DirNode),
      ([''c'', ''extracted'', ''bin''], FileNode content 493),
      ([''c'', ''metadata.json''], FileNode ''{}'' 420)]"

definition demo_metadata :: BinaryCacheMetadata where
  "demo_metadata = \<lparr>md_agent_id = ''a'', md_agent_version = ''1'', md_platform = ''p'',
     md_archive = ''u'', md_cmd = ''bin'', md_sha256 = Some ''0'',
     md_executable_sha256 = Some (hex_encode (rev ''run'')),
     md_payload_sha256 = Some (hex_encode (rev (payload_header @ tree_bytes [] (demo_entry_tree ''run''))))\<rparr>"

definition demo_decode :: "string \<Rightarrow> BinaryCacheMetadata option" where
  "demo_decode bytes = (if bytes = ''{}'' then Some demo_metadata else None)"

lemma demo_entry_wf:
  "wf_files (demo_entry content)"
  "tree_at (demo_entry content) [''c'', ''extracted''] (demo_entry_tree content)"
  "length content < 2 ^ 64 \<Longrightarrow> sized [] (demo_entry_tree content)"
  by (simp_all add: wf_files_def demo_entry_def lookup_def plain_name_def demo_entry_tree_def
      child_names_def sort_key_def path_join_def)

lemma resolve_demo_cmd: "resolve_cmd_path [''c'', ''extracted''] ''bin'' = Inr [''c'', ''extracted'', ''bin'']"
  by code_simp

lemma demo_entry_stat:
  "stat (demo_entry content) [''c'', ''metadata.json''] = Some (FileNode ''{}'' 420)"
  "stat (demo_entry content) [''c'', ''extracted'', ''bin''] = Some (FileNode content 493)"
  by (rule stat_plain[OF demo_entry_wf(1)]; simp add: demo_entry_def lookup_def)+

lemma demo_entry_valid:
  "entry_valid rev demo_decode (demo_entry ''run'') demo_paths demo_metadata (demo_entry_tree ''run'')
     demo_metadata [''c'', ''extracted'', ''bin'']"
  unfolding entry_valid_def
  by (rule exI[of _ "''{}''"], rule exI[of _ 420], rule exI[of _ "''run''"], rule exI[of _ 493])
    (simp add: demo_paths_def demo_entry_stat demo_decode_def resolve_demo_cmd same_identity_def
      recorded_ok_def demo_metadata_def)

lemma validate_demo_entry:
  "fst (validate_cached_binary_blocking rev demo_decode demo_paths demo_metadata (calm_world (demo_entry ''run'')))
     = Inr (Some (cached_at demo_paths [''c'', ''extracted'', ''bin'']))"
  by (rule yields_fst[OF validate_complete[OF demo_entry_wf(1) _ _ demo_entry_valid]])
    (simp_all add: demo_entry_wf demo_paths_def)

theorem tampered_payload_refused_witness:
  "fst (validate_cached_binary_blocking rev demo_decode demo_paths demo_metadata (calm_world (demo_entry ''ruin'')))
     \<noteq> Inr (Some (cached_at demo_paths [''c'', ''extracted'', ''bin'']))"
proof (rule tampered_payload_refused[where w = "calm_world (demo_entry ''run'')"
      and t = "demo_entry_tree ''run''" and u = "demo_entry_tree ''ruin''"])
  show "fst (validate_cached_binary_blocking rev demo_decode demo_paths demo_metadata (calm_world (demo_entry ''run'')))
     = Inr (Some (cached_at demo_paths [''c'', ''extracted'', ''bin'']))"
    by (rule validate_demo_entry)
qed (simp_all add: demo_entry_wf demo_paths_def demo_entry_stat demo_metadata_def,
     simp_all add: demo_entry_tree_def inj_on_def)

end
