(* ===== verification/Publication.thy ===== *)
theory Publication
  imports Validation
begin

text \<open>
  The publication of a prepared cache entry (\<open>src/src/installer/binary/publication.rs\<close>) and
  the staging directory it owns (\<open>PreparedStaging\<close> of \<open>staging.rs\<close>). The transaction is the
  code's struct; its \<open>Drop\<close> runs on every way out of \<open>run\<close>. The lock the struct keeps alive
  is the caller's (theory \<open>Cache_Locks\<close>).
\<close>

record PromotionTransaction =
  pt_staging :: "path option"
  pt_paths :: BinaryCachePaths
  pt_backup_dir :: "path option"
  pt_published :: bool
  pt_committed :: bool

definition PromotionTransaction_new :: "path \<Rightarrow> BinaryCachePaths \<Rightarrow> PromotionTransaction" where
  "PromotionTransaction_new staging paths =
     \<lparr>pt_staging = Some staging, pt_paths = paths, pt_backup_dir = None,
      pt_published = False, pt_committed = False\<rparr>"

text \<open>Programs that also update the transaction.\<close>

type_synonym 'a txn = "(PromotionTransaction \<times> world, 'a) io"

definition on_disk :: "(world, 'a) io \<Rightarrow> 'a txn" where
  "on_disk m = (\<lambda>(t, w). case m w of (r, w') \<Rightarrow> (r, (t, w')))"

definition update_self :: "(PromotionTransaction \<Rightarrow> PromotionTransaction) \<Rightarrow> unit txn" where
  "update_self f = (\<lambda>(t, w). (Inr (), (f t, w)))"

text \<open>\<open>PreparedStaging::cleanup_blocking\<close>: the path is owned again when the removal fails.\<close>

definition cleanup_blocking :: "path option \<Rightarrow> world \<Rightarrow> (io_error + unit) \<times> path option \<times> world" where
  "cleanup_blocking staging w =
     (case staging of
        None \<Rightarrow> (Inr (), None, w)
      | Some p \<Rightarrow> (case sys_remove_dir_all p w of
            (Inr _, w') \<Rightarrow> (Inr (), None, w')
          | (Inl e, w') \<Rightarrow> if io_kind e = KNotFound then (Inr (), None, w') else (Inl e, Some p, w')))"

text \<open>\<open>PreparedStaging::drop\<close>.\<close>

definition staging_drop :: "path option \<Rightarrow> world \<Rightarrow> world" where
  "staging_drop staging w = (case staging of None \<Rightarrow> w | Some p \<Rightarrow> snd (sys_remove_dir_all p w))"

definition staging_cleanup :: "unit txn" where
  "staging_cleanup = (\<lambda>(t, w). case cleanup_blocking (pt_staging t) w of
     (r, s, w') \<Rightarrow> (any_io r, (t\<lparr>pt_staging := s\<rparr>, w')))"

text \<open>\<open>PreparedStaging::path\<close>: the path is owned whenever \<open>run\<close> asks for it.\<close>

definition staging_path :: "PromotionTransaction \<Rightarrow> path" where
  "staging_path t = (case pt_staging t of Some p \<Rightarrow> p | None \<Rightarrow> [])"

definition rename_staging :: "unit txn" where
  "rename_staging = (\<lambda>(t, w). on_disk
     (sys_context (''failed to promote staged cache '' @ path_display (staging_path t) @ '' to ''
                   @ path_display (bp_cache_dir (pt_paths t)))
        (sys_rename (staging_path t) (bp_cache_dir (pt_paths t)))) (t, w))"

definition drop_backup :: "unit txn" where
  "drop_backup = (\<lambda>(t, w). (Inr (), (t\<lparr>pt_backup_dir := None\<rparr>,
     case pt_backup_dir t of None \<Rightarrow> w | Some b \<Rightarrow> snd (sys_remove_dir_all b w))))"

text \<open>The part of \<open>run\<close> for an existing entry: the entry itself when it is kept.\<close>

definition preserve_existing ::
    "(BinaryCachePaths \<Rightarrow> (world, 'l CachedBinary option) io) \<Rightarrow> path \<Rightarrow> BinaryCachePaths \<Rightarrow> bool
     \<Rightarrow> 'l CachedBinary option txn" where
  "preserve_existing validate backup paths replace_existing =
     io_then (if replace_existing then io_return None else on_disk (validate paths)) (\<lambda>cached.
       case cached of
         Some c \<Rightarrow>
           io_then (io_context ''failed to discard superseded staging directory'' staging_cleanup) (\<lambda>_.
           io_then (update_self (\<lambda>t. t\<lparr>pt_committed := True\<rparr>)) (\<lambda>_.
             io_return (Some c)))
       | None \<Rightarrow>
           io_then (on_disk (sys_context (''failed to preserve existing cache directory ''
                       @ path_display (bp_cache_dir paths) @ '' before replacement'')
                     (sys_rename (bp_cache_dir paths) backup))) (\<lambda>_.
           io_then (update_self (\<lambda>t. t\<lparr>pt_backup_dir := Some backup\<rparr>)) (\<lambda>_.
             io_return None)))"

definition transaction_run ::
    "(BinaryCachePaths \<Rightarrow> (world, 'l CachedBinary option) io) \<Rightarrow> path \<Rightarrow> BinaryCachePaths \<Rightarrow> bool
     \<Rightarrow> 'l CachedBinary txn" where
  "transaction_run validate backup paths replace_existing =
     io_then (on_disk (sys_context (''failed to inspect '' @ path_display (bp_cache_dir paths))
                (sys_try_exists (bp_cache_dir paths)))) (\<lambda>present.
     io_then (if present then preserve_existing validate backup paths replace_existing
              else io_return None) (\<lambda>kept.
     case kept of
       Some c \<Rightarrow> io_return c
     | None \<Rightarrow>
         io_then rename_staging (\<lambda>_.
         io_then (update_self (\<lambda>t. t\<lparr>pt_published := True\<rparr>)) (\<lambda>_.
         io_then (on_disk (validate paths)) (\<lambda>cached.
         io_then (io_result (ok_or cached [''published cache failed post-publish validation''])) (\<lambda>c.
         io_then (update_self (\<lambda>t. t\<lparr>pt_committed := True, pt_staging := None\<rparr>)) (\<lambda>_.
         io_then drop_backup (\<lambda>_.
           io_return c))))))))"

text \<open>\<open>Drop\<close> of the transaction, then of the staging directory it owns.\<close>

definition restore_backup :: "path \<Rightarrow> path option \<Rightarrow> world \<Rightarrow> world" where
  "restore_backup cache_dir backup w =
     (case backup of
        None \<Rightarrow> w
      | Some b \<Rightarrow> (case sys_exists cache_dir w of
            (True, w1) \<Rightarrow> w1
          | (False, w1) \<Rightarrow> snd (sys_rename b cache_dir w1)))"

definition transaction_drop :: "PromotionTransaction \<Rightarrow> world \<Rightarrow> world" where
  "transaction_drop t w =
     (if pt_committed t then staging_drop (pt_staging t) w
      else
        let cache_dir = bp_cache_dir (pt_paths t);
            w1 = (if pt_published t then snd (sys_remove_dir_all cache_dir w) else w);
            w2 = restore_backup cache_dir (pt_backup_dir t) w1
        in case cleanup_blocking (pt_staging t) w2 of (_, s, w3) \<Rightarrow> staging_drop s w3)"

definition promote_prepared_cache ::
    "(BinaryCachePaths \<Rightarrow> (world, 'l CachedBinary option) io) \<Rightarrow> path \<Rightarrow> path \<Rightarrow> BinaryCachePaths
     \<Rightarrow> bool \<Rightarrow> (world, 'l CachedBinary) io" where
  "promote_prepared_cache validate backup staging paths replace_existing w =
     (case transaction_run validate backup paths replace_existing
             (PromotionTransaction_new staging paths, w) of
        (r, (t, w')) \<Rightarrow> (r, transaction_drop t w'))"

section \<open>What the system calls do to trees\<close>

text \<open>The three directories are different children of one parent.\<close>

definition apart :: "path \<Rightarrow> path \<Rightarrow> bool" where
  "apart a b \<longleftrightarrow> a \<noteq> [] \<and> b \<noteq> [] \<and> \<not> prefix a b \<and> \<not> prefix b a"

lemma apart_sym: "apart a b \<Longrightarrow> apart b a"
  by (auto simp: apart_def)

lemma apart_siblings: "a \<noteq> b \<Longrightarrow> apart (p @ [a]) (p @ [b])"
  by (auto simp: apart_def)

lemma apart_below: "apart p q \<Longrightarrow> \<not> prefix p (q @ r)"
  unfolding apart_def prefix_def append_eq_append_conv2 by blast

definition unchanged_outside :: "path set \<Rightarrow> files \<Rightarrow> files \<Rightarrow> bool" where
  "unchanged_outside ps fs fs' \<longleftrightarrow> (\<forall>q. (\<forall>p\<in>ps. \<not> prefix p q) \<longrightarrow> lookup fs' q = lookup fs q)"

lemma unchanged_refl [simp]: "unchanged_outside ps fs fs"
  by (simp add: unchanged_outside_def)

lemma unchanged_trans:
  "unchanged_outside ps fs fs' \<Longrightarrow> unchanged_outside qs fs' fs'' \<Longrightarrow> unchanged_outside (ps \<union> qs) fs fs''"
  by (auto simp: unchanged_outside_def)

lemma unchanged_mono: "unchanged_outside ps fs fs' \<Longrightarrow> ps \<subseteq> qs \<Longrightarrow> unchanged_outside qs fs fs'"
  by (auto simp: unchanged_outside_def)

lemma unchanged_subtree:
  "unchanged_outside ps fs fs' \<Longrightarrow> \<forall>p\<in>ps. apart p q \<Longrightarrow> subtree fs' q = subtree fs q"
  unfolding unchanged_outside_def subtree_def using apart_below by fastforce

lemma remove_dir_all_unchanged:
  assumes "p \<noteq> []" shows "unchanged_outside {p} (w_files w) (w_files (snd (sys_remove_dir_all p w)))"
proof -
  have "lookup (partly_removed p ft fs) q = lookup fs q" if "\<not> prefix p q" for ft fs q
    using that unfolding partly_removed_def lookup_def strict_prefix_def by (induction fs) auto
  moreover have "lookup (remove_tree p fs) q = lookup fs q" if "\<not> prefix p q" for fs q
    using that assms by (simp add: disk.look_remove)
  ultimately show ?thesis
    by (auto simp: unchanged_outside_def sys_remove_dir_all_def syscall_def Let_def
        split: option.split node.split)
qed

lemma rename_cases:
  assumes "apart a b" "sys_rename a b w = (r, w')"
  obtains "r = Inr ()" "w_files w' = move_tree a b (w_files w)"
  | e where "r = Inl e" "w_files w' = w_files w"
  using assms
  by (auto simp: sys_rename_def rename_files_def syscall_def Let_def intact_def apart_def
      split: option.splits if_splits node.splits)

lemma subtree_move:
  assumes "apart a b"
  shows "subtree (move_tree a b fs) b = subtree fs a"
    and "apart a q \<Longrightarrow> apart b q \<Longrightarrow> subtree (move_tree a b fs) q = subtree fs q"
  using assms disk.look_moved(1)[of a b]
  by (auto simp: subtree_def apart_def disk.look_move fun_eq_iff prefix_def append_eq_append_conv2)

lemma unchanged_move: "apart a b \<Longrightarrow> unchanged_outside {a, b} fs (move_tree a b fs)"
  by (auto simp: unchanged_outside_def apart_def disk.look_move)

section \<open>Every way out of \<open>run\<close>\<close>

lemma on_disk_eq: "on_disk m (t, w) = (r, s) \<longleftrightarrow> (\<exists>w'. m w = (r, w') \<and> s = (t, w'))"
  by (auto simp: on_disk_def split: prod.splits)

lemma sys_context_eq:
  "sys_context c f w = (r, w') \<longleftrightarrow> (\<exists>x. f w = (x, w') \<and> r = with_context c (any_io x))"
  by (auto simp: sys_context_def sys_io_def io_context_def io_map_err_def with_context_def
      split: prod.splits)

lemma rename_context:
  assumes "apart a b" "sys_context c (sys_rename a b) w = (r, w')"
  shows "r = Inr () \<and> w_files w' = move_tree a b (w_files w)
    \<or> (\<exists>e. r = Inl e) \<and> w_files w' = w_files w"
proof -
  obtain x where x: "sys_rename a b w = (x, w')" "r = with_context c (any_io x)"
    using assms(2) unfolding sys_context_eq by blast
  from assms(1) x(1) show ?thesis by (rule rename_cases) (simp_all add: x(2))
qed

lemma staging_cleanup_unchanged:
  assumes "staging_cleanup (t, w) = (r, (t', w'))" "pt_staging t = Some s" "s \<noteq> []"
  shows "unchanged_outside {s} (w_files w) (w_files w')
    \<and> t' = t\<lparr>pt_staging := (case r of Inl _ \<Rightarrow> Some s | Inr _ \<Rightarrow> None)\<rparr>"
proof -
  obtain x w1 where x: "sys_remove_dir_all s w = (x, w1)" by fastforce
  have "unchanged_outside {s} (w_files w) (w_files w1)"
    using remove_dir_all_unchanged[OF assms(3), of w] x by simp
  moreover have "staging_cleanup (t, w) = (case x of
       Inr _ \<Rightarrow> (Inr (), (t\<lparr>pt_staging := None\<rparr>, w1))
     | Inl e \<Rightarrow> if io_kind e = KNotFound then (Inr (), (t\<lparr>pt_staging := None\<rparr>, w1))
               else (Inl [io_text e], (t\<lparr>pt_staging := Some s\<rparr>, w1)))"
    by (cases x) (simp_all add: staging_cleanup_def cleanup_blocking_def x assms(2))
  ultimately show ?thesis
    using assms(1) by (cases x) (auto split: if_splits)
qed

text \<open>How far the transaction came when \<open>run\<close> returned.\<close>

datatype 'l exit =
    Untouched | Kept "'l CachedBinary" | MovedAside | Published | Committed "'l CachedBinary"

fun exit_state ::
    "path \<Rightarrow> path \<Rightarrow> BinaryCachePaths \<Rightarrow> files \<Rightarrow> 'l exit \<Rightarrow> 'l CachedBinary result
     \<Rightarrow> PromotionTransaction \<Rightarrow> files \<Rightarrow> bool" where
  "exit_state backup staging paths fs Untouched r t fs' \<longleftrightarrow>
     \<not> is_ok r \<and> t = PromotionTransaction_new staging paths \<and> unchanged_outside {staging} fs fs'"
| "exit_state backup staging paths fs (Kept c) r t fs' \<longleftrightarrow>
     r = Inr c \<and> pt_committed t \<and> pt_staging t = None \<and> unchanged_outside {staging} fs fs'"
| "exit_state backup staging paths fs MovedAside r t fs' \<longleftrightarrow>
     \<not> is_ok r \<and> t = (PromotionTransaction_new staging paths)\<lparr>pt_backup_dir := Some backup\<rparr>
     \<and> fs' = move_tree (bp_cache_dir paths) backup fs"
| "exit_state backup staging paths fs Published r t fs' \<longleftrightarrow>
     \<not> is_ok r
     \<and> t = (PromotionTransaction_new staging paths)\<lparr>pt_backup_dir := Some backup, pt_published := True\<rparr>
     \<and> fs' = move_tree staging (bp_cache_dir paths) (move_tree (bp_cache_dir paths) backup fs)"
| "exit_state backup staging paths fs (Committed c) r t fs' \<longleftrightarrow>
     r = Inr c \<and> pt_committed t \<and> pt_staging t = None
     \<and> unchanged_outside {backup}
         (move_tree staging (bp_cache_dir paths) (move_tree (bp_cache_dir paths) backup fs)) fs'"

lemma preserve_existing_exits:
  fixes validate :: "BinaryCachePaths \<Rightarrow> (world, 'l CachedBinary option) io"
  assumes reads: "reads_only (validate paths)"
    and ap: "apart (bp_cache_dir paths) backup" "staging \<noteq> []"
    and run: "preserve_existing validate backup paths replace (PromotionTransaction_new staging paths, w) = (r, (t, w'))"
  shows "(\<exists>e. r = Inl e) \<and> t = PromotionTransaction_new staging paths \<and> unchanged_outside {staging} (w_files w) (w_files w')
    \<or> (\<exists>c. r = Inr (Some c) \<and> pt_committed t \<and> pt_staging t = None
         \<and> unchanged_outside {staging} (w_files w) (w_files w'))
    \<or> r = Inr None \<and> t = (PromotionTransaction_new staging paths)\<lparr>pt_backup_dir := Some backup\<rparr>
        \<and> w_files w' = move_tree (bp_cache_dir paths) backup (w_files w)"
  using run unfolding preserve_existing_def
proof (cases rule: io_thenE)
  case (err e)
  then have "w_files w' = w_files w" "t = PromotionTransaction_new staging paths"
    using reads_only_files[OF reads] by (auto simp: on_disk_eq split: if_splits)
  with err show ?thesis by simp
next
  case (ok cached s1)
  then obtain w1 where s1: "s1 = (PromotionTransaction_new staging paths, w1)" "w_files w1 = w_files w"
    using reads_only_files[OF reads] by (auto simp: on_disk_eq split: if_splits)
  show ?thesis
  proof (cases cached)
    case (Some c)
    with ok(2) s1(1) have "io_then (io_context ''failed to discard superseded staging directory'' staging_cleanup)
        (\<lambda>_. io_then (update_self (\<lambda>t. t\<lparr>pt_committed := True\<rparr>)) (\<lambda>_. io_return (Some c)))
        (PromotionTransaction_new staging paths, w1) = (r, t, w')" by simp
    then show ?thesis
    proof (cases rule: io_thenE)
      case (err e)
      then obtain r' where "staging_cleanup (PromotionTransaction_new staging paths, w1) = (r', t, w')" "\<not> is_ok r'"
        by (auto simp: io_context_def io_map_err_def map_err_def split: prod.splits sum.splits)
      with staging_cleanup_unchanged[of "PromotionTransaction_new staging paths" w1 r' t w' staging] ap(2) s1(2) err
      show ?thesis by (auto simp: PromotionTransaction_new_def split: sum.splits)
    next
      case (ok x s2)
      then obtain t2 w2 where "staging_cleanup (PromotionTransaction_new staging paths, w1) = (Inr x, t2, w2)" "s2 = (t2, w2)"
        by (cases s2) auto
      with staging_cleanup_unchanged[of "PromotionTransaction_new staging paths" w1 "Inr x" t2 w2 staging] ap(2) s1(2) ok(2)
      show ?thesis by (auto simp: PromotionTransaction_new_def update_self_def io_then_def)
    qed
  next
    case None
    with ok(2) s1(1) have "io_then (on_disk (sys_context (''failed to preserve existing cache directory ''
                       @ path_display (bp_cache_dir paths) @ '' before replacement'')
                     (sys_rename (bp_cache_dir paths) backup)))
        (\<lambda>_. io_then (update_self (\<lambda>t. t\<lparr>pt_backup_dir := Some backup\<rparr>)) (\<lambda>_. io_return None))
        (PromotionTransaction_new staging paths, w1) = (r, t, w')" by simp
    then show ?thesis
    proof (cases rule: io_thenE)
      case (err e)
      then show ?thesis using rename_context[OF ap(1)] s1(2) by (fastforce simp: on_disk_eq)
    next
      case (ok x s2)
      then show ?thesis
        using rename_context[OF ap(1)] s1(2) by (fastforce simp: on_disk_eq update_self_def io_then_def)
    qed
  qed
qed

text \<open>\<open>run\<close> after the rename of the staged entry, and from that rename on.\<close>

definition committing :: "(BinaryCachePaths \<Rightarrow> (world, 'l CachedBinary option) io) \<Rightarrow> BinaryCachePaths \<Rightarrow> 'l CachedBinary txn" where
  "committing validate paths =
     io_then (on_disk (validate paths)) (\<lambda>cached.
     io_then (io_result (ok_or cached [''published cache failed post-publish validation''])) (\<lambda>c.
     io_then (update_self (\<lambda>t. t\<lparr>pt_committed := True, pt_staging := None\<rparr>)) (\<lambda>_.
     io_then drop_backup (\<lambda>_.
       io_return c))))"

definition publishing :: "(BinaryCachePaths \<Rightarrow> (world, 'l CachedBinary option) io) \<Rightarrow> BinaryCachePaths \<Rightarrow> 'l CachedBinary txn" where
  "publishing validate paths =
     io_then rename_staging (\<lambda>_.
     io_then (update_self (\<lambda>t. t\<lparr>pt_published := True\<rparr>)) (\<lambda>_. committing validate paths))"

lemma transaction_run_alt:
  "transaction_run validate backup paths replace =
     io_then (on_disk (sys_context (''failed to inspect '' @ path_display (bp_cache_dir paths))
                (sys_try_exists (bp_cache_dir paths)))) (\<lambda>present.
     io_then (if present then preserve_existing validate backup paths replace else io_return None) (\<lambda>kept.
     case kept of Some c \<Rightarrow> io_return c | None \<Rightarrow> publishing validate paths))"
  unfolding transaction_run_def publishing_def committing_def ..

lemma committing_exits:
  fixes validate :: "BinaryCachePaths \<Rightarrow> (world, 'l CachedBinary option) io"
  assumes reads: "reads_only (validate paths)" and ap: "backup \<noteq> []"
    and t3: "t3 = (PromotionTransaction_new staging paths)\<lparr>pt_backup_dir := Some backup, pt_published := True\<rparr>"
    and w3: "w_files w3 = move_tree staging (bp_cache_dir paths) (move_tree (bp_cache_dir paths) backup fs)"
    and run: "committing validate paths (t3, w3) = (r, (t, w'))"
  shows "\<exists>x. exit_state backup staging paths fs x r t (w_files w')"
  using run unfolding committing_def
proof (cases rule: io_thenE)
  case (err e)
  then have "exit_state backup staging paths fs Published r t (w_files w')"
    using reads_only_files[OF reads] t3 w3 by (auto simp: on_disk_eq)
  then show ?thesis by blast
next
  case (ok cached s4)
  then obtain w4 where s4: "s4 = (t3, w4)" "w_files w4 = w_files w3"
    using reads_only_files[OF reads] by (auto simp: on_disk_eq)
  show ?thesis
  proof (cases cached)
    case None
    with ok(2) s4(1) have "r = Inl [''published cache failed post-publish validation'']" "t = t3" "w' = w4"
      by (simp_all add: io_then_def io_result_def)
    with s4(2) t3 w3 have "exit_state backup staging paths fs Published r t (w_files w')" by simp
    then show ?thesis by blast
  next
    case (Some c)
    with ok(2) s4(1) t3 have "r = Inr c" "pt_committed t" "pt_staging t = None"
      "w' = snd (sys_remove_dir_all backup w4)"
      by (auto simp: io_then_def io_result_def update_self_def drop_backup_def)
    with s4(2) w3 remove_dir_all_unchanged[OF ap, of w4]
    have "exit_state backup staging paths fs (Committed c) r t (w_files w')" by simp
    then show ?thesis by blast
  qed
qed

lemma publishing_exits:
  fixes validate :: "BinaryCachePaths \<Rightarrow> (world, 'l CachedBinary option) io"
  assumes reads: "reads_only (validate paths)"
    and ap: "backup \<noteq> []" "apart staging (bp_cache_dir paths)"
    and t2: "t2 = (PromotionTransaction_new staging paths)\<lparr>pt_backup_dir := Some backup\<rparr>"
    and w2: "w_files w2 = move_tree (bp_cache_dir paths) backup fs"
    and run: "publishing validate paths (t2, w2) = (r, (t, w'))"
  shows "\<exists>x. exit_state backup staging paths fs x r t (w_files w')"
proof -
  have path: "staging_path t2 = staging" "bp_cache_dir (pt_paths t2) = bp_cache_dir paths"
    by (simp_all add: t2 staging_path_def PromotionTransaction_new_def)
  from run show ?thesis unfolding publishing_def
  proof (cases rule: io_thenE)
    case (err e)
    then have "exit_state backup staging paths fs MovedAside r t (w_files w')"
      using rename_context[OF ap(2)] t2 w2 path by (fastforce simp: rename_staging_def on_disk_eq)
    then show ?thesis by blast
  next
    case (ok u s3)
    then obtain w3 where s3: "s3 = (t2, w3)"
      and w3: "w_files w3 = move_tree staging (bp_cache_dir paths) (w_files w2)"
      using rename_context[OF ap(2)] path by (fastforce simp: rename_staging_def on_disk_eq)
    from ok(2) s3 have "committing validate paths (t2\<lparr>pt_published := True\<rparr>, w3) = (r, (t, w'))"
      by (simp add: io_then_def update_self_def)
    from committing_exits[OF reads ap(1) _ _ this] show ?thesis by (simp add: t2 w2 w3)
  qed
qed

lemma run_exits:
  fixes validate :: "BinaryCachePaths \<Rightarrow> (world, 'l CachedBinary option) io"
  assumes reads: "reads_only (validate paths)"
    and ap: "apart (bp_cache_dir paths) backup" "apart staging (bp_cache_dir paths)"
    and old: "stat (w_files w) (bp_cache_dir paths) \<noteq> None"
    and run: "transaction_run validate backup paths replace (PromotionTransaction_new staging paths, w) = (r, (t, w'))"
  shows "\<exists>x. exit_state backup staging paths (w_files w) x r t (w_files w')"
  using run unfolding transaction_run_alt
proof (cases rule: io_thenE)
  case (err e)
  then have "exit_state backup staging paths (w_files w) Untouched r t (w_files w')"
    by (auto simp: on_disk_eq sys_try_exists_def dest: reads_only_files[OF reads_only_sys_context[OF reads_only_reading]])
  then show ?thesis by blast
next
  case (ok present s1)
  then obtain w1 where s1: "s1 = (PromotionTransaction_new staging paths, w1)" "w_files w1 = w_files w" "present"
    using old by (auto simp: on_disk_eq sys_try_exists_def dest: sys_context_reading_Inr)
  from ok(2) s1(1,3) have "io_then (preserve_existing validate backup paths replace)
      (\<lambda>kept. case kept of Some c \<Rightarrow> io_return c | None \<Rightarrow> publishing validate paths)
      (PromotionTransaction_new staging paths, w1) = (r, (t, w'))" by simp
  then show ?thesis
  proof (cases rule: io_thenE)
    case (err e)
    with preserve_existing_exits[OF reads ap(1) _ err(1)] ap(2) s1(2)
    have "exit_state backup staging paths (w_files w) Untouched r t (w_files w')" by (auto simp: apart_def)
    then show ?thesis by blast
  next
    case (ok kept s2)
    obtain t2 w2 where s2: "s2 = (t2, w2)" by fastforce
    note exits = preserve_existing_exits[OF reads ap(1) _ ok(1)[unfolded s2], unfolded s1(2)]
    show ?thesis
    proof (cases kept)
      case (Some c)
      then have "exit_state backup staging paths (w_files w) (Kept c) r t (w_files w')"
        using exits ok(2) s2 ap(2) by (auto simp: apart_def)
      then show ?thesis by blast
    next
      case None
      with ok(2) s2 have "publishing validate paths (t2, w2) = (r, (t, w'))" by simp
      from publishing_exits[OF reads _ ap(2) _ _ this] show ?thesis
        using exits None ap by (auto simp: apart_def)
    qed
  qed
qed

section \<open>What \<open>Drop\<close> leaves behind\<close>

lemma staging_drop_unchanged:
  "\<forall>p. s = Some p \<longrightarrow> p \<noteq> [] \<and> p \<in> ps \<Longrightarrow> unchanged_outside ps (w_files w) (w_files (staging_drop s w))"
  using remove_dir_all_unchanged[of _ w]
  by (cases s) (auto simp: staging_drop_def intro: unchanged_mono)

lemma cleanup_then_drop_unchanged:
  assumes "cleanup_blocking (Some s) w = (x, s', w')" "s \<noteq> []"
  shows "unchanged_outside {s} (w_files w) (w_files (staging_drop s' w'))"
proof -
  obtain y w1 where y: "sys_remove_dir_all s w = (y, w1)" by fastforce
  then have 1: "unchanged_outside {s} (w_files w) (w_files w1)"
    using remove_dir_all_unchanged[OF assms(2), of w] by simp
  have s': "w' = w1" "s' = None \<or> s' = Some s"
    using assms(1) y by (cases y; auto simp: cleanup_blocking_def split: if_splits)+
  then have "unchanged_outside {s} (w_files w1) (w_files (staging_drop s' w'))"
    using staging_drop_unchanged[of s' "{s}" w'] assms(2) by auto
  from unchanged_trans[OF 1 this] show ?thesis by simp
qed

lemma sys_exists_files: "sys_exists p w = (b, w') \<Longrightarrow> w_files w' = w_files w"
  by (auto simp: sys_exists_def sys_try_exists_def reading_def syscall_def Let_def intact_def
      split: prod.splits sum.splits option.splits)

text \<open>The backup goes back, or stays where it is.\<close>

lemma restore_backup_cases:
  assumes "apart cache backup"
  shows "w_files (restore_backup cache (Some backup) w) = move_tree backup cache (w_files w)
    \<or> w_files (restore_backup cache (Some backup) w) = w_files w"
proof -
  obtain b w1 where e: "sys_exists cache w = (b, w1)" by fastforce
  obtain r w2 where r: "sys_rename backup cache w1 = (r, w2)" by fastforce
  from apart_sym[OF assms] r have "w_files w2 = move_tree backup cache (w_files w1) \<or> w_files w2 = w_files w1"
    by (rule rename_cases) auto
  with e r sys_exists_files[OF e] show ?thesis by (cases b) (simp_all add: restore_backup_def)
qed

lemma drop_restores:
  assumes ap: "apart (bp_cache_dir paths) backup" "apart (bp_cache_dir paths) staging" "apart backup staging"
    and t: "\<not> pt_committed t" "pt_paths t = paths" "pt_backup_dir t = Some backup" "pt_staging t = Some staging"
  shows "(subtree (w_files (transaction_drop t w)) (bp_cache_dir paths) = subtree (w_files w) backup
      \<or> subtree (w_files (transaction_drop t w)) backup = subtree (w_files w) backup)
    \<and> unchanged_outside {bp_cache_dir paths, backup, staging} (w_files w) (w_files (transaction_drop t w))"
proof -
  let ?C = "bp_cache_dir paths"
  define w1 where "w1 = (if pt_published t then snd (sys_remove_dir_all ?C w) else w)"
  define w2 where "w2 = restore_backup ?C (Some backup) w1"
  obtain x s w3 where x: "cleanup_blocking (Some staging) w2 = (x, s, w3)" by (cases "cleanup_blocking (Some staging) w2") auto
  have fin: "transaction_drop t w = staging_drop s w3"
    using t x by (simp add: transaction_drop_def Let_def w1_def w2_def)
  have u1: "unchanged_outside {?C} (w_files w) (w_files w1)"
    using remove_dir_all_unchanged[of ?C w] ap(1) by (simp add: w1_def apart_def)
  have u3: "unchanged_outside {staging} (w_files w2) (w_files (transaction_drop t w))"
    using cleanup_then_drop_unchanged[OF x] ap(2) fin by (simp add: apart_def)
  have keep: "subtree (w_files w1) backup = subtree (w_files w) backup"
    using unchanged_subtree[OF u1] ap(1) by simp
  have last: "subtree (w_files (transaction_drop t w)) q = subtree (w_files w2) q" if "apart staging q" for q
    using unchanged_subtree[OF u3] that by simp
  have moved: "w_files w2 = move_tree backup ?C (w_files w1) \<or> w_files w2 = w_files w1"
    unfolding w2_def by (rule restore_backup_cases[OF ap(1)])
  then have u2: "unchanged_outside {backup, ?C} (w_files w1) (w_files w2)"
    using unchanged_move[OF apart_sym[OF ap(1)]] by auto
  have "unchanged_outside {?C, backup, staging} (w_files w) (w_files (transaction_drop t w))"
    by (rule unchanged_mono[OF unchanged_trans[OF unchanged_trans[OF u1 u2] u3]]) auto
  moreover have "subtree (w_files w2) ?C = subtree (w_files w) backup \<or> subtree (w_files w2) backup = subtree (w_files w) backup"
    using moved keep subtree_move(1)[OF apart_sym[OF ap(1)]] by auto
  ultimately show ?thesis
    using last[of ?C] last[of backup] apart_sym[OF ap(2)] apart_sym[OF ap(3)] by simp
qed

lemma drop_untouched:
  assumes "pt_staging t = Some staging" "staging \<noteq> []" "\<not> pt_committed t" "\<not> pt_published t" "pt_backup_dir t = None"
  shows "unchanged_outside {staging} (w_files w) (w_files (transaction_drop t w))"
proof -
  obtain x s w3 where x: "cleanup_blocking (Some staging) w = (x, s, w3)" by (cases "cleanup_blocking (Some staging) w") auto
  with cleanup_then_drop_unchanged[OF x assms(2)] assms show ?thesis
    by (simp add: transaction_drop_def restore_backup_def)
qed

text \<open>The files after the renames of a transaction, and after its \<open>Drop\<close>.\<close>

lemma moved_aside:
  assumes "apart C backup"
  shows "subtree (move_tree C backup fs) backup = subtree fs C"
    and "unchanged_outside {C, backup, staging} fs (move_tree C backup fs)"
  using subtree_move(1)[OF assms] unchanged_mono[OF unchanged_move[OF assms]] by auto

lemma moved_in:
  assumes "apart C backup" "apart C staging" "apart backup staging"
  shows "subtree (move_tree staging C (move_tree C backup fs)) backup = subtree fs C"
    and "subtree (move_tree staging C (move_tree C backup fs)) C = subtree fs staging"
    and "unchanged_outside {C, backup, staging} fs (move_tree staging C (move_tree C backup fs))"
proof -
  note ap = assms apart_sym[OF assms(2)] apart_sym[OF assms(3)]
  show "subtree (move_tree staging C (move_tree C backup fs)) backup = subtree fs C"
    using subtree_move(1)[OF ap(1)] subtree_move(2)[OF ap(4,5,1)] by simp
  show "subtree (move_tree staging C (move_tree C backup fs)) C = subtree fs staging"
    using subtree_move(1)[OF ap(4)] subtree_move(2)[OF ap(1-3)] by simp
  show "unchanged_outside {C, backup, staging} fs (move_tree staging C (move_tree C backup fs))"
    by (rule unchanged_mono[OF unchanged_trans[OF unchanged_move[OF ap(1)] unchanged_move[OF ap(4)]]]) auto
qed

lemma drop_gives_back:
  assumes "apart (bp_cache_dir paths) backup" "apart (bp_cache_dir paths) staging" "apart backup staging"
    and "\<not> pt_committed t" "pt_paths t = paths" "pt_backup_dir t = Some backup" "pt_staging t = Some staging"
    and "subtree (w_files w) backup = subtree fs (bp_cache_dir paths)"
    and "unchanged_outside {bp_cache_dir paths, backup, staging} fs (w_files w)"
  shows "subtree fs (bp_cache_dir paths)
      \<in> {subtree (w_files (transaction_drop t w)) (bp_cache_dir paths), subtree (w_files (transaction_drop t w)) backup}
    \<and> unchanged_outside {bp_cache_dir paths, backup, staging} fs (w_files (transaction_drop t w))"
  using drop_restores[OF assms(1-7), of w] assms(8) unchanged_trans[OF assms(9)] by fastforce

text \<open>
  Property C3: whatever system calls fail, replacing a cache entry never loses it. After an error
  the complete old entry is at its place or in the backup directory; after success the place
  holds either the complete staged entry or the complete old one; nothing outside the entry,
  its backup and the staging directory changes.
\<close>
theorem promotion_never_loses_the_entry:
  fixes sha256 decode expected backup paths
  defines "validate \<equiv> \<lambda>p. validate_cached_binary_blocking sha256 decode p expected"
  assumes "promote_prepared_cache validate backup staging paths replace w = (r, w')"
    and "stat (w_files w) (bp_cache_dir paths) \<noteq> None"
    and "apart (bp_cache_dir paths) backup" "apart (bp_cache_dir paths) staging" "apart backup staging"
  shows "(if is_ok r
       then subtree (w_files w') (bp_cache_dir paths)
              \<in> {subtree (w_files w) staging, subtree (w_files w) (bp_cache_dir paths)}
       else subtree (w_files w) (bp_cache_dir paths)
              \<in> {subtree (w_files w') (bp_cache_dir paths), subtree (w_files w') backup})
    \<and> unchanged_outside {bp_cache_dir paths, backup, staging} (w_files w) (w_files w')"
proof -
  let ?C = "bp_cache_dir paths"
  note ap = assms(4-6) and ap' = apart_sym[OF assms(4)] apart_sym[OF assms(5)] apart_sym[OF assms(6)]
  obtain t w1 where run: "transaction_run validate backup paths replace (PromotionTransaction_new staging paths, w) = (r, t, w1)"
    and w': "w' = transaction_drop t w1"
    using assms(2) by (auto simp: promote_prepared_cache_def split: prod.splits)
  have "reads_only (validate paths)" unfolding validate_def by (rule reads_only_validate)
  from run_exits[OF this ap(1) ap'(2) assms(3) run]
  obtain x where x: "exit_state backup staging paths (w_files w) x r t (w_files w1)" ..
  have sub: "subtree (w_files w') ?C = subtree (w_files w) ?C" if "unchanged_outside {staging} (w_files w) (w_files w')"
    using unchanged_subtree[OF that] ap' by simp
  show ?thesis
  proof (cases x)
    case Untouched
    with x w' have 1: "unchanged_outside {staging} (w_files w) (w_files w1)" and r: "\<not> is_ok r"
      and 2: "unchanged_outside {staging} (w_files w1) (w_files w')"
      using drop_untouched[of t staging w1] ap(2) by (auto simp: PromotionTransaction_new_def apart_def)
    from unchanged_trans[OF 1 2] r sub show ?thesis by (auto intro: unchanged_mono)
  next
    case (Kept c)
    with x w' have "unchanged_outside {staging} (w_files w) (w_files w')" "is_ok r"
      by (auto simp: transaction_drop_def staging_drop_def)
    with sub show ?thesis by (auto intro: unchanged_mono)
  next
    case MovedAside
    with x drop_gives_back[OF ap, of t w1] moved_aside[OF ap(1)] w' show ?thesis
      by (simp add: PromotionTransaction_new_def)
  next
    case Published
    with x drop_gives_back[OF ap, of t w1] moved_in[OF ap] w' show ?thesis
      by (simp add: PromotionTransaction_new_def)
  next
    case (Committed c)
    let ?m = "move_tree staging ?C (move_tree ?C backup (w_files w))"
    from Committed x w' have r: "is_ok r" and u: "unchanged_outside {backup} ?m (w_files w')"
      by (auto simp: transaction_drop_def staging_drop_def)
    then show ?thesis
      using unchanged_subtree[OF u] moved_in(2)[OF ap] ap' unchanged_mono[OF unchanged_trans[OF moved_in(3)[OF ap] u]]
      by simp
  qed
qed

section \<open>Without faults publication is an atomic replacement\<close>

lemma calm_syscall:
  assumes "calm w" "f (w_files w) = (r, fs)"
  obtains w' where "syscall broken f w = (r, w')" "w_files w' = fs" "calm w'"
  using assms by (auto simp: syscall_def calm_def)

lemma calm_rename:
  assumes "calm w" "apart a b" "lookup (w_files w) a \<noteq> None" "lookup (w_files w) (butlast b) = Some DirNode"
    and "lookup (w_files w) b = None"
  obtains w' where "sys_rename a b w = (Inr (), w')" "w_files w' = move_tree a b (w_files w)" "calm w'"
proof -
  have "rename_files a b (w_files w) = (Inr (), move_tree a b (w_files w))"
    using assms(2-5) by (auto simp: rename_files_def apart_def)
  with assms(1) that show thesis by (auto simp: sys_rename_def syscall_def calm_def)
qed

lemma calm_reading:
  assumes "calm w" "f (w_files w) = Inr x"
  obtains w' where "reading f w = (Inr x, w')" "w_files w' = w_files w" "calm w'"
  using assms by (auto simp: reading_def syscall_def calm_def)

lemma subtree_at: "lookup fs p = subtree fs p []"
  by (simp add: subtree_def)

lemma replaced_files:
  assumes "apart C backup" "apart staging C" "apart staging backup" "apart C staging"
    and "subtree fs backup = (\<lambda>_. None)"
  shows "lookup (remove_tree backup (move_tree staging C (move_tree C backup fs))) = lookup (move_tree staging C fs)"
proof
  fix q
  note ap = assms(1-4) apart_sym[OF assms(1)] apart_sym[OF assms(3)]
  have none: "lookup fs (backup @ q) = None" for q
    using assms(5) by (simp add: subtree_def fun_eq_iff)
  consider r where "q = C @ r" | r where "q = staging @ r" | r where "q = backup @ r"
    | "\<not> prefix C q" "\<not> prefix staging q" "\<not> prefix backup q"
    by (auto simp: prefix_def)
  then show "lookup (remove_tree backup (move_tree staging C (move_tree C backup fs))) q = lookup (move_tree staging C fs) q"
    using ap[THEN apart_below] ap none by cases (simp_all add: disk.look_move disk.look_remove apart_def)
qed

text \<open>
  Property C21: without faults, a forced publication of a valid staged entry does exactly one move
  on the file system: the staged tree takes the place of the old entry, and neither a backup
  nor the staging directory is left.
\<close>
theorem publication_refines_one_move:
  assumes calm: "calm w"
    and dirs: "bp_cache_dir paths = parent @ [v]" "staging = parent @ [s]" "backup = parent @ [b]" "distinct [v, s, b]"
    and there: "lookup (w_files w) parent = Some DirNode" "stat (w_files w) (bp_cache_dir paths) \<noteq> None"
      "lookup (w_files w) (bp_cache_dir paths) = Some DirNode" "lookup (w_files w) staging \<noteq> None"
      "subtree (w_files w) backup = (\<lambda>_. None)"
    and valid: "yields (validate_cached_binary_blocking sha256 decode paths expected)
        (move_tree staging (bp_cache_dir paths) (move_tree (bp_cache_dir paths) backup (w_files w))) (Some c)"
  shows "\<exists>w'. promote_prepared_cache (\<lambda>p. validate_cached_binary_blocking sha256 decode p expected)
            backup staging paths True w = (Inr c, w')
          \<and> lookup (w_files w') = lookup (move_tree staging (bp_cache_dir paths) (w_files w))"
proof -
  let ?C = "bp_cache_dir paths" and ?fs = "w_files w"
  have ap: "apart ?C backup" "apart staging ?C" "apart staging backup" "apart ?C staging"
    using dirs by (auto intro: apart_siblings)
  have up: "butlast ?C = parent" "butlast backup = parent" "\<not> prefix ?C parent" "\<not> prefix backup parent"
    using dirs by (auto dest: prefix_length_le)
  have gone: "lookup ?fs backup = None" using there(5) by (simp add: subtree_at fun_eq_iff)
  obtain w1 where w1: "sys_try_exists ?C w = (Inr True, w1)" "w_files w1 = ?fs" "calm w1"
    using calm_reading[OF calm, of "\<lambda>fs. Inr (stat fs ?C \<noteq> None)" True] there(2) by (auto simp: sys_try_exists_def)
  obtain w2 where w2: "sys_rename ?C backup w1 = (Inr (), w2)" "w_files w2 = move_tree ?C backup ?fs" "calm w2"
    using calm_rename[OF w1(3) ap(1)] w1(2) there(1,3) gone up by auto
  have look2: "lookup (w_files w2) q = lookup ?fs q" if "\<not> prefix ?C q" "\<not> prefix backup q" for q
    using that ap(1) w2(2) by (simp add: disk.look_move apart_def)
  have at2: "lookup (w_files w2) parent = Some DirNode" "lookup (w_files w2) staging \<noteq> None"
    "lookup (w_files w2) ?C = None"
    using look2[of parent] look2[of staging] up there(1,4) ap w2(2) by (auto simp: apart_def disk.look_move)
  obtain w3 where w3: "sys_rename staging ?C w2 = (Inr (), w3)" "w_files w3 = move_tree staging ?C (w_files w2)" "calm w3"
    using calm_rename[OF w2(3) ap(2)] at2 up by auto
  obtain w4 where w4: "validate_cached_binary_blocking sha256 decode paths expected w3 = (Inr (Some c), w4)"
    "w_files w4 = w_files w3" "calm w4"
    using valid w3(2,3) w2(2) unfolding yields_def by metis
  obtain x w5 where w5: "sys_remove_dir_all backup w4 = (x, w5)" by fastforce
  have "lookup (w_files w4) backup = Some DirNode"
    using w4(2) w3(2) w2(2) ap there(3) by (auto simp: disk.look_move apart_def)
  then have fs5: "w_files w5 = remove_tree backup (w_files w4)"
    using w5 w4(3) by (auto simp: sys_remove_dir_all_def syscall_def calm_def)
  have run: "promote_prepared_cache (\<lambda>p. validate_cached_binary_blocking sha256 decode p expected)
      backup staging paths True w = (Inr c, w5)"
    using w1(1) w2(1) w3(1) w4(1) w5
    by (simp add: promote_prepared_cache_def transaction_run_def preserve_existing_def io_then_def on_disk_def
        sys_context_def sys_io_def io_context_def io_map_err_def update_self_def rename_staging_def drop_backup_def
        PromotionTransaction_new_def staging_path_def io_result_def transaction_drop_def staging_drop_def)
  have "w_files w5 = remove_tree backup (move_tree staging ?C (move_tree ?C backup ?fs))"
    using w4(2) w3(2) w2(2) fs5 by simp
  with replaced_files[OF ap there(5)] have "lookup (w_files w5) = lookup (move_tree staging ?C ?fs)" by simp
  with run show ?thesis by blast
qed


section \<open>A demonstration\<close>

definition demo_at :: "string \<Rightarrow> string \<Rightarrow> files" where
  "demo_at dir content =
     [([dir], DirNode), ([dir, ''extracted''], DirNode), ([dir, ''extracted'', ''bin''], FileNode content 493),
      ([dir, ''metadata.json''], FileNode ''{}'' 420)]"

definition demo_store :: files where
  "demo_store = demo_at ''s'' ''run'' @ demo_at ''c'' ''old''"

definition demo_fault :: fault where
  "demo_fault = \<lparr>ft_error = io_other ''Input/output error (os error 5)'', ft_gone = (\<lambda>_. True), ft_written = 0\<rparr>"

definition failing_world :: "files \<Rightarrow> nat \<Rightarrow> world" where
  "failing_world fs n = \<lparr>w_files = fs, w_calls = 0, w_faults = (\<lambda>k. if k = n then Some demo_fault else None)\<rparr>"

lemma demo_store_facts:
  "wf_files demo_store" "lookup demo_store [''c''] = Some DirNode" "lookup demo_store [''s''] = Some DirNode"
  "subtree demo_store [''b''] = (\<lambda>_. None)" "stat demo_store [''c''] = Some DirNode"
proof -
  show wf: "wf_files demo_store"
    by (simp add: wf_files_def demo_store_def demo_at_def lookup_def plain_name_def)
  show c: "lookup demo_store [''c''] = Some DirNode" and "lookup demo_store [''s''] = Some DirNode"
    by (simp_all add: lookup_def demo_store_def demo_at_def)
  show "subtree demo_store [''b''] = (\<lambda>_. None)"
    by (rule ext) (simp add: subtree_def lookup_def demo_store_def demo_at_def)
  show "stat demo_store [''c''] = Some DirNode" by (rule stat_plain[OF wf c]) simp
qed

theorem promotion_never_loses_the_entry_witness:
  "\<exists>r w'. promote_prepared_cache (\<lambda>p. validate_cached_binary_blocking rev demo_decode p demo_metadata)
       [''b''] [''s''] demo_paths True (failing_world demo_store 2) = (r :: unit CachedBinary result, w')
     \<and> (if is_ok r then subtree (w_files w') [''c''] \<in> {subtree demo_store [''s''], subtree demo_store [''c'']}
        else subtree demo_store [''c''] \<in> {subtree (w_files w') [''c''], subtree (w_files w') [''b'']})
     \<and> unchanged_outside {[''c''], [''b''], [''s'']} demo_store (w_files w')"
proof -
  obtain r w' where run: "promote_prepared_cache (\<lambda>p. validate_cached_binary_blocking rev demo_decode p demo_metadata)
       [''b''] [''s''] demo_paths True (failing_world demo_store 2) = (r :: unit CachedBinary result, w')"
    by fastforce
  have paths: "bp_cache_dir demo_paths = [''c'']" "w_files (failing_world demo_store 2) = demo_store"
    by (simp_all add: demo_paths_def failing_world_def)
  note outcome = promotion_never_loses_the_entry[OF run, unfolded paths]
  show ?thesis
    by (rule exI[of _ r], rule exI[of _ w'], rule conjI[OF run], rule outcome)
      (simp_all add: demo_store_facts(5) apart_def)
qed

lemma demo_published:
  "move_tree [''s''] [''c''] (move_tree [''c''] [''b''] demo_store) = demo_at ''c'' ''run'' @ demo_at ''b'' ''old''"
  by (simp add: move_tree_def remove_tree_def demo_store_def demo_at_def)

lemma demo_published_valid:
  "yields (validate_cached_binary_blocking rev demo_decode demo_paths demo_metadata)
     (demo_at ''c'' ''run'' @ demo_at ''b'' ''old'')
     (Some (cached_at demo_paths [''c'', ''extracted'', ''bin'']))"
proof (rule validate_complete)
  let ?fs = "demo_at ''c'' ''run'' @ demo_at ''b'' ''old''"
  show wf: "wf_files ?fs"
    by (simp add: wf_files_def demo_at_def lookup_def plain_name_def)
  show "tree_at ?fs (bp_extracted_dir demo_paths) (demo_entry_tree ''run'')" "sized [] (demo_entry_tree ''run'')"
    by (simp_all add: demo_at_def demo_paths_def lookup_def plain_name_def demo_entry_tree_def child_names_def
        sort_key_def path_join_def)
  have "stat ?fs [''c'', ''metadata.json''] = Some (FileNode ''{}'' 420)"
    "stat ?fs [''c'', ''extracted'', ''bin''] = Some (FileNode ''run'' 493)"
    by (rule stat_plain[OF wf]; simp add: demo_at_def lookup_def)+
  then show "entry_valid rev demo_decode ?fs demo_paths demo_metadata (demo_entry_tree ''run'') demo_metadata
      [''c'', ''extracted'', ''bin'']"
    by (simp add: entry_valid_def demo_paths_def demo_decode_def resolve_demo_cmd same_identity_def
        recorded_ok_def demo_metadata_def)
qed

theorem publication_refines_one_move_witness:
  "\<exists>w'. promote_prepared_cache (\<lambda>p. validate_cached_binary_blocking rev demo_decode p demo_metadata)
       [''b''] [''s''] demo_paths True (calm_world demo_store)
       = (Inr (cached_at demo_paths [''c'', ''extracted'', ''bin'']), w')
     \<and> lookup (w_files w') = lookup (move_tree [''s''] [''c''] demo_store)"
  using publication_refines_one_move[of "calm_world demo_store" demo_paths "[]" "''c''" "[''s'']" "''s''" "[''b'']" "''b''"
      rev demo_decode demo_metadata "cached_at demo_paths [''c'', ''extracted'', ''bin'']"]
    demo_store_facts demo_published demo_published_valid
  by (simp add: demo_paths_def)

end
