(* ===== verification/Cache_Locks.thy ===== *)
theory Cache_Locks
  imports Publication
begin

text \<open>
  The advisory file locks of \<open>src/src/installer/cache.rs\<close>. A program opens (and creates) the
  lock file in its own world; what the operating system then answers depends on the other
  processes, and is a parameter. A held lock is a value; it is released when it is dropped.
\<close>

datatype CacheLockMode = Read | Write | TryWrite

record BinaryCacheLock =
  bl_path :: path
  bl_mode :: CacheLockMode

text \<open>
  The answer to a lock request: an error, granted, or (for a non-blocking request only) busy.
  A blocking request that is answered was granted. \<open>worker_lost\<close> tells that the blocking
  worker ended without an answer.
\<close>

record lock_service =
  lock_answer :: "CacheLockMode \<Rightarrow> path \<Rightarrow> nat \<Rightarrow> io_error + bool"
  worker_lost :: "nat \<Rightarrow> bool"

definition sys_open_create :: "path \<Rightarrow> unit sys" where
  "sys_open_create p =
     syscall intact
       (\<lambda>fs. if lookup fs (butlast p) \<noteq> Some DirNode then (Inl not_found, fs)
             else case lookup fs p of
               Some DirNode \<Rightarrow> (Inl (io_other ''Is a directory (os error 21)''), fs)
             | Some _ \<Rightarrow> (Inr (), fs)
             | None \<Rightarrow> (Inr (), put_node p (FileNode [] 420) fs))"

definition acquire_cache_lock ::
    "lock_service \<Rightarrow> path \<Rightarrow> CacheLockMode \<Rightarrow> string \<Rightarrow> (world, BinaryCacheLock option) io" where
  "acquire_cache_lock locks lock_path mode lock_name =
     io_try (sys_io (sys_open_create lock_path)) (\<lambda>opened w.
       let ready =
             (case opened of
                Inl e \<Rightarrow> Inl (error_to_string e)
              | Inr _ \<Rightarrow> (case lock_answer locks mode lock_path (w_calls w) of
                    Inl e \<Rightarrow> Inl (io_text e)
                  | Inr granted \<Rightarrow> Inr (mode = TryWrite \<longrightarrow> granted)))
       in (if worker_lost locks (w_calls w)
           then Inl [lock_name @ '' task terminated unexpectedly'']
           else case ready of
             Inr True \<Rightarrow> Inr (Some \<lparr>bl_path = lock_path, bl_mode = mode\<rparr>)
           | Inr False \<Rightarrow> Inr None
           | Inl e \<Rightarrow> Inl [''failed to acquire '' @ lock_name @ '': '' @ e], w))"

definition required_lock :: "string \<Rightarrow> (world, BinaryCacheLock option) io \<Rightarrow> (world, BinaryCacheLock) io" where
  "required_lock lock_name m =
     io_then m (\<lambda>lock. io_result (ok_or lock [lock_name @ '' was not acquired'']))"

definition acquire_binary_cache_lock ::
    "(string \<Rightarrow> string) \<Rightarrow> lock_service \<Rightarrow> BinaryCachePaths \<Rightarrow> (world, BinaryCacheLock) io" where
  "acquire_binary_cache_lock sha256 locks paths =
     required_lock ''cache lock''
       (acquire_cache_lock locks (binary_cache_lock_path sha256 paths) Write ''cache lock'')"

definition acquire_binary_cache_use_read_lock ::
    "(string \<Rightarrow> string) \<Rightarrow> lock_service \<Rightarrow> BinaryCachePaths \<Rightarrow> (world, BinaryCacheLock) io" where
  "acquire_binary_cache_use_read_lock sha256 locks paths =
     required_lock ''cache use lock''
       (acquire_cache_lock locks (binary_cache_use_lock_path sha256 paths) Read ''cache use lock'')"

definition acquire_binary_cache_use_write_lock ::
    "(string \<Rightarrow> string) \<Rightarrow> lock_service \<Rightarrow> BinaryCachePaths \<Rightarrow> (world, BinaryCacheLock) io" where
  "acquire_binary_cache_use_write_lock sha256 locks paths =
     required_lock ''cache use lock''
       (acquire_cache_lock locks (binary_cache_use_lock_path sha256 paths) Write ''cache use lock'')"

definition try_acquire_binary_cache_lock ::
    "(string \<Rightarrow> string) \<Rightarrow> lock_service \<Rightarrow> BinaryCachePaths \<Rightarrow> (world, BinaryCacheLock option) io" where
  "try_acquire_binary_cache_lock sha256 locks paths =
     acquire_cache_lock locks (binary_cache_lock_path sha256 paths) TryWrite ''cache lock''"

definition try_acquire_binary_cache_use_write_lock ::
    "(string \<Rightarrow> string) \<Rightarrow> lock_service \<Rightarrow> BinaryCachePaths \<Rightarrow> (world, BinaryCacheLock option) io" where
  "try_acquire_binary_cache_use_write_lock sha256 locks paths =
     acquire_cache_lock locks (binary_cache_use_lock_path sha256 paths) TryWrite ''cache use lock''"

section \<open>A lock request touches its lock file only\<close>

text \<open>Nothing changes but that files of \<open>ps\<close> may appear.\<close>

definition adds_files :: "path set \<Rightarrow> world \<Rightarrow> world \<Rightarrow> bool" where
  "adds_files ps w w' \<longleftrightarrow>
     (\<forall>q. lookup (w_files w') q = lookup (w_files w) q \<or> q \<in> ps \<and> lookup (w_files w) q = None)"

lemma adds_files_refl [simp]: "reflp (adds_files ps)"
  and adds_files_trans [simp]: "transp (adds_files ps)"
  unfolding adds_files_def reflp_def transp_def by (blast, metis)

lemma open_create_adds: "p \<noteq> [] \<Longrightarrow> p \<in> ps \<Longrightarrow> io_keeps (adds_files ps) (sys_io (sys_open_create p))"
  by (auto simp: io_keeps_def adds_files_def sys_io_def sys_open_create_def syscall_def Let_def
      intact_def lookup_put_node split: option.split node.split prod.split)

lemma acquire_adds:
  "p \<noteq> [] \<Longrightarrow> p \<in> ps \<Longrightarrow> io_keeps (adds_files ps) (acquire_cache_lock locks p mode name)"
  unfolding acquire_cache_lock_def
proof (rule io_keeps_try)
  show "io_keeps (adds_files ps) (sys_io (sys_open_create p))" if "p \<noteq> []" "p \<in> ps"
    using that by (rule open_create_adds)
qed (auto simp: io_keeps_def Let_def intro: reflpD[OF adds_files_refl])

lemma required_adds: "io_keeps (adds_files ps) m \<Longrightarrow> io_keeps (adds_files ps) (required_lock name m)"
  unfolding required_lock_def by (rule io_keeps_then) (simp_all add: io_keeps_result)

definition lock_files :: "(string \<Rightarrow> string) \<Rightarrow> BinaryCachePaths \<Rightarrow> path set" where
  "lock_files sha256 paths = {binary_cache_lock_path sha256 paths, binary_cache_use_lock_path sha256 paths}"

lemma lock_requests_add_lock_files:
  "io_keeps (adds_files (lock_files sha256 paths)) (acquire_binary_cache_lock sha256 locks paths)"
  "io_keeps (adds_files (lock_files sha256 paths)) (acquire_binary_cache_use_read_lock sha256 locks paths)"
  "io_keeps (adds_files (lock_files sha256 paths)) (acquire_binary_cache_use_write_lock sha256 locks paths)"
  "io_keeps (adds_files (lock_files sha256 paths)) (try_acquire_binary_cache_lock sha256 locks paths)"
  "io_keeps (adds_files (lock_files sha256 paths)) (try_acquire_binary_cache_use_write_lock sha256 locks paths)"
  by (simp_all add: acquire_binary_cache_lock_def acquire_binary_cache_use_read_lock_def
      acquire_binary_cache_use_write_lock_def try_acquire_binary_cache_lock_def
      try_acquire_binary_cache_use_write_lock_def acquire_adds required_adds lock_files_def
      binary_cache_lock_path_def binary_cache_use_lock_path_def)

text \<open>A lock that was returned is the requested one.\<close>

lemma acquire_Inr:
  "acquire_cache_lock locks p mode name w = (Inr (Some l), w') \<Longrightarrow> l = \<lparr>bl_path = p, bl_mode = mode\<rparr>"
  by (auto simp: acquire_cache_lock_def io_try_def Let_def split: prod.splits sum.splits if_splits bool.splits)

end
