(* ===== verification/Cache_Inventory.thy ===== *)
theory Cache_Inventory
  imports Cache_Locks
begin

text \<open>
  Listing and removing cache entries (\<open>list_cached_agents\<close>, \<open>remove_cached_entries\<close> and what
  they call in \<open>src/src/installer/cache.rs\<close>). A directory listing fails as a whole or is
  complete; the order of its names is the order of the file system's entries.
\<close>

record CachedAgent =
  ca_agent_id :: string
  ca_agent_version :: string
  ca_platform :: string
  ca_cache_dir :: path
  ca_executable_path :: string

text \<open>The loop over a directory: nothing when it cannot be read.\<close>

definition each_entry :: "path \<Rightarrow> (string \<Rightarrow> (world, 'a list) io) \<Rightarrow> (world, 'a list) io" where
  "each_entry dir f =
     io_try (sys_io (sys_read_dir dir)) (\<lambda>names.
       case names of
         Inl _ \<Rightarrow> io_return []
       | Inr names \<Rightarrow> io_then (io_collect f names) (\<lambda>xs. io_return (concat xs)))"

definition read_cached_agent ::
    "(string \<Rightarrow> BinaryCacheMetadata option) \<Rightarrow> path \<Rightarrow> (world, CachedAgent option) io" where
  "read_cached_agent decode cache_dir =
     io_try (sys_io (sys_read (cache_dir @ [METADATA_FILE_NAME]))) (\<lambda>bytes.
       io_return (case bytes of
         Inl _ \<Rightarrow> None
       | Inr bytes \<Rightarrow> map_option (\<lambda>metadata.
           \<lparr>ca_agent_id = md_agent_id metadata, ca_agent_version = md_agent_version metadata,
            ca_platform = md_platform metadata, ca_cache_dir = cache_dir,
            ca_executable_path =
              path_join (path_display (cache_dir @ [EXTRACTED_DIR_NAME])) (md_cmd metadata)\<rparr>)
           (decode bytes)))"

definition list_cached_agents ::
    "(string \<Rightarrow> BinaryCacheMetadata option) \<Rightarrow> path \<Rightarrow> (world, CachedAgent list) io" where
  "list_cached_agents decode root_dir =
     (let agents_dir = root_dir @ [AGENTS_DIR] in
      each_entry agents_dir (\<lambda>agent.
      each_entry (agents_dir @ [agent]) (\<lambda>platform.
      each_entry (agents_dir @ [agent, platform]) (\<lambda>version.
        if prefix ''.'' version then io_return []
        else io_then (read_cached_agent decode (agents_dir @ [agent, platform, version])) (\<lambda>found.
          io_return (case found of None \<Rightarrow> [] | Some a \<Rightarrow> [a]))))))"

datatype BusyEntry = Wait | Skip

text \<open>\<open>DirEntry::file_type\<close> does not follow links.\<close>

definition is_dir_entry :: "path \<Rightarrow> (world, bool) io" where
  "is_dir_entry p = io_try (sys_io (sys_symlink_metadata p)) (\<lambda>n. io_return (n = Inr DirNode))"

text \<open>Entries of the agent's own namespace that the inventory did not find.\<close>

definition damaged_entries ::
    "(string \<Rightarrow> string) \<Rightarrow> path \<Rightarrow> string \<Rightarrow> string option \<Rightarrow> path list \<Rightarrow> (world, CachedAgent list) io" where
  "damaged_entries sha256 root_dir agent_id platform known_paths =
     (let agent_dir = root_dir @ [AGENTS_DIR, safe_path_component sha256 agent_id] in
      each_entry agent_dir (\<lambda>platform_name.
        if platform \<noteq> None \<and> platform \<noteq> Some platform_name then io_return []
        else io_then (is_dir_entry (agent_dir @ [platform_name])) (\<lambda>is_dir.
          if \<not> is_dir then io_return []
          else each_entry (agent_dir @ [platform_name]) (\<lambda>name.
            if prefix ''.'' name then io_return []
            else io_then (is_dir_entry (agent_dir @ [platform_name, name])) (\<lambda>is_dir.
              if \<not> is_dir \<or> List.member known_paths (agent_dir @ [platform_name, name]) then io_return []
              else io_return
                [\<lparr>ca_agent_id = agent_id, ca_agent_version = name, ca_platform = platform_name,
                  ca_cache_dir = agent_dir @ [platform_name, name], ca_executable_path = []\<rparr>])))))"

definition remove_empty_cache_parents :: "path \<Rightarrow> path \<Rightarrow> (world, unit) io" where
  "remove_empty_cache_parents root_dir cache_dir w =
     (let agents_dir = root_dir @ [AGENTS_DIR] in
      if cache_dir = [] then (Inr (), w)
      else let platform_dir = butlast cache_dir in
      if platform_dir = [] then (Inr (), w)
      else let agent_dir = butlast platform_dir;
               w1 = snd (sys_remove_dir platform_dir w);
               w2 = snd (sys_remove_dir agent_dir w1);
               w3 = snd (sys_remove_dir agents_dir w2)
      in (Inr (), w3))"

definition entry_paths :: "path \<Rightarrow> path \<Rightarrow> BinaryCachePaths" where
  "entry_paths root_dir cache_dir =
     \<lparr>bp_root_dir = root_dir,
      bp_parent_dir = (if cache_dir = [] then root_dir else butlast cache_dir),
      bp_cache_dir = cache_dir, bp_extracted_dir = cache_dir @ [EXTRACTED_DIR_NAME],
      bp_metadata_path = cache_dir @ [METADATA_FILE_NAME]\<rparr>"

definition not_selected :: "string \<Rightarrow> string option \<Rightarrow> path option \<Rightarrow> CachedAgent \<Rightarrow> bool" where
  "not_selected agent_id platform keep entry =
     (ca_agent_id entry \<noteq> agent_id
      \<or> platform \<noteq> None \<and> platform \<noteq> Some (ca_platform entry)
      \<or> keep = Some (ca_cache_dir entry))"

text \<open>Both locks of an entry, or none of them when a non-blocking request finds one busy.\<close>

definition lock_entry ::
    "(string \<Rightarrow> string) \<Rightarrow> lock_service \<Rightarrow> BusyEntry \<Rightarrow> BinaryCachePaths
     \<Rightarrow> (world, (BinaryCacheLock \<times> BinaryCacheLock) option) io" where
  "lock_entry sha256 locks busy paths =
     io_then (case busy of
        Wait \<Rightarrow> io_then (acquire_binary_cache_lock sha256 locks paths) (\<lambda>l. io_return (Some l))
      | Skip \<Rightarrow> try_acquire_binary_cache_lock sha256 locks paths) (\<lambda>lock.
     case lock of
       None \<Rightarrow> io_return None
     | Some lock \<Rightarrow>
         io_then (case busy of
            Wait \<Rightarrow> io_then (acquire_binary_cache_use_write_lock sha256 locks paths) (\<lambda>l. io_return (Some l))
          | Skip \<Rightarrow> try_acquire_binary_cache_use_write_lock sha256 locks paths) (\<lambda>use_lock.
           io_return (map_option (\<lambda>u. (lock, u)) use_lock)))"

definition remove_entry :: "path \<Rightarrow> path \<Rightarrow> (world, bool) io" where
  "remove_entry root_dir cache_dir w =
     (case sys_remove_dir_all cache_dir w of
        (Inr _, w') \<Rightarrow> io_then (remove_empty_cache_parents root_dir cache_dir) (\<lambda>_. io_return True) w'
      | (Inl e, w') \<Rightarrow>
          if io_kind e = KNotFound then (Inr False, w')
          else (Inl [''failed to remove cache directory '' @ path_display cache_dir, io_text e], w'))"

fun remove_selected ::
    "(string \<Rightarrow> string) \<Rightarrow> lock_service \<Rightarrow> path \<Rightarrow> string \<Rightarrow> string option \<Rightarrow> path option \<Rightarrow> BusyEntry
     \<Rightarrow> CachedAgent list \<Rightarrow> bool \<Rightarrow> (world, bool) io" where
  "remove_selected sha256 locks root_dir agent_id platform keep busy [] removed = io_return removed"
| "remove_selected sha256 locks root_dir agent_id platform keep busy (entry # entries) removed =
     (if not_selected agent_id platform keep entry
      then remove_selected sha256 locks root_dir agent_id platform keep busy entries removed
      else io_then (lock_entry sha256 locks busy (entry_paths root_dir (ca_cache_dir entry))) (\<lambda>held.
        case held of
          None \<Rightarrow> remove_selected sha256 locks root_dir agent_id platform keep busy entries removed
        | Some _ \<Rightarrow>
            io_then (remove_entry root_dir (ca_cache_dir entry)) (\<lambda>gone.
              remove_selected sha256 locks root_dir agent_id platform keep busy entries (removed \<or> gone))))"

definition remove_cached_entries ::
    "(string \<Rightarrow> string) \<Rightarrow> lock_service \<Rightarrow> (string \<Rightarrow> BinaryCacheMetadata option) \<Rightarrow> path \<Rightarrow> string
     \<Rightarrow> string option \<Rightarrow> path option \<Rightarrow> BusyEntry \<Rightarrow> (world, bool) io" where
  "remove_cached_entries sha256 locks decode root_dir agent_id platform keep busy =
     io_then (list_cached_agents decode root_dir) (\<lambda>entries.
     io_then (damaged_entries sha256 root_dir agent_id platform (map ca_cache_dir entries)) (\<lambda>damaged.
       remove_selected sha256 locks root_dir agent_id platform keep busy (entries @ damaged) False))"

definition remove_cached_agent ::
    "(string \<Rightarrow> string) \<Rightarrow> lock_service \<Rightarrow> (string \<Rightarrow> BinaryCacheMetadata option) \<Rightarrow> path \<Rightarrow> string
     \<Rightarrow> (world, bool) io" where
  "remove_cached_agent sha256 locks decode root_dir agent_id =
     remove_cached_entries sha256 locks decode root_dir agent_id None None Wait"

definition remove_replaced_platform_entries ::
    "(string \<Rightarrow> string) \<Rightarrow> lock_service \<Rightarrow> (string \<Rightarrow> BinaryCacheMetadata option) \<Rightarrow> path \<Rightarrow> string
     \<Rightarrow> Platform \<Rightarrow> path \<Rightarrow> (world, bool) io" where
  "remove_replaced_platform_entries sha256 locks decode root_dir agent_id platform keep =
     remove_cached_entries sha256 locks decode root_dir agent_id
       (Some (platform_cache_key platform)) (Some keep) Skip"

section \<open>Listing only reads\<close>

lemma reads_only_each_entry [keeps_intros]:
  "(\<And>x. reads_only (f x)) \<Longrightarrow> reads_only (each_entry dir f)"
  by (auto simp: each_entry_def sys_read_dir_def split: sum.split intro!: keeps_intros)

lemma reads_only_read_cached_agent [keeps_intros]: "reads_only (read_cached_agent decode d)"
  by (auto simp: read_cached_agent_def sys_read_def intro!: keeps_intros)

lemma reads_only_is_dir_entry [keeps_intros]: "reads_only (is_dir_entry p)"
  by (auto simp: is_dir_entry_def sys_symlink_metadata_def intro!: keeps_intros)

lemma reads_only_list [keeps_intros]: "reads_only (list_cached_agents decode root_dir)"
  by (auto simp: list_cached_agents_def Let_def intro!: keeps_intros)

lemma reads_only_damaged [keeps_intros]: "reads_only (damaged_entries sha256 root_dir agent_id platform known)"
  by (auto simp: damaged_entries_def Let_def intro!: keeps_intros)

section \<open>Where the entries come from\<close>

definition all_results :: "(files \<Rightarrow> 'a \<Rightarrow> bool) \<Rightarrow> (world, 'a list) io \<Rightarrow> bool" where
  "all_results P m \<longleftrightarrow> (\<forall>w xs w'. m w = (Inr xs, w') \<longrightarrow> (\<forall>x \<in> set xs. P (w_files w) x))"

lemma all_results_nil [simp]: "all_results P (io_return [])"
  by (simp add: all_results_def)

lemma all_results_collect:
  assumes "\<And>n. reads_only (f n)" "\<And>n. all_results P (f n)" "io_collect f names w = (Inr xss, w')"
  shows "\<forall>xs \<in> set xss. \<forall>x \<in> set xs. P (w_files w) x"
  using assms(3)
proof (induction names arbitrary: w xss)
  case (Cons n names)
  then obtain xs w1 xss' w2 where n: "f n w = (Inr xs, w1)" "io_collect f names w1 = (Inr xss', w2)" "xss = xs # xss'"
    by (auto simp: io_then_eq_Inr)
  have "w_files w1 = w_files w" using reads_only_files[OF assms(1) n(1)] .
  moreover have "\<forall>x \<in> set xs. P (w_files w) x" using assms(2)[of n] n(1) by (auto simp: all_results_def)
  moreover have "\<forall>xs \<in> set xss'. \<forall>x \<in> set xs. P (w_files w1) x"
    using Cons.prems n by (intro Cons.IH) (auto simp: io_then_eq_Inr)
  ultimately show ?case using n(3) by simp
qed simp

lemma all_results_each_entry:
  assumes "\<And>n. reads_only (f n)" "\<And>n. all_results P (f n)"
  shows "all_results P (each_entry dir f)"
  unfolding all_results_def
proof (intro allI impI)
  fix w xs w' assume run: "each_entry dir f w = (Inr xs, w')"
  obtain r w1 where r: "sys_io (sys_read_dir dir) w = (r, w1)" by fastforce
  then have same: "w_files w1 = w_files w"
    by (rule reads_only_files[rotated]) (simp add: sys_read_dir_def reads_only_reading)
  show "\<forall>x\<in>set xs. P (w_files w) x"
  proof (cases r)
    case (Inr names)
    with run r obtain xss where "io_collect f names w1 = (Inr xss, w')" "xs = concat xss"
      by (auto simp: each_entry_def io_try_def io_then_eq_Inr)
    with all_results_collect[OF assms] same show ?thesis by fastforce
  qed (use run r in \<open>auto simp: each_entry_def io_try_def\<close>)
qed

text \<open>A listed entry's metadata file names its agent.\<close>

definition names_agent ::
    "(string \<Rightarrow> BinaryCacheMetadata option) \<Rightarrow> files \<Rightarrow> path \<Rightarrow> string \<Rightarrow> bool" where
  "names_agent decode fs dir agent_id \<longleftrightarrow>
     (\<exists>bytes m md. stat fs (dir @ [METADATA_FILE_NAME]) = Some (FileNode bytes m)
        \<and> decode bytes = Some md \<and> md_agent_id md = agent_id)"

lemma read_cached_agent_names:
  "read_cached_agent decode dir w = (Inr (Some a), w') \<Longrightarrow>
     ca_cache_dir a = dir \<and> names_agent decode (w_files w) dir (ca_agent_id a)"
  by (auto simp: read_cached_agent_def io_try_def sys_read_def names_agent_def
      split: prod.splits sum.splits option.splits node.splits dest!: sys_io_reading_Inr)

lemma listed_entries:
  "all_results (\<lambda>fs a. (\<exists>x p v. ca_cache_dir a = root_dir @ [AGENTS_DIR, x, p, v])
      \<and> names_agent decode fs (ca_cache_dir a) (ca_agent_id a)) (list_cached_agents decode root_dir)"
  unfolding list_cached_agents_def Let_def
  by (intro all_results_each_entry)
    (auto intro!: keeps_intros, auto simp: all_results_def io_then_eq_Inr split: option.splits
      dest!: read_cached_agent_names)

lemma damaged_in_namespace:
  "all_results (\<lambda>fs a. (\<exists>p v. ca_cache_dir a = root_dir @ [AGENTS_DIR, safe_path_component sha256 agent_id, p, v])
      \<and> ca_agent_id a = agent_id) (damaged_entries sha256 root_dir agent_id platform known)"
proof -
  have pull: "all_results P (io_then m f)" if "reads_only m" "\<And>b. all_results P (f b)"
    for P :: "files \<Rightarrow> CachedAgent \<Rightarrow> bool" and m :: "(world, bool) io" and f
    using that reads_only_files[OF that(1)] unfolding all_results_def io_then_eq_Inr by metis
  show ?thesis
    unfolding damaged_entries_def Let_def
    by (auto intro!: all_results_each_entry pull keeps_intros split: if_split)
      (auto simp: all_results_def)
qed

section \<open>Removal keeps what is not selected\<close>

text \<open>The paths on the way to a directory and below it.\<close>

definition near :: "path \<Rightarrow> path \<Rightarrow> bool" where
  "near d q \<longleftrightarrow> prefix q d \<or> prefix d q"

definition keeps_dir :: "path \<Rightarrow> world \<Rightarrow> world \<Rightarrow> bool" where
  "keeps_dir d w w' \<longleftrightarrow>
     (anchored (w_files w) d \<longrightarrow> (\<forall>q. near d q \<longrightarrow> lookup (w_files w') q = lookup (w_files w) q))"

lemma keeps_dir_refl [simp]: "reflp (keeps_dir d)"
  by (simp add: reflp_def keeps_dir_def)

lemma anchored_kept: "keeps_dir d w w' \<Longrightarrow> anchored (w_files w) d \<Longrightarrow> anchored (w_files w') d"
  by (simp add: keeps_dir_def anchored_def near_def take_is_prefix)

lemma keeps_dir_trans [simp]: "transp (keeps_dir d)"
proof (rule transpI)
  fix u v w assume uv: "keeps_dir d u v" and vw: "keeps_dir d v w"
  then show "keeps_dir d u w" using anchored_kept[OF uv] unfolding keeps_dir_def by simp
qed

lemma adds_files_keeps_dir:
  assumes "adds_files ps w w'" "\<forall>p \<in> ps. length p = length d"
  shows "keeps_dir d w w'"
  unfolding keeps_dir_def
proof (intro impI allI)
  fix q assume a: "anchored (w_files w) d" and q: "near d q"
  show "lookup (w_files w') q = lookup (w_files w) q"
  proof (cases "q \<in> ps")
    case True
    with assms(2) q have "q = d" by (auto simp: near_def prefix_def)
    with a have "lookup (w_files w) q = Some DirNode" unfolding anchored_def by (metis take_all_iff order_refl)
    with assms(1) show ?thesis unfolding adds_files_def by (metis option.distinct(1))
  qed (use assms(1) in \<open>auto simp: adds_files_def\<close>)
qed

lemma remove_dir_all_keeps_dir:
  assumes "e \<noteq> d" "length e = length d" "e \<noteq> []"
  shows "keeps_dir d w (snd (sys_remove_dir_all e w))"
proof -
  have "\<not> prefix e q" if "near d q" for q
    using that assms by (auto simp: near_def prefix_def)
  then show ?thesis
    using remove_dir_all_unchanged[OF assms(3), of w] by (simp add: keeps_dir_def unchanged_outside_def)
qed

lemma remove_dir_keeps_dir:
  assumes "length p < length d"
  shows "keeps_dir d w (snd (sys_remove_dir p w))"
  unfolding keeps_dir_def
proof (intro impI allI)
  fix q assume a: "anchored (w_files w) d" and q: "near d q"
  have "child_names (w_files w) p \<noteq> []" if "prefix p d"
  proof -
    let ?c = "take (Suc (length p)) d"
    have "?c \<noteq> []" "butlast ?c = p" using that assms by (auto simp: butlast_take prefix_def)
    moreover have "(?c, DirNode) \<in> set (w_files w)"
      using a \<open>?c \<noteq> []\<close> lookup_mem unfolding anchored_def by blast
    ultimately have "last ?c \<in> set (child_names (w_files w) p)" by (force simp: child_names_def)
    then show ?thesis by auto
  qed
  moreover have "\<not> prefix p q" if "\<not> prefix p d" "p \<noteq> []"
    using that q assms by (auto simp: near_def prefix_def append_eq_append_conv2)
  ultimately show "lookup (w_files (snd (sys_remove_dir p w))) q = lookup (w_files w) q"
    by (cases "p = []")
      (auto simp: sys_remove_dir_def syscall_def Let_def intact_def disk.look_remove split: option.split node.split)
qed

lemma remove_parents_keeps_dir:
  assumes "length cache_dir = length d" "length root_dir + 1 < length d"
  shows "io_keeps (keeps_dir d) (remove_empty_cache_parents root_dir cache_dir)"
proof -
  have "keeps_dir d w (snd (sys_remove_dir a (snd (sys_remove_dir b (snd (sys_remove_dir c w))))))"
    if "length a < length d" "length b < length d" "length c < length d" for a b c w
    using remove_dir_keeps_dir[OF that(1)] remove_dir_keeps_dir[OF that(2)] remove_dir_keeps_dir[OF that(3)]
      transpD[OF keeps_dir_trans] by blast
  then show ?thesis
    using assms reflpD[OF keeps_dir_refl] by (auto simp: io_keeps_def remove_empty_cache_parents_def Let_def)
qed

lemma remove_entry_keeps_dir:
  assumes "e \<noteq> d" "length e = length d" "length root_dir + 1 < length d"
  shows "io_keeps (keeps_dir d) (remove_entry root_dir e)"
  unfolding io_keeps_def
proof
  fix w
  obtain r w1 where r: "sys_remove_dir_all e w = (r, w1)" by fastforce
  then have 1: "keeps_dir d w w1"
    using remove_dir_all_keeps_dir[OF assms(1,2), of w] assms(2,3) by (cases e) auto
  have "keeps_dir d w1 (snd (io_then (remove_empty_cache_parents root_dir e) (\<lambda>_. io_return True) w1))"
    using io_keeps_then[OF keeps_dir_trans remove_parents_keeps_dir[OF assms(2,3)], of "\<lambda>_. io_return True"]
    by (simp add: io_keeps_return io_keeps_def reflpD[OF keeps_dir_refl])
  with 1 have "keeps_dir d w (snd (io_then (remove_empty_cache_parents root_dir e) (\<lambda>_. io_return True) w1))"
    by (rule transpD[OF keeps_dir_trans])
  with 1 r show "keeps_dir d w (snd (remove_entry root_dir e w))"
    by (cases r) (auto simp: remove_entry_def)
qed

lemma lock_entry_keeps_dir:
  assumes "length e = length d" "e \<noteq> []"
  shows "io_keeps (keeps_dir d) (lock_entry sha256 locks busy (entry_paths root_dir e))"
proof -
  have "\<forall>p \<in> lock_files sha256 (entry_paths root_dir e). length p = length d"
    using assms
    by (cases e rule: rev_cases)
      (auto simp: lock_files_def binary_cache_lock_path_def binary_cache_use_lock_path_def entry_paths_def)
  then have adds: "io_keeps (keeps_dir d) m"
    if "io_keeps (adds_files (lock_files sha256 (entry_paths root_dir e))) m" for m :: "(world, 'a) io"
    using that adds_files_keeps_dir by (metis io_keeps_def)
  note keeps = io_keeps_then[OF keeps_dir_trans] io_keeps_return[OF keeps_dir_refl]
    lock_requests_add_lock_files[THEN adds]
  have pairs: "io_keeps (keeps_dir d) (Pair r)" for r :: "'a result"
    by (simp add: io_keeps_def reflpD[OF keeps_dir_refl])
  have some: "io_keeps (keeps_dir d) (io_then m (\<lambda>l. io_return (Some l)))"
    if "io_keeps (keeps_dir d) m" for m :: "(world, BinaryCacheLock) io"
    using that by (intro keeps)
  have first: "io_keeps (keeps_dir d) (case busy of Wait \<Rightarrow> io_then a (\<lambda>l. io_return (Some l)) | Skip \<Rightarrow> b)"
    if "io_keeps (keeps_dir d) a" "io_keeps (keeps_dir d) b" for a :: "(world, BinaryCacheLock) io" and b
    using that some by (cases busy) simp_all
  show ?thesis
    unfolding lock_entry_def
    by (rule keeps(1), rule first[OF lock_requests_add_lock_files(1,4)[THEN adds]])
       (auto split: option.split intro!: keeps(1,2) first lock_requests_add_lock_files(3,5)[THEN adds])
qed

lemma remove_selected_keeps_dir:
  assumes "\<forall>e \<in> set entries. length (ca_cache_dir e) = length d
      \<and> (not_selected agent_id platform keep e \<or> ca_cache_dir e \<noteq> d)"
    and "length root_dir + 1 < length d"
  shows "io_keeps (keeps_dir d) (remove_selected sha256 locks root_dir agent_id platform keep busy entries removed)"
  using assms(1)
proof (induction entries arbitrary: removed)
  case Nil
  then show ?case by (simp add: io_keeps_def reflpD[OF keeps_dir_refl])
next
  case (Cons e entries)
  let ?rest = "remove_selected sha256 locks root_dir agent_id platform keep busy entries"
  have rest: "io_keeps (keeps_dir d) (?rest b)" for b using Cons by simp
  show ?case
  proof (cases "not_selected agent_id platform keep e")
    case False
    then have e: "ca_cache_dir e \<noteq> d" "length (ca_cache_dir e) = length d" "ca_cache_dir e \<noteq> []"
      using Cons.prems assms(2) by auto
    have "io_keeps (keeps_dir d) (io_then (remove_entry root_dir (ca_cache_dir e)) (\<lambda>gone. ?rest (removed \<or> gone)))"
      by (rule io_keeps_then[OF keeps_dir_trans remove_entry_keeps_dir[OF e(1,2) assms(2)]]) (rule rest)
    then have "io_keeps (keeps_dir d)
        (case held of None \<Rightarrow> ?rest removed
         | Some _ \<Rightarrow> io_then (remove_entry root_dir (ca_cache_dir e)) (\<lambda>gone. ?rest (removed \<or> gone)))"
      for held :: "(BinaryCacheLock \<times> BinaryCacheLock) option"
      using rest by (cases held) simp_all
    then show ?thesis
      using False by (simp add: io_keeps_then[OF keeps_dir_trans lock_entry_keeps_dir[OF e(2,3)]])
  qed (use rest in simp)
qed

lemma spared_not_selected:
  assumes "names_agent decode fs (ca_cache_dir e) (ca_agent_id e)
      \<or> (\<exists>p v. ca_cache_dir e = root_dir @ [AGENTS_DIR, safe_path_component sha256 agent_id, p, v])"
    and "keep = Some (root_dir @ [AGENTS_DIR, x, p, v])
      \<or> x \<noteq> safe_path_component sha256 agent_id \<and> \<not> names_agent decode fs (root_dir @ [AGENTS_DIR, x, p, v]) agent_id"
    and "ca_cache_dir e = root_dir @ [AGENTS_DIR, x, p, v]"
  shows "not_selected agent_id platform keep e"
  using assms by (auto simp: not_selected_def)

lemma removal_keeps_entry:
  assumes "remove_cached_entries sha256 locks decode root_dir agent_id platform keep busy w = (r, w')"
    and "anchored (w_files w) (root_dir @ [AGENTS_DIR, x, p, v])"
    and "keep = Some (root_dir @ [AGENTS_DIR, x, p, v])
      \<or> x \<noteq> safe_path_component sha256 agent_id
        \<and> \<not> names_agent decode (w_files w) (root_dir @ [AGENTS_DIR, x, p, v]) agent_id"
  shows "subtree (w_files w') (root_dir @ [AGENTS_DIR, x, p, v])
       = subtree (w_files w) (root_dir @ [AGENTS_DIR, x, p, v])"
proof -
  let ?d = "root_dir @ [AGENTS_DIR, x, p, v]"
  have stays: "subtree (w_files w') ?d = subtree (w_files w) ?d"
    if "keeps_dir ?d w1 w'" "w_files w1 = w_files w" for w1
    using that assms(2) by (auto simp: keeps_dir_def near_def subtree_def fun_eq_iff)
  from assms(1) show ?thesis unfolding remove_cached_entries_def
  proof (cases rule: io_thenE)
    case (err e)
    then show ?thesis using reads_only_files[OF reads_only_list err(1)] by (simp add: subtree_def fun_eq_iff)
  next
    case (ok listed w1)
    have w1: "w_files w1 = w_files w" by (rule reads_only_files[OF reads_only_list ok(1)])
    from ok(2) show ?thesis
    proof (cases rule: io_thenE)
      case (err e)
      then show ?thesis
        using reads_only_files[OF reads_only_damaged err(1)] w1 by (simp add: subtree_def fun_eq_iff)
    next
      case (ok damaged w2)
      then have w2: "w_files w2 = w_files w" using reads_only_files[OF reads_only_damaged] w1 by metis
      have 1: "\<forall>a \<in> set listed. (\<exists>x p v. ca_cache_dir a = root_dir @ [AGENTS_DIR, x, p, v])
          \<and> names_agent decode (w_files w) (ca_cache_dir a) (ca_agent_id a)"
        using listed_entries[of root_dir decode] \<open>list_cached_agents decode root_dir w = (Inr listed, w1)\<close>
        unfolding all_results_def by blast
      have 2: "\<forall>a \<in> set damaged. (\<exists>p v. ca_cache_dir a = root_dir @ [AGENTS_DIR, safe_path_component sha256 agent_id, p, v])
          \<and> ca_agent_id a = agent_id"
        using damaged_in_namespace[of root_dir sha256 agent_id platform "map ca_cache_dir listed"] ok(1)
        unfolding all_results_def by blast
      have len: "length (ca_cache_dir e) = length ?d" if e: "e \<in> set (listed @ damaged)" for e
      proof -
        obtain x' p' v' where "ca_cache_dir e = root_dir @ [AGENTS_DIR, x', p', v']"
          using e 1 2 unfolding set_append by blast
        then show ?thesis by simp
      qed
      have other: "not_selected agent_id platform keep e \<or> ca_cache_dir e \<noteq> ?d" if e: "e \<in> set (listed @ damaged)" for e
        using spared_not_selected[OF _ assms(3)] 1 2 e unfolding set_append by blast
      have "io_keeps (keeps_dir ?d)
          (remove_selected sha256 locks root_dir agent_id platform keep busy (listed @ damaged) False)"
        by (intro remove_selected_keeps_dir ballI conjI len other) simp_all
      with ok(2) have "keeps_dir ?d w2 w'" by (auto dest: io_keepsD)
      then show ?thesis using w2 by (rule stays)
    qed
  qed
qed

text \<open>
  Property C36: whatever calls fail and whatever the other processes hold, uninstalling an agent or
  cleaning up after its update leaves alone, with everything in it, the entry that is to be
  kept and every entry outside the agent's own directory whose metadata names another agent.
\<close>
theorem removal_spares_other_entries:
  assumes "remove_cached_entries sha256 locks decode root_dir agent_id platform keep busy w = (r, w')"
    and "anchored (w_files w) (root_dir @ [AGENTS_DIR, x, p, v])"
    and "keep = Some (root_dir @ [AGENTS_DIR, x, p, v])
      \<or> x \<noteq> safe_path_component sha256 agent_id
        \<and> \<not> names_agent decode (w_files w) (root_dir @ [AGENTS_DIR, x, p, v]) agent_id"
  shows "subtree (w_files w') (root_dir @ [AGENTS_DIR, x, p, v])
       = subtree (w_files w) (root_dir @ [AGENTS_DIR, x, p, v])"
  by (rule removal_keeps_entry[OF assms])

definition free_locks :: lock_service where
  "free_locks = \<lparr>lock_answer = (\<lambda>_ _ _. Inr True), worker_lost = (\<lambda>_. False)\<rparr>"

definition demo_cache :: files where
  "demo_cache =
     [([''agents''], DirNode), ([''agents'', ''b''], DirNode), ([''agents'', ''b'', ''p''], DirNode),
      ([''agents'', ''b'', ''p'', ''1''], DirNode),
      ([''agents'', ''b'', ''p'', ''1'', ''metadata.json''], FileNode ''{}'' 420)]"

lemma demo_cache_anchored: "anchored demo_cache [''agents'', ''b'', ''p'', ''1'']"
proof -
  have "lookup demo_cache (take n [''agents'', ''b'', ''p'', ''1'']) = Some DirNode" for n
    by (cases n; cases "n - 1"; cases "n - 2"; cases "n - 3") (simp_all add: demo_cache_def lookup_def)
  then show ?thesis by (simp add: anchored_def)
qed

theorem removal_spares_other_entries_witness:
  "subtree (w_files (snd (remove_cached_entries rev free_locks demo_decode [] ''c'' None None Wait (calm_world demo_cache))))
     [''agents'', ''b'', ''p'', ''1''] = subtree demo_cache [''agents'', ''b'', ''p'', ''1'']"
proof -
  obtain r w' where run:
    "remove_cached_entries rev free_locks demo_decode [] ''c'' None None Wait (calm_world demo_cache) = (r, w')"
    by fastforce
  have "safe_path_component rev ''c'' = ''c''" by (simp add: safe_component_fixed safe_component_def is_safe_char_def is_ascii_alphanumeric_def code_def is_ascii_digit_def)
  moreover have "\<not> names_agent demo_decode demo_cache [''agents'', ''b'', ''p'', ''1''] ''c''"
    by (auto simp: names_agent_def demo_decode_def demo_metadata_def split: if_splits)
  ultimately show ?thesis
    using removal_spares_other_entries[OF run, of "''b''" "''p''" "''1''"] run demo_cache_anchored
    by (simp add: AGENTS_DIR_def)
qed

end
