(* ===== verification/Recovery.thy ===== *)
theory Recovery
  imports Cache_Inventory
begin

text \<open>
  The sweep at process start (\<open>src/src/installer/binary/recovery.rs\<close>): work directories of
  interrupted installs are removed, and an entry that was moved aside is put back first.
\<close>

type_synonym candidates = "(path \<times> path list) list"

text \<open>\<open>candidates.entry(cache_dir).or_default().push(entry)\<close>; the map is iterated in key order.\<close>

fun add_candidate :: "path \<Rightarrow> path \<Rightarrow> candidates \<Rightarrow> candidates" where
  "add_candidate key entry [] = [(key, [entry])]"
| "add_candidate key entry ((k, es) # rest) =
     (if k = key then (k, es @ [entry]) # rest else (k, es) # add_candidate key entry rest)"

definition work_directories :: "path \<Rightarrow> (world, (path \<times> path) list) io" where
  "work_directories root_dir =
     (let agents_dir = root_dir @ [AGENTS_DIR] in
      each_entry agents_dir (\<lambda>agent.
      each_entry (agents_dir @ [agent]) (\<lambda>platform.
      each_entry (agents_dir @ [agent, platform]) (\<lambda>version.
        io_return (case work_dir_cache_key version of
          None \<Rightarrow> []
        | Some key \<Rightarrow> [(agents_dir @ [agent, platform, key], agents_dir @ [agent, platform, version])])))))"

definition group_candidates :: "(path \<times> path) list \<Rightarrow> candidates" where
  "group_candidates found = sort_key fst (foldl (\<lambda>cs (key, entry). add_candidate key entry cs) [] found)"

definition is_backup :: "path \<Rightarrow> bool" where
  "is_backup entry = (case file_name entry of None \<Rightarrow> False | Some n \<Rightarrow> contains n ''-backup-'')"

text \<open>The backups from the last name to the first, until one can be moved back.\<close>

fun restore_first :: "path \<Rightarrow> path list \<Rightarrow> world \<Rightarrow> path option \<times> world" where
  "restore_first cache_dir [] w = (None, w)"
| "restore_first cache_dir (b # bs) w =
     (case sys_rename b cache_dir w of
        (Inr _, w') \<Rightarrow> (Some b, w')
      | (Inl _, w') \<Rightarrow> restore_first cache_dir bs w')"

fun remove_entries :: "path option \<Rightarrow> path list \<Rightarrow> nat \<Rightarrow> world \<Rightarrow> nat \<times> world" where
  "remove_entries restored [] n w = (n, w)"
| "remove_entries restored (e # es) n w =
     (if restored = Some e then remove_entries restored es n w
      else case sys_remove_dir_all e w of
             (Inr _, w') \<Rightarrow> remove_entries restored es (Suc n) w'
           | (Inl _, w') \<Rightarrow> remove_entries restored es n w')"

definition sweep_group ::
    "(string \<Rightarrow> string) \<Rightarrow> lock_service \<Rightarrow> path \<Rightarrow> path \<Rightarrow> path list \<Rightarrow> nat \<Rightarrow> world \<Rightarrow> nat \<times> world" where
  "sweep_group sha256 locks root_dir cache_dir entries n w =
     (case try_acquire_binary_cache_lock sha256 locks (entry_paths root_dir cache_dir) w of
        (Inr (Some _), w1) \<Rightarrow>
          (case sys_try_exists cache_dir w1 of
             (Inl _, w2) \<Rightarrow> (n, w2)
           | (Inr True, w2) \<Rightarrow> remove_entries None entries n w2
           | (Inr False, w2) \<Rightarrow>
               (case restore_first cache_dir (rev (sort (filter is_backup entries))) w2 of
                  (restored, w3) \<Rightarrow> remove_entries restored entries n w3))
      | (_, w1) \<Rightarrow> (n, w1))"

fun sweep_groups ::
    "(string \<Rightarrow> string) \<Rightarrow> lock_service \<Rightarrow> path \<Rightarrow> candidates \<Rightarrow> nat \<Rightarrow> world \<Rightarrow> nat \<times> world" where
  "sweep_groups sha256 locks root_dir [] n w = (n, w)"
| "sweep_groups sha256 locks root_dir ((cache_dir, entries) # rest) n w =
     (case sweep_group sha256 locks root_dir cache_dir entries n w of
        (n', w') \<Rightarrow> sweep_groups sha256 locks root_dir rest n' w')"

definition clean_stale_staging_entries_in ::
    "(string \<Rightarrow> string) \<Rightarrow> lock_service \<Rightarrow> path \<Rightarrow> world \<Rightarrow> nat \<times> world" where
  "clean_stale_staging_entries_in sha256 locks root_dir w =
     (case work_directories root_dir w of
        (Inr found, w') \<Rightarrow> sweep_groups sha256 locks root_dir (group_candidates found) 0 w'
      | (Inl _, w') \<Rightarrow> (0, w'))"

definition clean_stale_staging_entries ::
    "(string \<Rightarrow> string) \<Rightarrow> lock_service \<Rightarrow> path option \<Rightarrow> (world, nat) io" where
  "clean_stale_staging_entries sha256 locks cache_dir =
     io_then (io_result (cache_root_dir cache_dir)) (\<lambda>root_dir w.
       case clean_stale_staging_entries_in sha256 locks root_dir w of (n, w') \<Rightarrow> (Inr n, w'))"

section \<open>Published entries are not touched\<close>

lemma keeps_dir_step: "keeps_dir d u v \<Longrightarrow> keeps_dir d v w \<Longrightarrow> keeps_dir d u w"
  by (rule transpD[OF keeps_dir_trans])

lemma same_files_keeps_dir: "w_files w' = w_files w \<Longrightarrow> keeps_dir d w w'"
  by (simp add: keeps_dir_def)

lemma not_near: "e \<noteq> d \<Longrightarrow> length e = length d \<Longrightarrow> near d q \<Longrightarrow> \<not> prefix e q"
  by (auto simp: near_def prefix_def)

lemma rename_keeps_dir:
  assumes "a \<noteq> d" "b \<noteq> d" "length a = length d" "length b = length d" "a \<noteq> []"
  shows "keeps_dir d w (snd (sys_rename a b w))"
proof (cases "a = b")
  case True
  then show ?thesis
    by (auto simp: keeps_dir_def sys_rename_def rename_files_def syscall_def Let_def intact_def split: option.split)
next
  case False
  then have ap: "apart a b" using assms by (auto simp: apart_def prefix_def)
  obtain r w' where r: "sys_rename a b w = (r, w')" by fastforce
  from ap r have "w_files w' = move_tree a b (w_files w) \<or> w_files w' = w_files w"
    by (rule rename_cases) auto
  moreover have "lookup (move_tree a b (w_files w)) q = lookup (w_files w) q" if "near d q" for q
    using not_near[OF assms(1,3) that] not_near[OF assms(2,4) that] ap by (simp add: apart_def disk.look_move)
  ultimately show ?thesis using r by (auto simp: keeps_dir_def)
qed

lemma restore_first_keeps_dir:
  assumes "cache_dir \<noteq> d" "length cache_dir = length d"
  shows "\<forall>b \<in> set bs. b \<noteq> d \<and> length b = length d \<and> b \<noteq> [] \<Longrightarrow> keeps_dir d w (snd (restore_first cache_dir bs w))"
proof (induction bs arbitrary: w)
  case (Cons b bs)
  obtain r w' where r: "sys_rename b cache_dir w = (r, w')" by fastforce
  have 1: "keeps_dir d w w'" using rename_keeps_dir[of b d cache_dir w] Cons.prems assms r by simp
  with r Cons.IH[of w'] Cons.prems show ?case by (cases r) (auto intro: keeps_dir_step)
qed (simp add: same_files_keeps_dir)

lemma remove_entries_keeps_dir:
  "\<forall>e \<in> set es. e \<noteq> d \<and> length e = length d \<and> e \<noteq> [] \<Longrightarrow> keeps_dir d w (snd (remove_entries restored es n w))"
proof (induction es arbitrary: w n)
  case (Cons e es)
  obtain r w' where r: "sys_remove_dir_all e w = (r, w')" by fastforce
  have 1: "keeps_dir d w w'" using remove_dir_all_keeps_dir[of e d w] Cons.prems r by simp
  have 2: "keeps_dir d v (snd (remove_entries restored es k v))" for v k using Cons by simp
  from r 1 2 show ?case by (cases r) (auto intro: keeps_dir_step)
qed (simp add: same_files_keeps_dir)

lemma try_lock_keeps_dir:
  assumes "length c = length d" "c \<noteq> []"
  shows "io_keeps (keeps_dir d) (try_acquire_binary_cache_lock sha256 locks (entry_paths root_dir c))"
proof -
  have "\<forall>p \<in> lock_files sha256 (entry_paths root_dir c). length p = length d"
    using assms by (cases c rule: rev_cases)
      (auto simp: lock_files_def binary_cache_lock_path_def binary_cache_use_lock_path_def entry_paths_def)
  then show ?thesis
    using lock_requests_add_lock_files(4)[of sha256 "entry_paths root_dir c" locks] adds_files_keeps_dir
    unfolding io_keeps_def by metis
qed

lemma sweep_group_keeps_dir:
  assumes "length cache_dir = length d" "d \<noteq> []" "list_all plain_name d"
    and es: "\<forall>e \<in> set entries. e \<noteq> d \<and> length e = length d \<and> e \<noteq> []"
  shows "keeps_dir d w (snd (sweep_group sha256 locks root_dir cache_dir entries n w))"
proof -
  have c: "cache_dir \<noteq> []" using assms by auto
  obtain r w1 where r: "try_acquire_binary_cache_lock sha256 locks (entry_paths root_dir cache_dir) w = (r, w1)" by fastforce
  have k1: "keeps_dir d w w1" using try_lock_keeps_dir[OF assms(1) c] r by (rule io_keepsD)
  obtain x w2 where x: "sys_try_exists cache_dir w1 = (x, w2)" by fastforce
  then have w2: "w_files w2 = w_files w1"
    by (auto simp: sys_try_exists_def reading_def syscall_def Let_def intact_def split: option.splits)
  have k2: "keeps_dir d w w2" using k1 same_files_keeps_dir[OF w2] by (rule keeps_dir_step)
  have k3: "keeps_dir d w (snd (remove_entries restored entries n v))" if "keeps_dir d w v" for v restored
    using that remove_entries_keeps_dir[OF es] by (rule keeps_dir_step)
  have k4: "keeps_dir d w (snd (restore_first cache_dir bs w2))"
    if "cache_dir \<noteq> d" "set bs \<subseteq> set entries" for bs
    using k2 restore_first_keeps_dir[OF that(1) assms(1), of bs w2] that(2) es by (blast intro: keeps_dir_step)
  show ?thesis
  proof (cases "anchored (w_files w) d \<and> cache_dir = d")
    case True
    then have "anchored (w_files w1) d" using k1 anchored_kept by blast
    then have "x \<noteq> Inr False"
      using x True anchored_stat[OF _ assms(3)]
      by (auto simp: sys_try_exists_def reading_def syscall_def Let_def split: option.splits)
    then show ?thesis
      using r x k1 k2 k3 by (auto simp: sweep_group_def split: sum.split option.split bool.split)
  next
    case False
    show ?thesis
    proof (cases "anchored (w_files w) d")
      case True
      with False have "cache_dir \<noteq> d" by simp
      obtain b w3 where b: "restore_first cache_dir (rev (sort (filter is_backup entries))) w2 = (b, w3)" by fastforce
      then have "keeps_dir d w w3" using k4[OF \<open>cache_dir \<noteq> d\<close>, of "rev (sort (filter is_backup entries))"] by auto
      with r x b k1 k2 k3 show ?thesis
        by (auto simp: sweep_group_def split: sum.split option.split bool.split)
    qed (simp add: keeps_dir_def)
  qed
qed

lemma add_candidate_mem:
  "(k, es) \<in> set (add_candidate key entry cs) \<Longrightarrow> e \<in> set es \<Longrightarrow>
     (k, e) = (key, entry) \<or> (\<exists>es'. (k, es') \<in> set cs \<and> e \<in> set es')"
  by (induction key entry cs rule: add_candidate.induct) (auto split: if_splits)

lemma group_candidates_mem:
  "(k, es) \<in> set (group_candidates found) \<Longrightarrow> e \<in> set es \<Longrightarrow> (k, e) \<in> set found"
proof -
  have "(k, es) \<in> set (foldl (\<lambda>cs (key, entry). add_candidate key entry cs) cs found) \<Longrightarrow> e \<in> set es \<Longrightarrow>
      (k, e) \<in> set found \<or> (\<exists>es'. (k, es') \<in> set cs \<and> e \<in> set es')" for cs
  proof (induction found arbitrary: cs)
    case (Cons f found)
    obtain key entry where f: "f = (key, entry)" by fastforce
    with Cons have "(k, e) \<in> set found \<or> (\<exists>es'. (k, es') \<in> set (add_candidate key entry cs) \<and> e \<in> set es')"
      by simp
    then show ?case using add_candidate_mem[of k _ key entry cs e] f by auto
  qed auto
  from this[of "[]"] show "(k, es) \<in> set (group_candidates found) \<Longrightarrow> e \<in> set es \<Longrightarrow> (k, e) \<in> set found"
    by (auto simp: group_candidates_def)
qed

lemma add_candidate_key:
  "(k, es) \<in> set (add_candidate key entry cs) \<Longrightarrow> k = key \<or> k \<in> fst ` set cs"
  by (induction key entry cs rule: add_candidate.induct) (auto split: if_splits intro: rev_image_eqI)

lemma group_candidates_key: "(k, es) \<in> set (group_candidates found) \<Longrightarrow> k \<in> fst ` set found"
proof -
  have "(k, es) \<in> set (foldl (\<lambda>cs (key, entry). add_candidate key entry cs) cs found) \<Longrightarrow>
      k \<in> fst ` set found \<or> k \<in> fst ` set cs" for cs
  proof (induction found arbitrary: cs)
    case (Cons f found)
    then show ?case by (cases f) (force dest: add_candidate_key)
  qed force
  from this[of "[]"] show "(k, es) \<in> set (group_candidates found) \<Longrightarrow> k \<in> fst ` set found"
    by (auto simp: group_candidates_def)
qed

lemma work_directories_shape:
  "all_results (\<lambda>fs (k, e). (\<exists>x p v key. k = root_dir @ [AGENTS_DIR, x, p, key]
      \<and> e = root_dir @ [AGENTS_DIR, x, p, v] \<and> prefix ''.'' v)) (work_directories root_dir)"
proof -
  have dot: "work_dir_cache_key v = Some key \<Longrightarrow> prefix ''.'' v" for v key
    by (cases "strip_prefix ''.'' v") (auto simp: work_dir_cache_key_def strip_prefix_Some)
  show ?thesis
    unfolding work_directories_def Let_def
    by (intro all_results_each_entry) (auto intro!: keeps_intros, auto simp: all_results_def dest: dot dot[OF sym] split: option.splits)
qed

lemma reads_only_work_directories: "reads_only (work_directories root_dir)"
  by (auto simp: work_directories_def Let_def intro!: keeps_intros)

text \<open>
  Property C37: the start-up sweep never touches a published entry: whatever calls fail and whatever
  locks are busy, an entry directory (its name does not start with a dot) keeps everything in it.
\<close>
theorem sweep_spares_published_entries:
  assumes "clean_stale_staging_entries_in sha256 locks root_dir w = (n, w')"
    and "anchored (w_files w) (root_dir @ [AGENTS_DIR, x, p, v])"
    and "list_all plain_name (root_dir @ [AGENTS_DIR, x, p, v])" "\<not> prefix ''.'' v"
  shows "subtree (w_files w') (root_dir @ [AGENTS_DIR, x, p, v])
       = subtree (w_files w) (root_dir @ [AGENTS_DIR, x, p, v])"
proof -
  let ?d = "root_dir @ [AGENTS_DIR, x, p, v]"
  obtain r w1 where r: "work_directories root_dir w = (r, w1)" by fastforce
  have w1: "w_files w1 = w_files w" using reads_only_files[OF reads_only_work_directories r] .
  have groups: "keeps_dir ?d u (snd (sweep_groups sha256 locks root_dir cs k u))"
    if "\<forall>(c, es) \<in> set cs. length c = length ?d \<and> (\<forall>e \<in> set es. e \<noteq> ?d \<and> length e = length ?d \<and> e \<noteq> [])" for cs k u
    using that
  proof (induction cs arbitrary: k u)
    case (Cons c cs)
    obtain c' es where c: "c = (c', es)" by fastforce
    obtain k' u' where g: "sweep_group sha256 locks root_dir c' es k u = (k', u')" by fastforce
    have "keeps_dir ?d u u'"
      using sweep_group_keeps_dir[of c' ?d es u sha256 locks root_dir k] Cons.prems c g assms(3) by auto
    moreover have "keeps_dir ?d u' (snd (sweep_groups sha256 locks root_dir cs k' u'))"
      using Cons by simp
    ultimately show ?case using c g by (auto intro: keeps_dir_step)
  qed (simp add: same_files_keeps_dir)
  have "keeps_dir ?d w1 w'"
  proof (cases r)
    case (Inr found)
    with r have shape: "\<forall>(k, e) \<in> set found. \<exists>x p v key. k = root_dir @ [AGENTS_DIR, x, p, key]
        \<and> e = root_dir @ [AGENTS_DIR, x, p, v] \<and> prefix ''.'' v"
      using work_directories_shape[of root_dir] unfolding all_results_def by blast
    have "length c = length ?d \<and> (\<forall>e \<in> set es. e \<noteq> ?d \<and> length e = length ?d \<and> e \<noteq> [])"
      if "(c, es) \<in> set (group_candidates found)" for c es
    proof (intro conjI ballI)
      show "length c = length ?d"
        using group_candidates_key[OF that] shape by fastforce
      fix e assume "e \<in> set es"
      with group_candidates_mem[OF that] shape obtain x' p' v' where
        "e = root_dir @ [AGENTS_DIR, x', p', v']" "prefix ''.'' v'" by blast
      then show "e \<noteq> ?d" "length e = length ?d" "e \<noteq> []" using assms(4) by auto
    qed
    then have "keeps_dir ?d w1 (snd (sweep_groups sha256 locks root_dir (group_candidates found) 0 w1))"
      by (intro groups) auto
    with assms(1) r Inr show ?thesis by (simp add: clean_stale_staging_entries_in_def)
  next
    case (Inl e)
    with assms(1) r show ?thesis by (auto simp: clean_stale_staging_entries_in_def same_files_keeps_dir)
  qed
  with w1 assms(2) show ?thesis
    by (auto simp: keeps_dir_def near_def subtree_def fun_eq_iff)
qed

theorem sweep_spares_published_entries_witness:
  "subtree (w_files (snd (clean_stale_staging_entries_in rev free_locks [] (failing_world demo_cache 1))))
     [''agents'', ''b'', ''p'', ''1''] = subtree demo_cache [''agents'', ''b'', ''p'', ''1'']"
proof -
  obtain n w' where run: "clean_stale_staging_entries_in rev free_locks [] (failing_world demo_cache 1) = (n, w')"
    by fastforce
  have "w_files (failing_world demo_cache 1) = demo_cache" by (simp add: failing_world_def)
  then show ?thesis
    using sweep_spares_published_entries[OF run, of "''b''" "''p''" "''1''"] run demo_cache_anchored
    by (simp add: AGENTS_DIR_def plain_name_def)
qed

section \<open>An interrupted refresh is undone\<close>

lemma calm_lock_free:
  assumes "calm w" "lookup (w_files w) (binary_cache_lock_path sha256 paths) = Some (FileNode b m)"
    and "lookup (w_files w) (bp_parent_dir paths) = Some DirNode"
  shows "try_acquire_binary_cache_lock sha256 free_locks paths w
    = (Inr (Some \<lparr>bl_path = binary_cache_lock_path sha256 paths, bl_mode = TryWrite\<rparr>),
       w\<lparr>w_calls := Suc (w_calls w)\<rparr>)"
proof -
  have "butlast (binary_cache_lock_path sha256 paths) = bp_parent_dir paths"
    by (simp add: binary_cache_lock_path_def)
  with assms show ?thesis
    by (simp add: try_acquire_binary_cache_lock_def acquire_cache_lock_def io_try_def sys_io_def
        sys_open_create_def syscall_def calm_def free_locks_def any_io_def Let_def)
qed

text \<open>
  A refresh that was killed after it had moved the old entry aside and before it had
  published the new one is undone by the next start: the file system is again the one before
  the refresh, without the staging directory.
\<close>
lemma sweep_undoes_interrupted_refresh:
  assumes calm: "calm w" and crash: "w_files w = move_tree cache backup fs"
    and dirs: "cache = parent @ [v]" "backup = parent @ [b]" "staging = parent @ [s]" "distinct [v, b, s]"
    and names: "is_backup backup" "\<not> is_backup staging"
    and before: "lookup fs parent = Some DirNode" "lookup fs cache = Some DirNode"
      "subtree fs backup = (\<lambda>_. None)" "lookup fs staging = Some DirNode"
    and free: "lookup (w_files w) (binary_cache_lock_path sha256 (entry_paths root_dir cache)) = Some (FileNode [] 420)"
    and gone: "stat (w_files w) cache = None"
  shows "\<exists>w'. sweep_group sha256 free_locks root_dir cache [staging, backup] n w = (Suc n, w')
    \<and> lookup (w_files w') = lookup (remove_tree staging fs)"
proof -
  have ap: "apart cache backup" "apart cache staging" "apart backup staging"
    using dirs by (auto intro: apart_siblings)
  note ap' = ap[THEN apart_sym]
  have up: "butlast cache = parent" "\<not> prefix cache parent" "\<not> prefix backup parent"
    using dirs by (auto dest: prefix_length_le)
  have none: "lookup fs (backup @ q) = None" for q using before(3) by (simp add: subtree_def fun_eq_iff)
  have now: "lookup (w_files w) parent = Some DirNode" "lookup (w_files w) backup = Some DirNode"
    "lookup (w_files w) cache = None"
    using ap up before by (auto simp: crash disk.look_move apart_def)
  define w1 where "w1 = w\<lparr>w_calls := Suc (w_calls w)\<rparr>"
  have w1: "calm w1" "w_files w1 = w_files w" using calm by (simp_all add: w1_def calm_def)
  have lock: "try_acquire_binary_cache_lock sha256 free_locks (entry_paths root_dir cache) w
      = (Inr (Some \<lparr>bl_path = binary_cache_lock_path sha256 (entry_paths root_dir cache), bl_mode = TryWrite\<rparr>), w1)"
    unfolding w1_def using now(1) up(1) dirs(1) by (intro calm_lock_free[OF calm free]) (auto simp: entry_paths_def)
  obtain w2 where w2: "sys_try_exists cache w1 = (Inr False, w2)" "w_files w2 = w_files w" "calm w2"
    using calm_reading[OF w1(1), of "\<lambda>fs. Inr (stat fs cache \<noteq> None)" False] gone w1(2)
    by (auto simp: sys_try_exists_def)
  obtain w3 where w3: "sys_rename backup cache w2 = (Inr (), w3)" "calm w3"
    "w_files w3 = move_tree backup cache (move_tree cache backup fs)"
    using calm_rename[OF w2(3) ap'(1)] now up(1) w2(2) crash by auto
  have put_back: "lookup (w_files w3) q = lookup fs q" for q
    using disk.move_back[of cache backup fs q] ap(1) none w3(3) by (simp add: apart_def)
  obtain w4 where w4: "sys_remove_dir_all staging w3 = (Inr (), w4)" "w_files w4 = remove_tree staging (w_files w3)"
    using w3(2) put_back[of staging] before(4) by (auto simp: sys_remove_dir_all_def syscall_def calm_def)
  have "sweep_group sha256 free_locks root_dir cache [staging, backup] n w = (Suc n, w4)"
    using lock w2(1) w3(1) w4(1) names dirs(4) dirs(2,3) by (simp add: sweep_group_def)
  moreover have "lookup (w_files w4) q = lookup (remove_tree staging fs) q" for q
    using put_back ap(2) by (simp add: w4(2) disk.look_remove apart_def)
  ultimately show ?thesis by blast
qed

definition demo_interrupted :: files where
  "demo_interrupted =
     [([''c''], DirNode), ([''c'', ''f''], FileNode ''x'' 420), ([''c-cache.lock''], FileNode [] 420),
      ([''.c-staging-Ab1''], DirNode)]"

abbreviation demo_backup :: path where
  "demo_backup \<equiv> [''.c-backup-7-9'']"

lemma demo_moved: "move_tree [''c''] demo_backup demo_interrupted =
   [(demo_backup, DirNode), (demo_backup @ [''f''], FileNode ''x'' 420), ([''c-cache.lock''], FileNode [] 420),
    ([''.c-staging-Ab1''], DirNode)]"
  by (simp add: move_tree_def remove_tree_def demo_interrupted_def)

lemma demo_names: "is_backup demo_backup" "\<not> is_backup [''.c-staging-Ab1'']"
  by code_simp+

lemma safe_demo_name: "safe_path_component rev ''c'' = ''c''"
  by (rule safe_component_fixed)
    (simp add: safe_component_def is_safe_char_def is_ascii_alphanumeric_def code_def is_ascii_digit_def)

lemma demo_lock_path: "binary_cache_lock_path rev (entry_paths [] [''c'']) = [''c-cache.lock'']"
  using safe_demo_name by (simp add: binary_cache_lock_path_def entry_paths_def file_name_def)

theorem sweep_undoes_interrupted_refresh_witness:
  "\<exists>w'. sweep_group rev free_locks [] [''c''] [[''.c-staging-Ab1''], demo_backup] 0
        (calm_world (move_tree [''c''] demo_backup demo_interrupted)) = (1, w')
     \<and> lookup (w_files w') = lookup (remove_tree [''.c-staging-Ab1''] demo_interrupted)"
proof -
  let ?w = "calm_world (move_tree [''c''] demo_backup demo_interrupted)"
  have none: "subtree demo_interrupted demo_backup = (\<lambda>_. None)"
    by (rule ext) (simp add: subtree_def lookup_def demo_interrupted_def)
  have looks: "lookup demo_interrupted [''c''] = Some DirNode" "lookup demo_interrupted [''.c-staging-Ab1''] = Some DirNode"
    by (simp_all add: lookup_def demo_interrupted_def)
  have moved: "lookup (w_files ?w) (binary_cache_lock_path rev (entry_paths [] [''c''])) = Some (FileNode [] 420)"
    "stat (w_files ?w) [''c''] = None"
    by (simp_all add: demo_lock_path demo_moved lookup_def stat_def)
  show ?thesis
    using sweep_undoes_interrupted_refresh[OF _ _ _ _ _ _ demo_names _ looks(1) none looks(2) moved, of "[]" "''c''"
        "''.c-backup-7-9''" "''.c-staging-Ab1''" 0]
    by simp
qed


end
