(* ===== verification/Install_Log.thy ===== *)
theory Install_Log
  imports Recovery
begin

text \<open>
  The install log (\<open>src/src/installer/binary/log.rs\<close>): one line per install attempt, appended
  under a lock of its own, and rewritten to its tail when it would become too long. The clock
  is a parameter.
\<close>

section \<open>Lines\<close>

record utc_time =
  ut_year :: nat
  ut_month :: nat
  ut_day :: nat
  ut_hour :: nat
  ut_minute :: nat
  ut_second :: nat

definition zero_padded :: "nat \<Rightarrow> nat \<Rightarrow> string" where
  "zero_padded width n = replicate (width - length (show_nat n)) (CHR ''0'') @ show_nat n"

definition utc_timestamp :: "utc_time \<Rightarrow> string" where
  "utc_timestamp now =
     zero_padded 4 (ut_year now) @ ''-'' @ zero_padded 2 (ut_month now) @ ''-'' @ zero_padded 2 (ut_day now)
     @ ''T'' @ zero_padded 2 (ut_hour now) @ '':'' @ zero_padded 2 (ut_minute now) @ '':''
     @ zero_padded 2 (ut_second now) @ ''Z''"

definition install_outcome :: "RegistryAgent \<Rightarrow> Platform \<Rightarrow> 'l CachedBinary result \<Rightarrow> string" where
  "install_outcome agent platform result =
     (let platform = platform_cache_key platform in
      case result of
        Inr cached \<Rightarrow> ''ready agent='' @ ra_id agent @ '' version='' @ ra_version agent @ '' platform='' @ platform
                       @ '' executable='' @ path_display (cb_executable_path cached)
      | Inl error \<Rightarrow> ''FAILED agent='' @ ra_id agent @ '' version='' @ ra_version agent @ '' platform='' @ platform
                      @ '' error='' @ error_chain error)"

section \<open>Appending and truncating\<close>

definition install_log_lock_path :: "path \<Rightarrow> path" where
  "install_log_lock_path p =
     butlast p @ [(case file_name p of None \<Rightarrow> ''install.log'' | Some n \<Rightarrow> n) @ ''.lock'']"

text \<open>\<open>Path::with_extension\<close>: what stands before the last dot, unless that dot is the first character.\<close>

definition with_extension :: "path \<Rightarrow> string \<Rightarrow> path" where
  "with_extension p extension =
     (case file_name p of
        None \<Rightarrow> p
      | Some n \<Rightarrow>
          let stem = (case rfind ''.'' n of None \<Rightarrow> n | Some i \<Rightarrow> if i = 0 then n else take i n)
          in butlast p @ [stem @ ''.'' @ extension])"

definition drop_partial_line :: "string \<Rightarrow> string" where
  "drop_partial_line kept =
     (if CHR 0x0A \<in> set kept then tl (dropWhile (\<lambda>c. c \<noteq> CHR 0x0A) kept) else kept)"

definition truncation_notice :: string where
  "truncation_notice =
     ''[install log truncated; keeping the last '' @ show_u64 INSTALL_LOG_TAIL_BYTES @ '' bytes]'' @ nl"

definition truncate_install_log :: "path \<Rightarrow> (world, unit) io" where
  "truncate_install_log p =
     io_then (sys_io (sys_read p)) (\<lambda>bytes.
     let kept = drop_partial_line (take_last (unat INSTALL_LOG_TAIL_BYTES) bytes);
         temp_path = with_extension p ''log.tmp''
     in io_then (sys_io (sys_write temp_path (truncation_notice @ kept))) (\<lambda>_.
          sys_io (sys_rename temp_path p)))"

text \<open>\<open>File::lock\<close>, and opening a file that has to be there.\<close>

definition lock_exclusive :: "lock_service \<Rightarrow> path \<Rightarrow> (world, unit) io" where
  "lock_exclusive locks p w =
     ((case lock_answer locks Write p (w_calls w) of Inl e \<Rightarrow> Inl [io_text e] | Inr _ \<Rightarrow> Inr ()), w)"

definition sys_open :: "path \<Rightarrow> unit sys" where
  "sys_open p = reading (\<lambda>fs. case lookup fs p of
     None \<Rightarrow> Inl not_found | Some DirNode \<Rightarrow> Inl (io_other ''Is a directory (os error 21)'') | Some _ \<Rightarrow> Inr ())"

definition node_len :: "node \<Rightarrow> u64" where
  "node_len n = (case n of FileNode b _ \<Rightarrow> of_nat (length b) | _ \<Rightarrow> 0)"

definition append_install_log_inner :: "lock_service \<Rightarrow> path \<Rightarrow> string \<Rightarrow> (world, unit) io" where
  "append_install_log_inner locks p line =
     io_then (if p = [] then io_return () else sys_io (sys_create_dir_all (butlast p))) (\<lambda>_.
     io_then (sys_io (sys_open_create (install_log_lock_path p))) (\<lambda>_.
     io_then (lock_exclusive locks (install_log_lock_path p)) (\<lambda>_.
     io_then (sys_io (sys_open_create p)) (\<lambda>_.
     io_then (sys_io (sys_metadata p)) (\<lambda>n.
     io_then (if node_len n + of_nat (length line) > INSTALL_LOG_MAX_BYTES
              then io_then (truncate_install_log p) (\<lambda>_. sys_io (sys_open p))
              else io_return ()) (\<lambda>_.
       sys_io (sys_append p line)))))))"

text \<open>The error goes to the standard error stream, if there is one.\<close>

definition append_install_log :: "lock_service \<Rightarrow> path \<Rightarrow> string \<Rightarrow> world \<Rightarrow> string list \<times> world" where
  "append_install_log locks p line w =
     (case append_install_log_inner locks p line w of
        (Inr _, w') \<Rightarrow> ([], w')
      | (Inl e, w') \<Rightarrow> ([''failed to append to agent install log '' @ path_display p @ '': '' @ error_to_string e], w'))"

definition record_install_log_in ::
    "lock_service \<Rightarrow> utc_time \<Rightarrow> path \<Rightarrow> RegistryAgent \<Rightarrow> Platform \<Rightarrow> 'l CachedBinary result
     \<Rightarrow> world \<Rightarrow> string list \<times> world" where
  "record_install_log_in locks now root_dir agent platform result =
     append_install_log locks (root_dir @ [INSTALL_LOG_FILE_NAME])
       (''['' @ utc_timestamp now @ ''] '' @ install_outcome agent platform result @ nl)"

definition record_install_log ::
    "lock_service \<Rightarrow> utc_time \<Rightarrow> path option \<Rightarrow> RegistryAgent \<Rightarrow> Platform \<Rightarrow> 'l CachedBinary result
     \<Rightarrow> world \<Rightarrow> string list \<times> world" where
  "record_install_log locks now cache_dir agent platform result w =
     (case cache_root_dir cache_dir of
        Inr root_dir \<Rightarrow> record_install_log_in locks now root_dir agent platform result w
      | Inl _ \<Rightarrow> ([], w))"

section \<open>What an append does to the log\<close>

definition log_text :: "files \<Rightarrow> path \<Rightarrow> string" where
  "log_text fs p = (case lookup fs p of Some (FileNode b _) \<Rightarrow> b | _ \<Rightarrow> [])"

text \<open>The log is a regular file, or missing, in a directory that is reached without links.\<close>

definition log_ready :: "path \<Rightarrow> files \<Rightarrow> bool" where
  "log_ready p fs \<longleftrightarrow> p \<noteq> [] \<and> list_all plain_name p \<and> anchored fs (butlast p)
     \<and> (case lookup fs p of None \<Rightarrow> True | Some n \<Rightarrow> is_FileNode n)"

definition log_kept :: "path \<Rightarrow> world \<Rightarrow> world \<Rightarrow> bool" where
  "log_kept p w w' \<longleftrightarrow>
     (log_ready p (w_files w) \<longrightarrow> log_ready p (w_files w') \<and> log_text (w_files w') p = log_text (w_files w) p
        \<and> (lookup (w_files w) p \<noteq> None \<longrightarrow> lookup (w_files w') p = lookup (w_files w) p))"

lemma log_kept_refl [simp]: "reflp (log_kept p)"
  and log_kept_trans [simp]: "transp (log_kept p)"
  by (auto simp: log_kept_def reflp_def transp_def)

lemma log_kept_files: "w_files w' = w_files w \<Longrightarrow> log_kept p w w'"
  by (simp add: log_kept_def)

lemma log_kept_reads: "reads_only m \<Longrightarrow> io_keeps (log_kept p) m"
  by (auto simp: io_keeps_def same_files_def log_kept_files)

lemma log_ready_put:
  assumes "log_ready p fs" "q \<noteq> []" "\<not> prefix q (butlast p)" "q \<noteq> p \<or> is_FileNode n"
  shows "log_ready p (put_node q n fs)"
proof -
  have "take k (butlast p) \<noteq> q" for k using assms(3) take_is_prefix by metis
  with assms show ?thesis by (auto simp: log_ready_def anchored_def lookup_put_node)
qed

lemma log_kept_put:
  assumes "q \<noteq> []" "\<not> prefix q (butlast p)" "q \<noteq> p" "w_files w' \<in> {w_files w, put_node q n (w_files w)}"
  shows "log_kept p w w'"
  using assms log_ready_put[of p "w_files w" q n] by (auto simp: log_kept_def log_text_def lookup_put_node)

lemma log_kept_open_create:
  assumes "q \<noteq> []" "\<not> prefix q (butlast p)"
  shows "io_keeps (log_kept p) (sys_io (sys_open_create q))"
  using assms log_ready_put[of p _ q "FileNode [] 420"]
  by (auto simp: io_keeps_def sys_io_def sys_open_create_def syscall_def Let_def intact_def log_kept_def log_text_def
      lookup_put_node split: option.splits node.splits prod.splits)

lemma make_dirs_there: "\<forall>q \<in> set ps. lookup fs q = Some DirNode \<Longrightarrow> make_dirs ps fs = (Inr (), fs)"
  by (induction ps) auto

lemma log_kept_create_dirs: "io_keeps (log_kept p) (sys_io (sys_create_dir_all (butlast p)))"
proof -
  have "make_dirs (map (\<lambda>n. take n (butlast p)) [1..<Suc (length (butlast p))]) fs = (Inr (), fs)" if "log_ready p fs" for fs
    using that by (intro make_dirs_there) (auto simp: log_ready_def anchored_def)
  then have "log_kept p w (snd (sys_io (sys_create_dir_all (butlast p)) w))" for w
    by (cases "log_ready p (w_files w)")
      (auto simp: log_kept_def sys_io_def sys_create_dir_all_def syscall_def Let_def intact_def split: option.splits)
  then show ?thesis by (simp add: io_keeps_def)
qed

lemma not_prefix_longer: "length q > length p \<Longrightarrow> \<not> prefix q p"
  by (auto dest: prefix_length_le)

lemma log_ready_stat:
  assumes "log_ready p fs"
  shows "stat fs p = lookup fs p"
proof -
  obtain d n where p: "p = d @ [n]" using assms by (metis log_ready_def rev_exhaust)
  have "resolve fs 40 [] (d @ [n]) = resolve fs 40 d [n]"
    using assms p by (intro resolve_below) (auto simp: log_ready_def)
  then show ?thesis
    using assms p by (auto simp: stat_def log_ready_def plain_name_def split: option.splits node.splits)
qed

text \<open>The part that is kept starts at the beginning of a line, if it has more than one line.\<close>

definition whole_lines :: "string \<Rightarrow> string \<Rightarrow> bool" where
  "whole_lines old kept \<longleftrightarrow>
     (\<exists>dropped. old = dropped @ kept \<and> (CHR 0x0A \<in> set kept \<longrightarrow> last dropped = CHR 0x0A))"

lemma drop_partial_line:
  "suffix s old \<Longrightarrow> whole_lines old (drop_partial_line s)" "length (drop_partial_line s) \<le> length s"
proof -
  have split: "s = takeWhile (\<lambda>c. c \<noteq> CHR 0x0A) s @ CHR 0x0A # tl (dropWhile (\<lambda>c. c \<noteq> CHR 0x0A) s)"
    if "CHR 0x0A \<in> set s"
  proof -
    have ne: "dropWhile (\<lambda>c. c \<noteq> CHR 0x0A) s \<noteq> []" using that by simp
    have "hd (dropWhile (\<lambda>c. c \<noteq> CHR 0x0A) s) = CHR 0x0A" using hd_dropWhile[OF ne] by simp
    with ne show ?thesis by (metis list.collapse takeWhile_dropWhile_id)
  qed
  show "whole_lines old (drop_partial_line s)" if "suffix s old"
  proof (cases "CHR 0x0A \<in> set s")
    case True
    from that obtain before where "old = before @ s" by (auto simp: suffix_def)
    then have "old = (before @ takeWhile (\<lambda>c. c \<noteq> CHR 0x0A) s @ [CHR 0x0A]) @ drop_partial_line s"
      using split[OF True] True by (simp add: drop_partial_line_def)
    then show ?thesis
      unfolding whole_lines_def
      by (intro exI[of _ "before @ takeWhile (\<lambda>c. c \<noteq> CHR 0x0A) s @ [CHR 0x0A]"]) simp
  next
    case False
    with that show ?thesis by (auto simp: whole_lines_def drop_partial_line_def suffix_def)
  qed
  show "length (drop_partial_line s) \<le> length s"
    using length_dropWhile_le[of "\<lambda>c. c \<noteq> CHR 0x0A" s] by (auto simp: drop_partial_line_def simp del: length_dropWhile_le)
qed

lemma log_paths:
  "with_extension (d @ [INSTALL_LOG_FILE_NAME]) ''log.tmp'' = d @ [''agent-install.log.tmp'']"
  "install_log_lock_path (d @ [INSTALL_LOG_FILE_NAME]) = d @ [''agent-install.log.lock'']"
proof -
  have "rfind ''.'' INSTALL_LOG_FILE_NAME = Some 13" by code_simp
  then show "with_extension (d @ [INSTALL_LOG_FILE_NAME]) ''log.tmp'' = d @ [''agent-install.log.tmp'']"
    by (simp add: with_extension_def file_name_def INSTALL_LOG_FILE_NAME_def)
qed (simp add: install_log_lock_path_def file_name_def INSTALL_LOG_FILE_NAME_def)

definition kept_tail :: "string \<Rightarrow> string" where
  "kept_tail old = drop_partial_line (take_last (unat INSTALL_LOG_TAIL_BYTES) old)"

lemma log_kept_write:
  assumes "length p \<le> length q" "q \<noteq> p" "q \<noteq> []"
  shows "io_keeps (log_kept p) (sys_io (sys_write q bytes))"
proof -
  have "w_files (snd (sys_write q bytes w)) = w_files w \<or> (\<exists>n. w_files (snd (sys_write q bytes w)) = put_node q n (w_files w))" for w
    by (auto simp: sys_write_def syscall_def Let_def split: option.splits node.splits)
  moreover have "\<not> prefix q (butlast p)"
    using assms not_prefix_longer[of "butlast p" q] by (cases p) auto
  ultimately have "log_kept p w (snd (sys_write q bytes w))" for w
    using log_kept_put[OF assms(3) _ assms(2)] by (metis insert_iff)
  then show ?thesis by (simp add: io_keeps_def sys_io_def split_beta)
qed

lemma rename_onto_log:
  assumes ready: "log_ready p (w_files w)" and p: "p = d @ [x]" "q = d @ [y]" "x \<noteq> y"
    and there: "lookup (w_files w) q = Some (FileNode b m)"
    and run: "sys_rename q p w = (r, w')"
  shows "log_ready p (w_files w')" "is_ok r \<Longrightarrow> log_text (w_files w') p = b"
    "\<not> is_ok r \<Longrightarrow> log_text (w_files w') p = log_text (w_files w) p"
proof -
  have ap: "apart q p" using p by (auto simp: apart_def)
  have moved: "lookup (move_tree q p (w_files w)) z =
       (if prefix p z then lookup (w_files w) (q @ drop (length p) z)
        else if prefix q z then None else lookup (w_files w) z)" for z
    using ap by (intro disk.look_move) (auto simp: apart_def)
  have dirs: "\<not> prefix p (take k d)" "\<not> prefix q (take k d)" for k
    using p by (auto dest: prefix_length_le)
  have "log_ready p (move_tree q p (w_files w))"
    using ready there dirs p by (auto simp: log_ready_def anchored_def moved[unfolded p])
  moreover have "log_text (move_tree q p (w_files w)) p = b"
    using there by (simp add: log_text_def moved)
  ultimately show "log_ready p (w_files w')" "is_ok r \<Longrightarrow> log_text (w_files w') p = b"
    "\<not> is_ok r \<Longrightarrow> log_text (w_files w') p = log_text (w_files w) p"
    using ready by (cases rule: rename_cases[OF ap run]; simp)+
qed

lemma truncate_outcome:
  assumes ready: "log_ready p (w_files w)" and p: "p = d @ [INSTALL_LOG_FILE_NAME]"
    and run: "truncate_install_log p w = (r, w')"
  shows "log_ready p (w_files w')"
    "is_ok r \<Longrightarrow> log_text (w_files w') p = truncation_notice @ kept_tail (log_text (w_files w) p)"
    "\<not> is_ok r \<Longrightarrow> log_text (w_files w') p = log_text (w_files w) p"
proof -
  let ?goal = "log_ready p (w_files w')
    \<and> log_text (w_files w') p = (if is_ok r then truncation_notice @ kept_tail (log_text (w_files w) p)
         else log_text (w_files w) p)"
  let ?q = "d @ [''agent-install.log.tmp'']"
  have tmp: "with_extension p ''log.tmp'' = ?q" using log_paths p by simp
  have ?goal
    using run unfolding truncate_install_log_def Let_def tmp
  proof (cases rule: io_thenE)
    case (err e)
    then have "w_files w' = w_files w"
      using reads_only_files[of "sys_io (sys_read p)" w "Inl e" w'] by (simp add: sys_read_def keeps_intros)
    with err ready show ?goal by simp
  next
    case (ok bytes w1)
    have w1: "w_files w1 = w_files w" and bytes: "\<exists>m. stat (w_files w) p = Some (FileNode bytes m)"
      using ok(1) by (auto simp: sys_read_def dest!: sys_io_reading_Inr split: option.splits node.splits)
    have was: "log_text (w_files w) p = bytes"
      using bytes log_ready_stat[OF ready] by (auto simp: log_text_def)
    note step = ok(2)[folded kept_tail_def]
    have keep: "io_keeps (log_kept p) (sys_io (sys_write ?q (truncation_notice @ kept_tail bytes)))"
      using p by (intro log_kept_write) (auto simp: INSTALL_LOG_FILE_NAME_def)
    from step show ?goal
    proof (cases rule: io_thenE)
      case (err e)
      with io_keepsD[OF keep err(1)] ready w1 show ?goal by (simp add: log_kept_def)
    next
      case (ok u w2)
      have kept: "log_ready p (w_files w2)" "log_text (w_files w2) p = bytes"
        using io_keepsD[OF keep ok(1)] ready w1 was by (auto simp: log_kept_def)
      have there: "\<exists>m. lookup (w_files w2) ?q = Some (FileNode (truncation_notice @ kept_tail bytes) m)"
        using ok(1) by (auto simp: sys_io_def sys_write_def syscall_def Let_def lookup_put_node
            split: option.splits node.splits if_splits)
      from ok(2) obtain r' where ren: "sys_rename ?q p w2 = (r', w')" "is_ok r = is_ok r'"
        by (auto simp: sys_io_def is_ok_iff split: prod.splits)
      from there obtain m where there: "lookup (w_files w2) ?q = Some (FileNode (truncation_notice @ kept_tail bytes) m)" ..
      note renamed = rename_onto_log[OF kept(1) p refl _ there ren(1)]
      show ?goal using renamed ren(2) kept(2) was by (auto simp: INSTALL_LOG_FILE_NAME_def)
    qed
  qed
  then show "log_ready p (w_files w')"
    "is_ok r \<Longrightarrow> log_text (w_files w') p = truncation_notice @ kept_tail (log_text (w_files w) p)"
    "\<not> is_ok r \<Longrightarrow> log_text (w_files w') p = log_text (w_files w) p" by simp_all
qed

lemma log_kept_lock: "io_keeps (log_kept p) (lock_exclusive locks q)"
  by (simp add: io_keeps_def lock_exclusive_def log_kept_files)

lemma append_text:
  assumes "log_ready p (w_files w)" "sys_io (sys_append p line) w = (r, w')"
  shows "log_ready p (w_files w') \<and> (\<exists>k. log_text (w_files w') p = log_text (w_files w) p @ take k line)"
proof -
  have app: "log_ready p (append_to p bytes fs)
      \<and> log_text (append_to p bytes fs) p = log_text fs p @ (if lookup fs p = None then [] else bytes)"
    if "log_ready p fs" for bytes fs
  proof -
    have "p \<noteq> []" using that by (simp add: log_ready_def)
    moreover then have "\<not> prefix p (butlast p)" by (cases p rule: rev_cases) (auto dest: prefix_length_le)
    ultimately show ?thesis
      using that log_ready_put[of p fs p]
      by (auto simp: append_to_def log_text_def lookup_put_node log_ready_def split: option.split node.split)
  qed
  have "\<exists>bytes. (\<exists>k. bytes = take k line) \<and> w_files w' = append_to p bytes (w_files w)"
    using assms(2) by (auto simp: sys_io_def sys_append_def syscall_def Let_def split: option.splits) 
      (metis order_refl take_all)
  then obtain k where "w_files w' = append_to p (take k line) (w_files w)" by blast
  with app[OF assms(1), of "take k line"] show ?thesis
    by (cases "lookup (w_files w) p") (auto intro: exI[of _ 0] exI[of _ k])
qed

text \<open>A log after one append: the old text, or its last whole lines, and a part of the new line.\<close>

definition appended :: "string \<Rightarrow> string \<Rightarrow> string \<Rightarrow> bool" where
  "appended line old new \<longleftrightarrow>
     (\<exists>k. new = old @ take k line
        \<and> (of_nat (length old) + of_nat (length line) \<le> INSTALL_LOG_MAX_BYTES \<or> k = 0))
     \<or> (\<exists>kept k. new = truncation_notice @ kept @ take k line
        \<and> whole_lines old kept \<and> length kept \<le> unat INSTALL_LOG_TAIL_BYTES)"

lemma append_step:
  assumes ready: "log_ready p (w_files w)" and run: "io_then m f w = (r, w')" and m: "io_keeps (log_kept p) m"
    and cont: "\<And>x w1. m w = (Inr x, w1) \<Longrightarrow> log_ready p (w_files w1) \<Longrightarrow>
      log_text (w_files w1) p = log_text (w_files w) p \<Longrightarrow> f x w1 = (r, w') \<Longrightarrow>
      log_ready p (w_files w') \<and> appended line (log_text (w_files w1) p) (log_text (w_files w') p)"
  shows "log_ready p (w_files w') \<and> appended line (log_text (w_files w) p) (log_text (w_files w') p)"
  using run
proof (cases rule: io_thenE)
  case (err e)
  then have "log_ready p (w_files w')" "log_text (w_files w') p = log_text (w_files w) p"
    using io_keepsD[OF m err(1)] ready by (simp_all add: log_kept_def)
  moreover have "appended line old old" for old
    unfolding appended_def by (rule disjI1, rule exI[of _ 0]) simp
  ultimately show ?thesis by simp
next
  case (ok x w1)
  have "log_ready p (w_files w1)" "log_text (w_files w1) p = log_text (w_files w) p"
    using io_keepsD[OF m ok(1)] ready by (simp_all add: log_kept_def)
  with cont[OF ok(1) _ _ ok(2)] show ?thesis by simp
qed

lemma kept_tail_lines: "whole_lines old (kept_tail old)" "length (kept_tail old) \<le> unat INSTALL_LOG_TAIL_BYTES"
  unfolding kept_tail_def
  using drop_partial_line(1)[OF suffix_take_last[of "unat INSTALL_LOG_TAIL_BYTES" old]]
    drop_partial_line(2)[where s = "take_last (unat INSTALL_LOG_TAIL_BYTES) old"] by auto

lemma append_last:
  assumes ready: "log_ready p (w_files w)" and p: "p = d @ [INSTALL_LOG_FILE_NAME]"
    and len: "len = of_nat (length (log_text (w_files w) p))"
    and run: "io_then (if len + of_nat (length line) > INSTALL_LOG_MAX_BYTES
              then io_then (truncate_install_log p) (\<lambda>_. sys_io (sys_open p))
              else io_return ()) (\<lambda>_. sys_io (sys_append p line)) w = (r, w')"
  shows "log_ready p (w_files w') \<and> appended line (log_text (w_files w) p) (log_text (w_files w') p)"
proof (cases "len + of_nat (length line) > INSTALL_LOG_MAX_BYTES")
  case False
  with run have "sys_io (sys_append p line) w = (r, w')" by (simp add: io_then_def)
  from append_text[OF ready this] False show ?thesis
    unfolding appended_def len by (auto simp: not_less)
next
  case True
  have open_it: "w_files w2 = w_files w1" if "sys_io (sys_open p) w1 = (x, w2)" for x w1 w2
    using reads_only_files[where m = "sys_io (sys_open p)", OF _ that] by (simp add: sys_open_def keeps_intros)
  define old where "old = log_text (w_files w) p"
  have cut: "appended line old (truncation_notice @ kept_tail old @ take k line)" for k
    unfolding appended_def using kept_tail_lines by blast
  have none: "appended line old old" unfolding appended_def by (rule disjI1, rule exI[of _ 0]) simp
  from run True have "io_then (io_then (truncate_install_log p) (\<lambda>_. sys_io (sys_open p)))
      (\<lambda>_. sys_io (sys_append p line)) w = (r, w')" by simp
  then show ?thesis
  proof (cases rule: io_thenE)
    case (err e)
    from err(1) show ?thesis
    proof (cases rule: io_thenE)
      case (err e')
      then show ?thesis using truncate_outcome[OF ready p err(1)] none by (simp add: old_def)
    next
      case (ok x w1)
      then show ?thesis
        using truncate_outcome[OF ready p ok(1)] open_it[OF ok(2)] cut[of 0] by (simp add: old_def)
    qed
  next
    case (ok x w1)
    from ok(1) obtain y w2 where 1: "truncate_install_log p w = (Inr y, w2)" "sys_io (sys_open p) w2 = (Inr x, w1)"
      by (auto simp: io_then_eq_Inr)
    note t = truncate_outcome[OF ready p 1(1)] and o1 = open_it[OF 1(2)]
    have "log_ready p (w_files w1)" using t(1) o1 by simp
    from append_text[OF this ok(2)] t(2) o1 cut show ?thesis by (auto simp: old_def)
  qed
qed

lemma append_outcome:
  assumes ready: "log_ready p (w_files w)" and p: "p = d @ [INSTALL_LOG_FILE_NAME]"
    and run: "append_install_log_inner locks p line w = (r, w')"
  shows "log_ready p (w_files w') \<and> appended line (log_text (w_files w) p) (log_text (w_files w') p)"
proof -
  have lock: "install_log_lock_path p = d @ [''agent-install.log.lock'']" using log_paths p by simp
  have opens: "io_keeps (log_kept p) (sys_io (sys_open_create (install_log_lock_path p)))"
    "io_keeps (log_kept p) (sys_io (sys_open_create p))"
    using p not_prefix_longer[of "d" "d @ [x]" for x] lock by (auto intro!: log_kept_open_create)
  have dirs: "io_keeps (log_kept p) (if p = [] then io_return () else sys_io (sys_create_dir_all (butlast p)))"
    using log_kept_create_dirs[of p] p by (cases "p = []") (simp_all del: butlast_snoc)
  have meta: "io_keeps (log_kept p) (sys_io (sys_metadata p))"
    by (intro log_kept_reads) (simp add: sys_metadata_def keeps_intros)
  show ?thesis
  proof (rule append_step[OF ready run[unfolded append_install_log_inner_def] dirs])
    fix w1 assume 1: "log_ready p (w_files w1)"
      "io_then (sys_io (sys_open_create (install_log_lock_path p))) (\<lambda>_.
       io_then (lock_exclusive locks (install_log_lock_path p)) (\<lambda>_.
       io_then (sys_io (sys_open_create p)) (\<lambda>_.
       io_then (sys_io (sys_metadata p)) (\<lambda>n.
       io_then (if node_len n + of_nat (length line) > INSTALL_LOG_MAX_BYTES
              then io_then (truncate_install_log p) (\<lambda>_. sys_io (sys_open p))
              else io_return ()) (\<lambda>_.
       sys_io (sys_append p line)))))) w1 = (r, w')"
    show "log_ready p (w_files w') \<and> appended line (log_text (w_files w1) p) (log_text (w_files w') p)"
    proof (rule append_step[OF 1 opens(1)], erule append_step, assumption, rule log_kept_lock,
        erule append_step, assumption, rule opens(2), erule append_step, assumption, rule meta)
      fix n w2 w3 assume n: "sys_io (sys_metadata p) w2 = (Inr n, w3)"
        and ready3: "log_ready p (w_files w3)"
        and rest: "io_then (if node_len n + of_nat (length line) > INSTALL_LOG_MAX_BYTES
              then io_then (truncate_install_log p) (\<lambda>_. sys_io (sys_open p))
              else io_return ()) (\<lambda>_. sys_io (sys_append p line)) w3 = (r, w')"
      have "w_files w3 = w_files w2"
        using reads_only_files[where m = "sys_io (sys_metadata p)", OF _ n] by (simp add: sys_metadata_def keeps_intros)
      then have "lookup (w_files w3) p = Some n" using sys_metadata_Inr[OF n] log_ready_stat[OF ready3] by simp
      then have "node_len n = of_nat (length (log_text (w_files w3) p))"
        using ready3 by (auto simp: node_len_def log_text_def log_ready_def split: node.splits)
      from append_last[OF ready3 p this rest]
      show "log_ready p (w_files w') \<and> appended line (log_text (w_files w3) p) (log_text (w_files w') p)" .
    qed
  qed
qed

definition append_all :: "path \<Rightarrow> (lock_service \<times> string) list \<Rightarrow> world \<Rightarrow> world" where
  "append_all p entries w = foldl (\<lambda>w (locks, line). snd (append_install_log locks p line w)) w entries"

lemma appended_bound:
  assumes "appended line old new" "length old \<le> unat INSTALL_LOG_MAX_BYTES"
    and "length truncation_notice + unat INSTALL_LOG_TAIL_BYTES + length line \<le> unat INSTALL_LOG_MAX_BYTES"
  shows "length new \<le> unat INSTALL_LOG_MAX_BYTES"
proof -
  have cap: "unat INSTALL_LOG_MAX_BYTES = 1048576" by (simp add: INSTALL_LOG_MAX_BYTES_def)
  have "unat (of_nat (length old) + of_nat (length line) :: u64) = length old + length line"
    using assms(2,3) cap by (simp add: unat_plus_if' unat_of_nat_u64)
  then have "length old + length line \<le> unat INSTALL_LOG_MAX_BYTES"
    if "of_nat (length old) + of_nat (length line) \<le> INSTALL_LOG_MAX_BYTES"
    using that by (simp add: word_le_nat_alt)
  with assms show ?thesis by (auto simp: appended_def)
qed

text \<open>
  Property C35: whatever system calls and locks fail, and however many lines are recorded, the
  install log never grows beyond \<open>INSTALL_LOG_MAX_BYTES\<close>, provided each line fits beside the
  tail that a truncation keeps.
\<close>

theorem install_log_stays_bounded:
  assumes "log_ready (d @ [INSTALL_LOG_FILE_NAME]) (w_files w)"
    and "length (log_text (w_files w) (d @ [INSTALL_LOG_FILE_NAME])) \<le> unat INSTALL_LOG_MAX_BYTES"
    and "\<forall>(locks, line) \<in> set entries.
      length truncation_notice + unat INSTALL_LOG_TAIL_BYTES + length line \<le> unat INSTALL_LOG_MAX_BYTES"
  shows "length (log_text (w_files (append_all (d @ [INSTALL_LOG_FILE_NAME]) entries w)) (d @ [INSTALL_LOG_FILE_NAME]))
     \<le> unat INSTALL_LOG_MAX_BYTES"
  using assms
proof (induction entries arbitrary: w)
  case (Cons entry entries)
  let ?p = "d @ [INSTALL_LOG_FILE_NAME]"
  obtain locks line where entry: "entry = (locks, line)" by force
  obtain r w' where run: "append_install_log_inner locks ?p line w = (r, w')" by fastforce
  note one = append_outcome[OF Cons.prems(1) refl run]
  have "length (log_text (w_files w') ?p) \<le> unat INSTALL_LOG_MAX_BYTES"
    using appended_bound[OF conjunct2[OF one] Cons.prems(2)] Cons.prems(3) entry by simp
  moreover have "snd (append_install_log locks ?p line w) = w'"
    using run by (simp add: append_install_log_def split: sum.split)
  ultimately show ?case
    using Cons.IH[of w'] Cons.prems(3) conjunct1[OF one] entry by (simp add: append_all_def)
qed (simp add: append_all_def)

theorem install_log_stays_bounded_witness:
  "length (log_text (w_files (append_all [INSTALL_LOG_FILE_NAME] [(free_locks, ''ready'' @ nl), (free_locks, ''FAILED'' @ nl)]
      (failing_world [] 7))) [INSTALL_LOG_FILE_NAME]) \<le> unat INSTALL_LOG_MAX_BYTES"
proof -
  have "length (show_u64 INSTALL_LOG_TAIL_BYTES) = 6"
    by (simp add: show_u64_def INSTALL_LOG_TAIL_BYTES_def show_nat.simps)
  then have "length truncation_notice = 55" by (simp add: truncation_notice_def nl_def)
  then show ?thesis
    by (intro install_log_stays_bounded[of "[]", simplified])
      (auto simp: log_ready_def failing_world_def anchored_def lookup_def log_text_def nl_def
        INSTALL_LOG_FILE_NAME_def plain_name_def INSTALL_LOG_MAX_BYTES_def INSTALL_LOG_TAIL_BYTES_def)
qed

end
