(* ===== verification/Download.thy ===== *)
theory Download
  imports Payload
begin

text \<open>
  The download of an archive (\<open>src/src/installer/binary/download.rs\<close>). The URL parser, the
  HTTP client and SHA-256 are parameters; a response is its status error, its declared length
  and the chunks of its body, each of which may be an error.
\<close>

record http_response =
  rs_status_error :: "string option"
  rs_content_length :: "u64 option"
  rs_chunks :: "(string + string) list"

record web =
  parse_url :: "string \<Rightarrow> string + string list option"
  http_get :: "string \<Rightarrow> string + http_response"
  build_client :: "string + unit"

section \<open>Checksums in hexadecimal\<close>

definition hex_value :: "char \<Rightarrow> nat" where
  "hex_value c =
     (if is_ascii_digit c then code c - 48
      else if 97 \<le> code c then code c - 87 else code c - 55)"

text \<open>\<open>u8::from_str_radix\<close> on two hexadecimal digits.\<close>

fun hex_bytes :: "string \<Rightarrow> string" where
  "hex_bytes (a # b # rest) = char_of (16 * hex_value a + hex_value b) # hex_bytes rest"
| "hex_bytes _ = []"

definition parse_sha256 :: "string \<Rightarrow> string result" where
  "parse_sha256 checksum =
     (if length checksum \<noteq> 64 \<or> \<not> list_all is_ascii_hexdigit checksum
      then bail (''invalid sha256 checksum '' @ quoted checksum @ '': expected 64 hexadecimal characters'')
      else Inr (hex_bytes checksum))"

section \<open>The download\<close>

definition saturating_add :: "u64 \<Rightarrow> u64 \<Rightarrow> u64" where
  "saturating_add a b = (case checked_add a b of Some c \<Rightarrow> c | None \<Rightarrow> - 1)"

definition archive_name :: "string list option \<Rightarrow> string" where
  "archive_name segments =
     (case segments of
        Some (s # ss) \<Rightarrow> if last (s # ss) = [] then ''download.bin'' else last (s # ss)
      | _ \<Rightarrow> ''download.bin'')"

definition over_limit :: "ArchiveLimits \<Rightarrow> error" where
  "over_limit limits = [''archive exceeds download limit of '' @ show_u64 (max_download_bytes limits) @ '' bytes'']"

text \<open>The loop over the chunks; it returns what was hashed.\<close>

fun receive_chunks ::
    "ArchiveLimits \<Rightarrow> string \<Rightarrow> path \<Rightarrow> (string + string) list \<Rightarrow> u64 \<Rightarrow> string \<Rightarrow> (world, string) io" where
  "receive_chunks limits url destination [] received seen = io_return seen"
| "receive_chunks limits url destination (chunk # chunks) received seen =
     io_then (io_result (with_context (''failed to read archive response from '' @ url) (map_err (\<lambda>e. [e]) chunk)))
       (\<lambda>bytes.
         let received = saturating_add received (of_nat (length bytes)) in
         if received > max_download_bytes limits then io_result (Inl (over_limit limits))
         else
           io_then (sys_context (''failed to write downloaded archive to '' @ path_display destination)
                      (sys_append destination bytes)) (\<lambda>_.
             receive_chunks limits url destination chunks received (seen @ bytes)))"

definition store_response ::
    "(string \<Rightarrow> string) \<Rightarrow> ArchiveLimits \<Rightarrow> string \<Rightarrow> string \<Rightarrow> path \<Rightarrow> (string + string) list \<Rightarrow> (world, unit) io" where
  "store_response sha256 limits url expected_digest destination chunks =
     io_then (sys_context (''failed to create '' @ path_display destination) (sys_create_file destination)) (\<lambda>_.
     io_then (receive_chunks limits url destination chunks 0 []) (\<lambda>seen.
     io_then (sys_io (reading (\<lambda>_. Inr ()))) (\<lambda>_.
       if sha256 seen \<noteq> expected_digest
       then io_result (bail (''sha256 checksum mismatch: expected '' @ hex_encode expected_digest
                             @ '', got '' @ hex_encode (sha256 seen)))
       else io_return ())))"

definition download_archive_with_limits ::
    "web \<Rightarrow> (string \<Rightarrow> string) \<Rightarrow> BinaryTarget \<Rightarrow> path \<Rightarrow> ArchiveLimits \<Rightarrow> (world, path) io" where
  "download_archive_with_limits web sha256 target temp_dir limits =
     io_then (io_result (ok_or (bt_sha256 target) [''binary target is missing required sha256 checksum''])) (\<lambda>d.
     io_then (io_result (parse_sha256 d)) (\<lambda>expected_digest.
     io_then (io_result (with_context (''invalid archive URL: '' @ bt_archive target)
                (map_err (\<lambda>e. [e]) (parse_url web (bt_archive target))))) (\<lambda>segments.
     let name = archive_name segments; destination = temp_dir @ [name] in
     io_then (io_result (with_context (''unsafe archive filename in URL: '' @ name)
                (validate_archive_component name))) (\<lambda>_.
     io_then (io_result (with_context ''failed to build archive HTTP client'' (map_err (\<lambda>e. [e]) (build_client web)))) (\<lambda>_.
     io_then (io_result (with_context (''failed to download archive from '' @ bt_archive target)
                (map_err (\<lambda>e. [e]) (http_get web (bt_archive target))))) (\<lambda>response.
     io_then (io_result (with_context (''failed to download archive from '' @ bt_archive target)
                (case rs_status_error response of Some e \<Rightarrow> Inl [e] | None \<Rightarrow> Inr ()))) (\<lambda>_.
       if (case rs_content_length response of Some n \<Rightarrow> n > max_download_bytes limits | None \<Rightarrow> False)
       then io_result (Inl (over_limit limits))
       else
         io_try (store_response sha256 limits (bt_archive target) expected_digest destination (rs_chunks response))
           (\<lambda>result w. case result of
              Inl e \<Rightarrow> (Inl e, snd (sys_remove_file destination w))
            | Inr _ \<Rightarrow> (Inr destination, w)))))))))"

definition download_archive ::
    "web \<Rightarrow> (string \<Rightarrow> string) \<Rightarrow> BinaryTarget \<Rightarrow> path \<Rightarrow> (world, path) io" where
  "download_archive web sha256 target temp_dir =
     download_archive_with_limits web sha256 target temp_dir ArchiveLimits_default"

section \<open>Properties\<close>

lemma hexdigit_value:
  "is_ascii_hexdigit c \<Longrightarrow> hex_value c < 16 \<and> hex_digit (hex_value c) = to_ascii_lowercase_char c"
proof -
  assume c: "is_ascii_hexdigit c"
  consider "48 \<le> code c" "code c \<le> 57" | "65 \<le> code c" "code c \<le> 70" | "97 \<le> code c" "code c \<le> 102"
    using c by (auto simp: is_ascii_hexdigit_def is_ascii_digit_def)
  then show "hex_value c < 16 \<and> hex_digit (hex_value c) = to_ascii_lowercase_char c"
    by cases (auto simp: hex_value_def is_ascii_digit_def hex_digit_def to_ascii_lowercase_char_def code_def)
qed

lemma hex_bytes_encode:
  "even (length s) \<Longrightarrow> list_all is_ascii_hexdigit s \<Longrightarrow>
     hex_encode (hex_bytes s) = to_ascii_lowercase s \<and> 2 * length (hex_bytes s) = length s"
proof (induction s rule: hex_bytes.induct)
  case (1 a b rest)
  then have v: "hex_value a < 16" "hex_value b < 16" using hexdigit_value by auto
  define n where "n = 16 * hex_value a + hex_value b"
  have "code (char_of n) = n" using v unfolding n_def by (intro code_char_of) linarith
  moreover have "n div 16 = hex_value a" "n mod 16 = hex_value b" using v by (simp_all add: n_def)
  ultimately have "hex_byte (char_of n) = [to_ascii_lowercase_char a, to_ascii_lowercase_char b]"
    using 1 hexdigit_value by (simp add: hex_byte_def)
  then show ?case using 1 by (auto simp: hex_encode_def to_ascii_lowercase_def simp flip: n_def)
qed (auto simp: hex_encode_def to_ascii_lowercase_def)

text \<open>
  A declared checksum is accepted exactly when it is 64 hexadecimal digits, in upper
  or lower case; what is parsed are 32 bytes whose encoding is the checksum in lower case.
\<close>
lemma parse_sha256_round_trip:
  "case parse_sha256 checksum of
     Inr digest \<Rightarrow> length digest = 32 \<and> hex_encode digest = to_ascii_lowercase checksum
   | Inl _ \<Rightarrow> \<nexists>digest. length digest = 32 \<and> hex_encode digest = to_ascii_lowercase checksum"
proof (cases "length checksum = 64 \<and> list_all is_ascii_hexdigit checksum")
  case True
  then show ?thesis using hex_bytes_encode[of checksum] by (auto simp: parse_sha256_def)
next
  case False
  have "is_ascii_hexdigit (hex_digit n)" if "n < 16" for n
    using that by (auto simp: hex_digit_def is_ascii_hexdigit_def is_ascii_digit_def)
  moreover have "code c div 16 < 16" for c using code_less_256[of c] by (simp add: less_mult_imp_div_less)
  ultimately have hex: "list_all is_ascii_hexdigit (hex_encode bs)" for bs
    by (induction bs) (auto simp: hex_encode_def hex_byte_def)
  have lower: "is_ascii_hexdigit (to_ascii_lowercase_char c) \<Longrightarrow> is_ascii_hexdigit c" for c
    by (auto simp: to_ascii_lowercase_char_def is_ascii_hexdigit_def is_ascii_digit_def split: if_splits)
  have "\<nexists>digest. length digest = 32 \<and> hex_encode digest = to_ascii_lowercase checksum"
  proof
    assume "\<exists>digest. length digest = 32 \<and> hex_encode digest = to_ascii_lowercase checksum"
    then obtain digest where d: "length digest = 32" "hex_encode digest = to_ascii_lowercase checksum" by blast
    have "length checksum = 64" using d length_hex_encode[of digest] by simp
    moreover have "list_all is_ascii_hexdigit (to_ascii_lowercase checksum)" using hex[of digest] d(2) by simp
    then have "list_all is_ascii_hexdigit checksum"
      by (auto simp: to_ascii_lowercase_def list_all_iff dest: lower)
    ultimately show False using False by simp
  qed
  with False show ?thesis by (auto simp: parse_sha256_def bail_def)
qed

section \<open>What a successful download leaves\<close>

lemma sys_io_Inr: "sys_io f w = (Inr x, w') \<longleftrightarrow> f w = (Inr x, w')"
  by (auto simp: sys_io_def split: prod.splits)

lemma sys_context_Inr: "sys_context c f w = (Inr x, w') \<longleftrightarrow> f w = (Inr x, w')"
  by (simp add: sys_context_def sys_io_Inr)

lemma create_file_Inr:
  assumes "sys_create_file p w = (Inr x, w')" "p \<noteq> []"
  shows "\<exists>m. lookup (w_files w') p = Some (FileNode [] m)"
  using assms
  by (auto simp: sys_create_file_def syscall_def Let_def lookup_put_node split: option.splits if_splits node.splits)

lemma append_Inr:
  assumes "sys_append p bytes w = (Inr x, w')" "p \<noteq> []" "lookup (w_files w) p = Some (FileNode b m)"
  shows "lookup (w_files w') p = Some (FileNode (b @ bytes) m)"
  using assms by (auto simp: sys_append_def syscall_def Let_def append_to_def lookup_put_node split: option.splits)

lemma saturating_add_bound:
  assumes "unat a = k" "saturating_add a (of_nat n) \<le> lim" "lim \<noteq> - 1" "n < 2 ^ 64"
  shows "unat (saturating_add a (of_nat n)) = k + n"
proof (cases "checked_add a (of_nat n :: u64)")
  case None
  then have "saturating_add a (of_nat n) = - 1" by (simp add: saturating_add_def)
  with assms(2,3) show ?thesis by (metis word_order.extremum_uniqueI)
next
  case (Some c)
  then have "saturating_add a (of_nat n) = c" by (simp add: saturating_add_def)
  moreover have "unat c = unat a + unat (of_nat n :: u64)" using Some unfolding checked_add_Some by blast
  ultimately show ?thesis using assms(1,4) by (simp add: unat_of_nat_u64)
qed

lemma receive_chunks_Inr:
  assumes "destination \<noteq> []" "max_download_bytes limits \<noteq> - 1"
    and "\<forall>c \<in> set chunks. \<forall>b. c = Inr b \<longrightarrow> length b < 2 ^ 64"
  shows "receive_chunks limits url destination chunks received seen w = (Inr out, w') \<Longrightarrow>
    lookup (w_files w) destination = Some (FileNode seen m) \<Longrightarrow> unat received = length seen \<Longrightarrow>
    received \<le> max_download_bytes limits \<Longrightarrow>
    lookup (w_files w') destination = Some (FileNode out m) \<and> length out \<le> unat (max_download_bytes limits)"
  using assms(3)
proof (induction chunks arbitrary: received seen w)
  case Nil
  then show ?case by (auto simp: word_le_nat_alt)
next
  case (Cons chunk chunks)
  let ?n = "\<lambda>bytes. saturating_add received (of_nat (length bytes))"
  from Cons.prems(1) obtain bytes w1 where c: "chunk = Inr bytes" "?n bytes \<le> max_download_bytes limits"
    and w1: "sys_append destination bytes w = (Inr (), w1)"
    and rest: "receive_chunks limits url destination chunks (?n bytes) (seen @ bytes) w1 = (Inr out, w')"
    by (cases chunk) (auto simp: io_then_eq_Inr Let_def sys_context_Inr not_less over_limit_def split: if_splits)
  have "unat (?n bytes) = length (seen @ bytes)"
    using saturating_add_bound[OF Cons.prems(3) c(2) assms(2)] Cons.prems(5) c(1) by simp
  with Cons.IH[OF rest append_Inr[OF w1 assms(1) Cons.prems(2)]] c(2) Cons.prems(5) show ?case by simp
qed


definition demo_web :: web where
  "demo_web = \<lparr>parse_url = (\<lambda>_. Inr (Some [''v1'', ''a.zip''])),
     http_get = (\<lambda>_. Inr \<lparr>rs_status_error = None, rs_content_length = Some 3, rs_chunks = [Inr ''ab'', Inr ''c'']\<rparr>),
     build_client = Inr ()\<rparr>"

definition demo_target :: BinaryTarget where
  "demo_target = \<lparr>bt_archive = ''u'', bt_cmd = ''c'', bt_sha256 = Some (replicate 64 CHR ''0''),
     bt_args = None, bt_env = None\<rparr>"

definition demo_sha256 :: "string \<Rightarrow> string" where
  "demo_sha256 bytes = (if bytes = ''abc'' then replicate 32 CHR 0x00 else [])"

lemma demo_download:
  "fst (download_archive_with_limits demo_web demo_sha256 demo_target [] ArchiveLimits_default (calm_world []))
     = Inr [''a.zip'']"
proof -
  have "parse_sha256 (replicate 64 CHR ''0'') = Inr (replicate 32 CHR 0x00)" by code_simp
  moreover have "validate_archive_component ''a.zip'' = Inr ()" by code_simp
  moreover have "max_download_bytes ArchiveLimits_default = 268435456" by code_simp
  ultimately show ?thesis
    by (simp add: download_archive_with_limits_def demo_target_def demo_web_def archive_name_def Let_def
        io_then_def io_try_def store_response_def sys_context_def sys_io_def io_context_def io_map_err_def
        sys_create_file_def sys_append_def append_to_def reading_def syscall_def calm_world_def lookup_def put_node_def alist_put_def alist_del_def
        saturating_add_def checked_add_def demo_sha256_def)
qed


end
