(* ===== verification/Archive.thy ===== *)
theory Archive
  imports Payload
begin

text \<open>
  Archive extraction (\<open>src/src/installer/binary/archive.rs\<close>). The decoders are parameters: a
  tar or ZIP file is the list of the entries (or errors) that the \<open>tar\<close> and \<open>zip\<close> crates
  deliver, with the chunks of their contents; unpacking one tar entry is the \<open>tar\<close> crate's.
  What the code itself writes goes through the symbolic links of the file system, as the
  operating system does it.
\<close>

section \<open>Writing through symbolic links\<close>

text \<open>The place of a file to be made: its links resolved, the last component may be missing.\<close>

definition locate :: "files \<Rightarrow> path \<Rightarrow> path option" where
  "locate fs p =
     (case resolve fs 40 [] p of
        Some q \<Rightarrow> Some q
      | None \<Rightarrow> if p = [] then None else map_option (\<lambda>q. q @ [last p]) (resolve fs 40 [] (butlast p)))"

definition write_through :: "path \<Rightarrow> (path \<Rightarrow> files \<Rightarrow> (io_error + unit) \<times> files) \<Rightarrow> files \<Rightarrow> (io_error + unit) \<times> files" where
  "write_through p f fs =
     (case locate fs p of
        None \<Rightarrow> (Inl not_found, fs)
      | Some q \<Rightarrow> if q = [] \<or> lookup fs (butlast q) \<noteq> Some DirNode then (Inl not_found, fs) else f q fs)"

definition sys_create_through :: "path \<Rightarrow> unit sys" where
  "sys_create_through p =
     syscall intact (write_through p (\<lambda>q fs. case lookup fs q of
        None \<Rightarrow> (Inr (), put_node q (FileNode [] 420) fs)
      | Some (FileNode _ m) \<Rightarrow> (Inr (), put_node q (FileNode [] m) fs)
      | Some _ \<Rightarrow> (Inl (io_other ''Is a directory (os error 21)''), fs)))"

definition append_through :: "path \<Rightarrow> string \<Rightarrow> files \<Rightarrow> (io_error + unit) \<times> files" where
  "append_through p bytes = write_through p (\<lambda>q fs. (Inr (), append_to q bytes fs))"

definition sys_append_through :: "path \<Rightarrow> string \<Rightarrow> unit sys" where
  "sys_append_through p bytes =
     syscall (\<lambda>ft fs. snd (append_through p (take (ft_written ft) bytes) fs)) (append_through p bytes)"

fun make_dirs_through :: "path list \<Rightarrow> files \<Rightarrow> (io_error + unit) \<times> files" where
  "make_dirs_through [] fs = (Inr (), fs)"
| "make_dirs_through (p # ps) fs =
     (case stat fs p of
        Some DirNode \<Rightarrow> make_dirs_through ps fs
      | Some _ \<Rightarrow> (Inl (io_other ''Not a directory (os error 20)''), fs)
      | None \<Rightarrow> (case write_through p (\<lambda>q fs. if lookup fs q = None then (Inr (), put_node q DirNode fs)
                                           else (Inl (io_other ''File exists (os error 17)''), fs)) fs of
            (Inr _, fs') \<Rightarrow> make_dirs_through ps fs'
          | (Inl e, fs') \<Rightarrow> (Inl e, fs')))"

definition sys_make_dirs_through :: "path \<Rightarrow> unit sys" where
  "sys_make_dirs_through p =
     syscall intact (make_dirs_through (map (\<lambda>n. take n p) [1..<Suc (length p)]))"

text \<open>The link itself is made in the directory its path resolves to.\<close>

definition sys_symlink_through :: "string \<Rightarrow> path \<Rightarrow> unit sys" where
  "sys_symlink_through target p =
     syscall intact (\<lambda>fs.
       case (if p = [] then None else resolve fs 40 [] (butlast p)) of
         None \<Rightarrow> (Inl not_found, fs)
       | Some d \<Rightarrow>
           if lookup fs d \<noteq> Some DirNode then (Inl not_found, fs)
           else if lookup fs (d @ [last p]) \<noteq> None then (Inl (io_other ''File exists (os error 17)''), fs)
           else (Inr (), put_node (d @ [last p]) (LinkNode target) fs))"

definition sys_set_permissions :: "path \<Rightarrow> nat \<Rightarrow> unit sys" where
  "sys_set_permissions p mode =
     syscall intact (\<lambda>fs. case resolve fs 40 [] p of
        None \<Rightarrow> (Inl not_found, fs)
      | Some q \<Rightarrow> (case lookup fs q of
            Some (FileNode content _) \<Rightarrow> (Inr (), put_node q (FileNode content mode) fs)
          | Some _ \<Rightarrow> (Inr (), fs)
          | None \<Rightarrow> (Inl not_found, fs)))"

section \<open>Bounded copies\<close>

type_synonym chunks = "(io_error + string) list"

text \<open>
  \<open>copy_with_limit\<close>: the number of bytes copied, and the bytes given to the writer. The
  reader delivers the chunks; an empty one is its end.
\<close>

fun copy_with_limit ::
    "(string \<Rightarrow> unit sys) \<Rightarrow> cancel \<Rightarrow> u64 \<Rightarrow> chunks \<Rightarrow> u64 \<Rightarrow> string \<Rightarrow> (world, u64 \<times> string) io" where
  "copy_with_limit write cancel max_bytes [] copied given =
     io_then (check_extraction_cancelled cancel) (\<lambda>_. io_return (copied, given))"
| "copy_with_limit write cancel max_bytes (chunk # chunks) copied given =
     io_then (check_extraction_cancelled cancel) (\<lambda>_.
     io_then (io_result (any_io chunk)) (\<lambda>bytes.
       if bytes = [] then io_return (copied, given)
       else
         io_then (io_result (ok_or (checked_add copied (of_nat (length bytes))) [''expanded archive size overflow'']))
           (\<lambda>copied.
             if copied > max_bytes then io_result (bail ''expanded archive size limit exceeded'')
             else io_then (sys_io (write bytes)) (\<lambda>_.
                    copy_with_limit write cancel max_bytes chunks copied (given @ bytes)))))"

section \<open>Tar archives\<close>

record tar_entry =
  te_path :: "string + string option"
  te_link_name :: "string + string option option"
  te_size :: u64
  te_is_dir :: bool

text \<open>
  The entry loop, over any state: \<open>cancelled\<close> reads the flag, \<open>unpack\<close> is \<open>unpack_in\<close>. A path
  or link target is absent when it is not valid UTF-8.
\<close>

fun extract_tar_loop ::
    "('s \<Rightarrow> bool) \<Rightarrow> ArchiveLimits \<Rightarrow> string \<Rightarrow> (tar_entry \<Rightarrow> ('s, unit) io) \<Rightarrow> (string + tar_entry) list
     \<Rightarrow> u64 \<Rightarrow> u64 \<Rightarrow> u64 \<Rightarrow> ('s, unit) io" where
  "extract_tar_loop cancelled limits destination unpack [] entries_seen expanded files = io_return ()"
| "extract_tar_loop cancelled limits destination unpack (entry # entries) entries_seen expanded files =
     io_then (\<lambda>s. (if cancelled s then bail ''extraction cancelled'' else Inr (), s)) (\<lambda>_.
     io_then (io_result (with_context (''failed to read an archive entry for '' @ destination)
                (map_err (\<lambda>e. [e]) entry))) (\<lambda>entry.
     io_then (io_result (map_err (\<lambda>e. [e]) (te_path entry))) (\<lambda>entry_path.
     io_then (io_result (validate_archive_path entry_path)) (\<lambda>_.
     io_then (io_result (map_err (\<lambda>e. [e]) (te_link_name entry))) (\<lambda>link.
     io_then (case link of None \<Rightarrow> io_return () | Some l \<Rightarrow> io_result (validate_archive_path l)) (\<lambda>_.
       if entries_seen + 1 > max_entries limits then io_result (bail ''archive entry limit exceeded'')
       else
         io_then (io_result (ok_or (checked_add expanded (te_size entry)) [''expanded archive size overflow''])) (\<lambda>expanded.
           if expanded > max_expanded_bytes limits then io_result (bail ''expanded archive size limit exceeded'')
           else
             let files' = (if te_is_dir entry then files else files + 1) in
             if \<not> te_is_dir entry \<and> files' > max_files limits then io_result (bail ''archive file limit exceeded'')
             else
               io_then (io_context (''failed to unpack archive into '' @ destination) (unpack entry)) (\<lambda>_.
                 extract_tar_loop cancelled limits destination unpack entries (entries_seen + 1) expanded files'))))))))"

definition extract_tar ::
    "(string \<Rightarrow> string + (string + tar_entry) list) \<Rightarrow> (path \<Rightarrow> tar_entry \<Rightarrow> (world, unit) io) \<Rightarrow> string
     \<Rightarrow> path \<Rightarrow> cancel \<Rightarrow> ArchiveLimits \<Rightarrow> (world, unit) io" where
  "extract_tar tar_entries unpack_in decoded destination cancel limits =
     io_then (io_result (with_context (''failed to read archive entries for '' @ path_display destination)
                (map_err (\<lambda>e. [e]) (tar_entries decoded)))) (\<lambda>entries.
       extract_tar_loop (\<lambda>w. cancel (w_calls w)) limits (path_display destination) (unpack_in destination)
         entries 0 0 0)"

section \<open>ZIP archives\<close>

record zip_entry =
  ze_enclosed_name :: "string option"
  ze_size :: u64
  ze_is_dir :: bool
  ze_is_symlink :: bool
  ze_unix_mode :: "nat option"
  ze_chunks :: chunks
  ze_utf8 :: "string \<Rightarrow> string + string"

text \<open>\<open>destination.join(enclosed)\<close> for a relative path.\<close>

definition join_relative :: "path \<Rightarrow> string \<Rightarrow> path" where
  "join_relative destination enclosed =
     destination @ concat (map (\<lambda>c. case c of Normal n \<Rightarrow> [n] | ParentDir \<Rightarrow> [''..''] | _ \<Rightarrow> [])
                             (path_components enclosed))"

definition make_parent :: "path \<Rightarrow> (world, unit) io" where
  "make_parent outpath =
     (if outpath = [] then io_return ()
      else sys_context (''failed to create '' @ path_display (butlast outpath))
             (sys_make_dirs_through (butlast outpath)))"

definition extract_zip_symlink :: "zip_entry \<Rightarrow> path \<Rightarrow> cancel \<Rightarrow> u64 \<Rightarrow> (world, unit) io" where
  "extract_zip_symlink entry outpath cancel max_bytes =
     io_then (io_context (''failed to read symlink target for '' @ path_display outpath)
       (copy_with_limit (\<lambda>_ w. (Inr (), w)) cancel max_bytes (ze_chunks entry) 0 [])) (\<lambda>(copied, given).
     if copied \<noteq> ze_size entry
     then io_result (bail (''ZIP symlink size mismatch for '' @ path_display outpath @ '': declared ''
            @ show_u64 (ze_size entry) @ '', extracted '' @ show_u64 copied))
     else
       io_then (io_result (with_context (''symlink target for '' @ path_display outpath @ '' is not valid UTF-8'')
                  (map_err (\<lambda>e. [e]) (ze_utf8 entry given)))) (\<lambda>target.
       io_then (io_result (with_context (''unsafe symlink target for '' @ path_display outpath)
                  (validate_archive_path (Some target)))) (\<lambda>_.
       io_then (make_parent outpath) (\<lambda>_.
         sys_context (''failed to create symlink '' @ path_display outpath) (sys_symlink_through target outpath)))))"

definition extract_zip_file :: "zip_entry \<Rightarrow> path \<Rightarrow> cancel \<Rightarrow> u64 \<Rightarrow> (world, unit) io" where
  "extract_zip_file entry outpath cancel max_bytes =
     io_then (make_parent outpath) (\<lambda>_.
     io_then (sys_context (''failed to create '' @ path_display outpath) (sys_create_through outpath)) (\<lambda>_.
     io_then (io_context (''failed to write '' @ path_display outpath)
       (copy_with_limit (sys_append_through outpath) cancel max_bytes (ze_chunks entry) 0 [])) (\<lambda>(copied, _).
     if copied \<noteq> ze_size entry
     then io_result (bail (''ZIP entry size mismatch for '' @ path_display outpath @ '': declared ''
            @ show_u64 (ze_size entry) @ '', extracted '' @ show_u64 copied))
     else io_return ())))"

definition record_mode :: "path \<Rightarrow> nat option \<Rightarrow> (path \<times> nat) list \<Rightarrow> (path \<times> nat) list" where
  "record_mode outpath mode modes = (case mode of None \<Rightarrow> modes | Some m \<Rightarrow> modes @ [(outpath, m)])"

text \<open>The entry loop returns the modes that are to be set at the end.\<close>

fun extract_zip_loop ::
    "path \<Rightarrow> path \<Rightarrow> cancel \<Rightarrow> ArchiveLimits \<Rightarrow> nat \<Rightarrow> (string + zip_entry) list \<Rightarrow> u64 \<Rightarrow> u64
     \<Rightarrow> (path \<times> nat) list \<Rightarrow> (world, (path \<times> nat) list) io" where
  "extract_zip_loop archive_path destination cancel limits index [] expanded files modes = io_return modes"
| "extract_zip_loop archive_path destination cancel limits index (entry # entries) expanded files modes =
     io_then (check_extraction_cancelled cancel) (\<lambda>_.
     io_then (io_result (with_context (''failed to read ZIP entry '' @ show_nat index) (map_err (\<lambda>e. [e]) entry))) (\<lambda>entry.
     io_then (io_result (ok_or (ze_enclosed_name entry)
        [''unsafe path in ZIP archive '' @ path_display archive_path @ '': entry '' @ show_nat index])) (\<lambda>enclosed.
     io_then (io_result (validate_archive_path (Some enclosed))) (\<lambda>_.
     let outpath = join_relative destination enclosed; expanded_before_entry = expanded in
     io_then (io_result (ok_or (checked_add expanded (ze_size entry)) [''expanded archive size overflow''])) (\<lambda>expanded.
       if expanded > max_expanded_bytes limits then io_result (bail ''expanded archive size limit exceeded'')
       else if ze_is_dir entry
       then
         io_then (sys_context (''failed to create directory '' @ path_display outpath) (sys_make_dirs_through outpath)) (\<lambda>_.
           extract_zip_loop archive_path destination cancel limits (index + 1) entries expanded files
             (record_mode outpath (ze_unix_mode entry) modes))
       else if files + 1 > max_files limits then io_result (bail ''archive file limit exceeded'')
       else if ze_is_symlink entry
       then
         io_then (extract_zip_symlink entry outpath cancel (max_expanded_bytes limits - expanded_before_entry)) (\<lambda>_.
           extract_zip_loop archive_path destination cancel limits (index + 1) entries expanded (files + 1) modes)
       else
         io_then (extract_zip_file entry outpath cancel (max_expanded_bytes limits - expanded_before_entry)) (\<lambda>_.
           extract_zip_loop archive_path destination cancel limits (index + 1) entries expanded (files + 1)
             (record_mode outpath (ze_unix_mode entry) modes)))))))"

definition extract_zip_with_limits ::
    "(string \<Rightarrow> string + (string + zip_entry) list) \<Rightarrow> path \<Rightarrow> path \<Rightarrow> cancel \<Rightarrow> ArchiveLimits \<Rightarrow> (world, unit) io" where
  "extract_zip_with_limits zip_entries archive_path destination cancel limits =
     io_then (sys_context (''failed to open archive '' @ path_display archive_path) (sys_read archive_path)) (\<lambda>bytes.
     io_then (io_result (with_context (''failed to read ZIP archive '' @ path_display archive_path)
                (map_err (\<lambda>e. [e]) (zip_entries bytes)))) (\<lambda>entries.
       if of_nat (length entries) > max_entries limits then io_result (bail ''archive entry limit exceeded'')
       else
         io_then (extract_zip_loop archive_path destination cancel limits 0 entries 0 0 []) (\<lambda>modes.
           io_each (\<lambda>(p, mode). sys_context (''failed to set permissions on '' @ path_display p)
                      (sys_set_permissions p mode)) (rev modes))))"

section \<open>The choice of the format\<close>

record codecs =
  gunzip :: "string \<Rightarrow> string"
  bunzip :: "string \<Rightarrow> string"
  tar_list :: "string \<Rightarrow> string + (string + tar_entry) list"
  tar_unpack :: "path \<Rightarrow> tar_entry \<Rightarrow> (world, unit) io"
  zip_list :: "string \<Rightarrow> string + (string + zip_entry) list"
  file_chunks :: "string \<Rightarrow> chunks"

definition extract_tar_file ::
    "codecs \<Rightarrow> (string \<Rightarrow> string) \<Rightarrow> path \<Rightarrow> path \<Rightarrow> cancel \<Rightarrow> ArchiveLimits \<Rightarrow> (world, unit) io" where
  "extract_tar_file codecs decode archive_path destination cancel limits =
     io_then (sys_context (''failed to open archive '' @ path_display archive_path) (sys_read archive_path)) (\<lambda>bytes.
       extract_tar (tar_list codecs) (tar_unpack codecs) (decode bytes) destination cancel limits)"

definition copy_single_file ::
    "codecs \<Rightarrow> path \<Rightarrow> path \<Rightarrow> cancel \<Rightarrow> ArchiveLimits \<Rightarrow> (world, unit) io" where
  "copy_single_file codecs archive_path destination cancel limits =
     io_then (io_result (ok_or (file_name archive_path)
        [''unsupported archive format for '' @ path_display archive_path])) (\<lambda>name.
     io_then (check_extraction_cancelled cancel) (\<lambda>_.
     io_then (sys_context (''failed to inspect archive '' @ path_display archive_path) (sys_metadata archive_path)) (\<lambda>n.
       if of_nat (length (case n of FileNode b _ \<Rightarrow> b | _ \<Rightarrow> [])) > max_expanded_bytes limits
       then io_result (bail ''expanded archive size limit exceeded'')
       else
         io_then (io_result (validate_archive_component name)) (\<lambda>_.
         io_then (sys_context (''failed to open archive '' @ path_display archive_path) (sys_read archive_path)) (\<lambda>bytes.
         io_then (sys_context (''failed to create '' @ path_display (destination @ [name]))
                    (sys_create_through (destination @ [name]))) (\<lambda>_.
         io_then (io_context (''failed to copy archive '' @ path_display archive_path @ '' to ''
                              @ path_display (destination @ [name]))
           (copy_with_limit (sys_append_through (destination @ [name])) cancel (max_expanded_bytes limits)
              (file_chunks codecs bytes) 0 [])) (\<lambda>_. io_return ())))))))"

definition extract_archive_blocking ::
    "codecs \<Rightarrow> path \<Rightarrow> path \<Rightarrow> cancel \<Rightarrow> ArchiveLimits \<Rightarrow> (world, unit) io" where
  "extract_archive_blocking codecs archive_path destination cancel limits =
     io_then (check_extraction_cancelled cancel) (\<lambda>_.
     let name = to_ascii_lowercase (case file_name archive_path of Some n \<Rightarrow> n | None \<Rightarrow> []) in
     if suffix ''.zip'' name
     then extract_zip_with_limits (zip_list codecs) archive_path destination cancel limits
     else if suffix ''.tar.gz'' name \<or> suffix ''.tgz'' name
     then extract_tar_file codecs (gunzip codecs) archive_path destination cancel limits
     else if suffix ''.tar.bz2'' name \<or> suffix ''.tbz2'' name
     then extract_tar_file codecs (bunzip codecs) archive_path destination cancel limits
     else copy_single_file codecs archive_path destination cancel limits)"

text \<open>
  \<open>extract_archive_with_cleanup\<close> when it is awaited to its end: a failed extraction removes the
  staging directory, in the worker and again when the future is dropped.
\<close>

definition extract_archive_with_cleanup ::
    "codecs \<Rightarrow> path \<Rightarrow> path \<Rightarrow> ArchiveLimits \<Rightarrow> path \<Rightarrow> cancel \<Rightarrow> (world, unit) io" where
  "extract_archive_with_cleanup codecs archive_path destination limits cleanup_path cancel =
     io_try (extract_archive_blocking codecs archive_path destination cancel limits) (\<lambda>result w.
       case result of
         Inr _ \<Rightarrow> (Inr (), w)
       | Inl e \<Rightarrow> (Inl e, snd (sys_remove_dir_all cleanup_path (snd (sys_remove_dir_all cleanup_path w)))))"

section \<open>Extraction of a ZIP archive stays in its directory\<close>

text \<open>A link target that cannot climb.\<close>

definition relative_inside :: "string \<Rightarrow> bool" where
  "relative_inside t \<longleftrightarrow> \<not> prefix ''/'' t \<and> ''..'' \<notin> set (split_char CHR ''/'' t)"

definition safe_links :: "path \<Rightarrow> files \<Rightarrow> bool" where
  "safe_links dest fs \<longleftrightarrow>
     (\<forall>q t. prefix dest q \<longrightarrow> lookup fs q = Some (LinkNode t) \<longrightarrow> relative_inside t)"

definition stays_inside :: "path \<Rightarrow> world \<Rightarrow> world \<Rightarrow> bool" where
  "stays_inside dest w w' \<longleftrightarrow>
     (anchored (w_files w) dest \<and> safe_links dest (w_files w) \<longrightarrow>
        anchored (w_files w') dest \<and> safe_links dest (w_files w')
        \<and> (\<forall>q. \<not> prefix dest q \<longrightarrow> lookup (w_files w') q = lookup (w_files w) q))"

lemma stays_inside_refl [simp]: "reflp (stays_inside dest)"
  and stays_inside_trans [simp]: "transp (stays_inside dest)"
  by (auto simp: stays_inside_def reflp_def transp_def)

lemma same_files_inside: "w_files w' = w_files w \<Longrightarrow> stays_inside dest w w'"
  by (simp add: stays_inside_def)

lemma resolve_inside:
  "safe_links dest fs \<Longrightarrow> prefix dest acc \<Longrightarrow> ''..'' \<notin> set cs \<Longrightarrow> resolve fs n acc cs = Some q \<Longrightarrow> prefix dest q"
proof (induction fs n acc cs rule: resolve.induct)
  case (2 fs n acc c cs)
  have up: "c \<noteq> ''..''" "''..'' \<notin> set cs" using "2.prems"(3) by auto
  have deeper: "prefix dest (acc @ [c])" using "2.prems"(2) by (rule prefix_prefix)
  note step = "2.prems"(4)[unfolded resolve.simps(2)]
  show ?case
  proof (cases "c = [] \<or> c = ''.''")
    case True
    with step have "resolve fs n acc cs = Some q" by simp
    with "2.IH"(1)[OF True "2.prems"(1,2) up(2)] show ?thesis .
  next
    case plain: False
    with step up(1) obtain node where node: "lookup fs (acc @ [c]) = Some node"
      by (auto split: option.splits)
    show ?thesis
    proof (cases node)
      case (LinkNode t)
      then have t: "relative_inside t" using "2.prems"(1) deeper node unfolding safe_links_def by blast
      from step plain up(1) node LinkNode have n: "n \<noteq> 0"
        and onward: "resolve fs (n - 1) (if prefix ''/'' t then [] else acc) (split_char CHR ''/'' t @ cs) = Some q"
        by (simp_all split: if_splits)
      from t up(2) have "prefix dest (if prefix ''/'' t then [] else acc)" "''..'' \<notin> set (split_char CHR ''/'' t @ cs)"
        using "2.prems"(2) by (simp_all add: relative_inside_def)
      from "2.IH"(5)[OF plain up(1) node LinkNode n "2.prems"(1) this onward] show ?thesis .
    next
      case DirNode
      with step plain up(1) node have "resolve fs n (acc @ [c]) cs = Some q" by simp
      from "2.IH"(3)[OF plain up(1) node DirNode _ "2.prems"(1) deeper up(2) this] node DirNode show ?thesis by simp
    next
      case (FileNode x m)
      with step plain up(1) node have r: "resolve fs n (acc @ [c]) cs = Some q" "cs = []" by (simp_all split: if_splits)
      from "2.IH"(4)[OF plain up(1) node FileNode _ "2.prems"(1) deeper up(2) r(1)] r(2) show ?thesis by simp
    next
      case (OtherNode x)
      with step plain up(1) node have r: "resolve fs n (acc @ [c]) cs = Some q" "cs = []" by (simp_all split: if_splits)
      from "2.IH"(6)[OF plain up(1) node OtherNode _ "2.prems"(1) deeper up(2) r(1)] r(2) show ?thesis by simp
    qed
  qed
qed simp

lemma locate_inside:
  assumes "anchored fs dest" "safe_links dest fs" "list_all plain_name dest" "''..'' \<notin> set rel"
    and "locate fs (dest @ rel) = Some q"
  shows "prefix dest q"
proof -
  have below: "prefix dest r" if "resolve fs 40 [] (dest @ cs) = Some r" "''..'' \<notin> set cs" for cs r
    using resolve_inside[OF assms(2) _ that(2), of dest 40 r] that(1) resolve_below[OF assms(1,3)] by simp
  show ?thesis
  proof (cases "resolve fs 40 [] (dest @ rel)")
    case (Some r)
    with assms(4,5) below show ?thesis by (auto simp: locate_def)
  next
    case None
    then have "rel \<noteq> []" using resolve_below[OF assms(1,3), of 40 "[]"] by (cases rel) auto
    moreover have "''..'' \<notin> set (butlast rel)" using assms(4) by (meson in_set_butlastD)
    ultimately show ?thesis
      using None assms(5) below[of "butlast rel"] by (auto simp: locate_def butlast_append split: if_splits)
  qed
qed

lemma put_inside:
  assumes "anchored (w_files w) dest" "safe_links dest (w_files w)" "prefix dest q" "q \<noteq> []"
    and "lookup (w_files w) q \<noteq> Some DirNode" "\<forall>t. n = LinkNode t \<longrightarrow> relative_inside t"
    and "w_files w' = put_node q n (w_files w)"
  shows "stays_inside dest w w'"
proof -
  have "take k dest \<noteq> q" for k using assms(1,5) unfolding anchored_def by metis
  with assms show ?thesis
    by (auto simp: stays_inside_def anchored_def safe_links_def lookup_put_node)
qed

text \<open>Paths that the extraction writes: on the way to the destination, or below it.\<close>

definition ok_path :: "path \<Rightarrow> path \<Rightarrow> bool" where
  "ok_path dest p \<longleftrightarrow> (\<exists>rel. p = dest @ rel \<and> ''..'' \<notin> set rel)"

definition puts_only :: "(path \<Rightarrow> files \<Rightarrow> (io_error + unit) \<times> files) \<Rightarrow> bool" where
  "puts_only f \<longleftrightarrow>
     (\<forall>q fs. snd (f q fs) = fs
        \<or> (\<exists>n. snd (f q fs) = put_node q n fs \<and> lookup fs q \<noteq> Some DirNode \<and> (\<forall>t. n \<noteq> LinkNode t)))"

lemma write_through_inside:
  assumes plain: "list_all plain_name dest" and p: "ok_path dest p" and f: "puts_only f"
    and run: "w_files w' = snd (write_through p f (w_files w))"
  shows "stays_inside dest w w'"
proof (cases "w_files w' = w_files w \<or> \<not> (anchored (w_files w) dest \<and> safe_links dest (w_files w))")
  case True
  then show ?thesis by (auto simp: stays_inside_def)
next
  case False
  with run obtain q where q: "locate (w_files w) p = Some q" "q \<noteq> []" "w_files w' = snd (f q (w_files w))"
    by (auto simp: write_through_def split: option.splits if_splits)
  have inside: "prefix dest q" using False p plain q(1) locate_inside by (auto simp: ok_path_def)
  from f q(3) False obtain n where
    "w_files w' = put_node q n (w_files w)" "lookup (w_files w) q \<noteq> Some DirNode" "\<forall>t. n \<noteq> LinkNode t"
    unfolding puts_only_def by metis
  with inside q(2) False show ?thesis by (intro put_inside[of w dest q n]) auto
qed

lemma inside_by_files:
  assumes "\<And>v :: world. w_files v = snd (f (w_files w)) \<Longrightarrow> stays_inside dest w v"
    and "\<And>ft (v :: world). w_files v = broken ft (w_files w) \<Longrightarrow> stays_inside dest w v"
  shows "stays_inside dest w (snd (syscall broken f w))"
  using assms by (auto simp: syscall_def Let_def split: option.split prod.split)

lemma create_through_inside:
  assumes "list_all plain_name dest" "ok_path dest p"
  shows "stays_inside dest w (snd (sys_create_through p w))"
  unfolding sys_create_through_def
proof (rule inside_by_files)
  have "puts_only (\<lambda>q fs. case lookup fs q of
        None \<Rightarrow> (Inr (), put_node q (FileNode [] 420) fs)
      | Some (FileNode _ m) \<Rightarrow> (Inr (), put_node q (FileNode [] m) fs)
      | Some _ \<Rightarrow> (Inl (io_other ''Is a directory (os error 21)''), fs))"
    by (auto simp: puts_only_def split: option.split node.split)
  from write_through_inside[OF assms this]
  show "w_files v = snd (write_through p (\<lambda>q fs. case lookup fs q of
        None \<Rightarrow> (Inr (), put_node q (FileNode [] 420) fs)
      | Some (FileNode _ m) \<Rightarrow> (Inr (), put_node q (FileNode [] m) fs)
      | Some _ \<Rightarrow> (Inl (io_other ''Is a directory (os error 21)''), fs)) (w_files w)) \<Longrightarrow> stays_inside dest w v" for v
    by blast
qed (simp add: intact_def same_files_inside)

lemma append_through_inside:
  assumes "list_all plain_name dest" "ok_path dest p"
  shows "stays_inside dest w (snd (sys_append_through p bytes w))"
proof -
  have "puts_only (\<lambda>q fs. (Inr (), append_to q b fs))" for b
    by (auto simp: puts_only_def append_to_def split: option.splits node.splits)
  from write_through_inside[OF assms this] show ?thesis
    unfolding sys_append_through_def append_through_def by (intro inside_by_files) auto
qed

lemma make_dirs_inside:
  assumes plain: "list_all plain_name dest"
  shows "\<forall>p \<in> set ps. ok_path dest p \<or> (\<exists>k. p = take k dest) \<Longrightarrow>
    w_files v = snd (make_dirs_through ps (w_files w)) \<Longrightarrow> stays_inside dest w v"
proof (induction ps arbitrary: w)
  case (Cons p ps)
  let ?f = "\<lambda>q fs. if lookup fs q = None then (Inr (), put_node q DirNode fs)
                  else (Inl (io_other ''File exists (os error 17)''), fs)"
  have f: "puts_only ?f" by (auto simp: puts_only_def)
  show ?case
  proof (cases "anchored (w_files w) dest")
    case True
    have way: "stat (w_files w) p = Some DirNode" if "p = take k dest" for k
    proof -
      have "anchored (w_files w) (take k dest)" using True by (simp add: anchored_def)
      moreover have "list_all plain_name (take k dest)" using plain by (auto simp: list_all_iff dest: in_set_takeD)
      ultimately show ?thesis using that by (simp add: anchored_stat)
    qed
    show ?thesis
    proof (cases "stat (w_files w) p")
      case None
      then have p: "ok_path dest p" using Cons.prems(1) way by auto
      obtain r fs1 where r: "write_through p ?f (w_files w) = (r, fs1)" by fastforce
      define w1 where "w1 = w\<lparr>w_files := fs1\<rparr>"
      have 1: "stays_inside dest w w1"
        using write_through_inside[OF plain p f, of w1 w] r by (simp add: w1_def)
      show ?thesis
      proof (cases r)
        case (Inl e)
        with Cons.prems(2) None r have "w_files v = w_files w1" by (simp add: w1_def)
        with 1 show ?thesis by (simp add: stays_inside_def)
      next
        case (Inr x)
        with Cons.prems None r have "stays_inside dest w1 v" by (intro Cons.IH) (auto simp: w1_def)
        with 1 show ?thesis by (rule transpD[OF stays_inside_trans])
      qed
    next
      case (Some k)
      with Cons.prems Cons.IH[of w] show ?thesis by (cases k) (auto simp: same_files_inside)
    qed
  qed (simp add: stays_inside_def)
qed (simp add: same_files_inside)

lemma make_dirs_through_inside:
  assumes plain: "list_all plain_name dest" and p: "ok_path dest p"
  shows "stays_inside dest w (snd (sys_make_dirs_through p w))"
proof -
  obtain rel where rel: "p = dest @ rel" "''..'' \<notin> set rel" using p by (auto simp: ok_path_def)
  have "ok_path dest q \<or> (\<exists>k. q = take k dest)" if "q \<in> set (map (\<lambda>n. take n p) [1..<Suc (length p)])" for q
  proof -
    from that obtain n where q: "q = take n p" by auto
    show ?thesis
    proof (cases "n \<le> length dest")
      case True
      with q rel have "q = take n dest" by simp
      then show ?thesis by blast
    next
      case False
      with q rel have "q = dest @ take (n - length dest) rel" by simp
      moreover have "''..'' \<notin> set (take (n - length dest) rel)" using rel(2) by (meson in_set_takeD)
      ultimately show ?thesis unfolding ok_path_def by blast
    qed
  qed
  then have all: "\<forall>q \<in> set (map (\<lambda>n. take n p) [1..<Suc (length p)]). ok_path dest q \<or> (\<exists>k. q = take k dest)"
    by blast
  show ?thesis
    unfolding sys_make_dirs_through_def
    by (rule inside_by_files) (rule make_dirs_inside[OF plain all], assumption, simp add: intact_def same_files_inside)
qed

lemma symlink_through_inside:
  assumes plain: "list_all plain_name dest" and p: "ok_path dest p" "p \<noteq> dest" and t: "relative_inside target"
  shows "stays_inside dest w (snd (sys_symlink_through target p w))"
  unfolding sys_symlink_through_def
proof (rule inside_by_files)
  fix v :: world
  assume v: "w_files v = snd (case (if p = [] then None else resolve (w_files w) 40 [] (butlast p)) of
         None \<Rightarrow> (Inl not_found, w_files w)
       | Some d \<Rightarrow>
           if lookup (w_files w) d \<noteq> Some DirNode then (Inl not_found, w_files w)
           else if lookup (w_files w) (d @ [last p]) \<noteq> None then (Inl (io_other ''File exists (os error 17)''), w_files w)
           else (Inr (), put_node (d @ [last p]) (LinkNode target) (w_files w)))"
  obtain rel where rel: "p = dest @ rel" "''..'' \<notin> set rel" "rel \<noteq> []" using p by (auto simp: ok_path_def)
  have up: "butlast p = dest @ butlast rel" "''..'' \<notin> set (butlast rel)"
    using rel by (auto simp: butlast_append dest: in_set_butlastD)
  show "stays_inside dest w v"
  proof (cases "w_files v = w_files w \<or> \<not> (anchored (w_files w) dest \<and> safe_links dest (w_files w))")
    case True
    then show ?thesis by (auto simp: stays_inside_def)
  next
    case False
    with v obtain d where d: "resolve (w_files w) 40 [] (butlast p) = Some d" "lookup (w_files w) (d @ [last p]) = None"
        "w_files v = put_node (d @ [last p]) (LinkNode target) (w_files w)"
      by (auto split: option.splits if_splits)
    have "prefix dest d"
      using False up resolve_below[of "w_files w" dest 40 "butlast rel"] plain d(1)
        resolve_inside[of dest "w_files w" dest "butlast rel" 40 d] by auto
    then show ?thesis using d False t by (intro put_inside[of w dest "d @ [last p]" "LinkNode target"]) auto
  qed
qed (simp add: intact_def same_files_inside)

lemma set_permissions_inside:
  assumes plain: "list_all plain_name dest" and p: "ok_path dest p"
  shows "stays_inside dest w (snd (sys_set_permissions p mode w))"
  unfolding sys_set_permissions_def
proof (rule inside_by_files)
  fix v :: world
  assume v: "w_files v = snd (case resolve (w_files w) 40 [] p of
        None \<Rightarrow> (Inl not_found, w_files w)
      | Some q \<Rightarrow> (case lookup (w_files w) q of
            Some (FileNode content _) \<Rightarrow> (Inr (), put_node q (FileNode content mode) (w_files w))
          | Some _ \<Rightarrow> (Inr (), w_files w)
          | None \<Rightarrow> (Inl not_found, w_files w)))"
  show "stays_inside dest w v"
  proof (cases "w_files v = w_files w \<or> \<not> (anchored (w_files w) dest \<and> safe_links dest (w_files w))")
    case True
    then show ?thesis by (auto simp: stays_inside_def)
  next
    case False
    with v obtain q content m where q: "resolve (w_files w) 40 [] p = Some q"
        "lookup (w_files w) q = Some (FileNode content m)" "w_files v = put_node q (FileNode content mode) (w_files w)"
      by (auto split: option.splits node.splits)
    obtain rel where rel: "p = dest @ rel" "''..'' \<notin> set rel" using p by (auto simp: ok_path_def)
    have "prefix dest q"
      using False rel resolve_below[of "w_files w" dest 40 rel] plain q(1)
        resolve_inside[of dest "w_files w" dest rel 40 q] by auto
    moreover have "q \<noteq> []" using q(2) by auto
    ultimately show ?thesis using q False by (intro put_inside[of w dest q "FileNode content mode"]) auto
  qed
qed (simp add: intact_def same_files_inside)

lemma validated_relative:
  assumes "validate_archive_path (Some t) = Inr ()"
  shows "relative_inside t"
proof -
  have "RootDir \<notin> set (path_components t)" "ParentDir \<notin> set (path_components t)"
    using assms by (auto simp: archive_paths_stay_inside)
  then show ?thesis by (auto simp: relative_inside_def path_components_def split: if_splits)
qed

lemma validated_join:
  assumes "validate_archive_path (Some t) = Inr ()"
  shows "ok_path dest (join_relative dest t)" "join_relative dest t \<noteq> dest"
proof -
  let ?rel = "concat (map (\<lambda>c. case c of Normal n \<Rightarrow> [n] | ParentDir \<Rightarrow> [''..''] | _ \<Rightarrow> []) (path_components t))"
  have p: "ParentDir \<notin> set (path_components t)" "\<exists>c. Normal c \<in> set (path_components t)"
    using assms by (auto simp: archive_paths_stay_inside)
  have "n \<noteq> ''..''" if "Normal n \<in> set (path_components t)" for n
    using normal_component_plain[OF that] by (auto simp: plain_name_def)
  with p(1) have "''..'' \<notin> set ?rel" by (auto split: component.splits)
  then show "ok_path dest (join_relative dest t)" by (auto simp: ok_path_def join_relative_def)
  have "?rel \<noteq> []" using p(2) by force
  then show "join_relative dest t \<noteq> dest" by (simp add: join_relative_def)
qed

lemma ok_path_parent: "ok_path dest p \<Longrightarrow> p \<noteq> dest \<Longrightarrow> ok_path dest (butlast p)"
  by (auto simp: ok_path_def butlast_append dest: in_set_butlastD)

abbreviation inside :: "path \<Rightarrow> (world, 'a) io \<Rightarrow> bool" where
  "inside dest m \<equiv> io_keeps (stays_inside dest) m"

lemma inside_return [simp]: "inside dest (io_return x)"
  and inside_result [simp]: "inside dest (io_result r)"
  and inside_Pair [simp]: "inside dest (Pair r)"
  by (simp_all add: io_keeps_def reflpD[OF stays_inside_refl])

lemma inside_then: "inside dest m \<Longrightarrow> (\<And>x. inside dest (f x)) \<Longrightarrow> inside dest (io_then m f)"
  by (simp add: io_keeps_then)

lemma inside_then_result: "(\<And>x. r = Inr x \<Longrightarrow> inside dest (f x)) \<Longrightarrow> inside dest (io_then (io_result r) f)"
  by (cases r) (simp_all add: io_keeps_def io_then_def same_files_inside)

lemma inside_if: "inside dest m \<Longrightarrow> inside dest m' \<Longrightarrow> inside dest (if b then m else m')"
  by simp

lemma inside_sys: "(\<And>w. stays_inside dest w (snd (f w))) \<Longrightarrow> inside dest (sys_io f)"
  by (simp add: io_keeps_def sys_io_def split_beta)

lemma inside_sys_context: "(\<And>w. stays_inside dest w (snd (f w))) \<Longrightarrow> inside dest (sys_context c f)"
  unfolding sys_context_def by (intro io_keeps_context inside_sys)

lemma inside_reads_only: "reads_only m \<Longrightarrow> inside dest m"
  unfolding io_keeps_def same_files_def using same_files_inside by blast

lemma inside_copy:
  "(\<And>bytes w. stays_inside dest w (snd (write bytes w))) \<Longrightarrow> inside dest (copy_with_limit write cancel n chunks k given)"
proof (induction "write" cancel n chunks k given rule: copy_with_limit.induct)
  case (1 wr cancel n k given)
  show ?case by (auto intro!: inside_then inside_reads_only[OF reads_only_check])
next
  case (2 wr cancel n chunk chunks k given)
  then show ?case by (auto intro!: inside_then inside_reads_only[OF reads_only_check] inside_sys)
qed

lemma inside_make_parent:
  assumes "list_all plain_name dest" "ok_path dest p" "p \<noteq> dest"
  shows "inside dest (make_parent p)"
  using assms ok_path_parent make_dirs_through_inside
  by (auto simp: make_parent_def intro!: inside_sys_context)

lemma inside_zip_symlink:
  assumes plain: "list_all plain_name dest" and p: "ok_path dest p" "p \<noteq> dest"
  shows "inside dest (extract_zip_symlink entry p cancel n)"
proof -
  have copy: "inside dest (copy_with_limit (\<lambda>_ w. (Inr (), w)) cancel n (ze_chunks entry) 0 [])"
    by (rule inside_copy) (simp add: same_files_inside)
  have link: "inside dest (sys_context c (sys_symlink_through target p))"
    if "with_context c' (validate_archive_path (Some target)) = Inr u" for c c' u target
    using that by (intro inside_sys_context symlink_through_inside[OF plain p] validated_relative) simp
  show ?thesis
    unfolding extract_zip_symlink_def
    by (rule inside_then, rule io_keeps_context[OF copy])
      (auto simp del: with_context_eq_Inr intro!: inside_then_result inside_then inside_make_parent[OF plain p] link
        split: prod.split)
qed

lemma inside_zip_file:
  assumes plain: "list_all plain_name dest" and p: "ok_path dest p" "p \<noteq> dest"
  shows "inside dest (extract_zip_file entry p cancel n)"
  unfolding extract_zip_file_def
  by (auto intro!: inside_then inside_make_parent[OF plain p] inside_sys_context io_keeps_context inside_copy
      create_through_inside[OF plain p(1)] append_through_inside[OF plain p(1)] split: prod.split)

lemma inside_zip_loop:
  assumes plain: "list_all plain_name dest"
  shows "inside dest (extract_zip_loop archive dest cancel limits i entries expanded files modes)"
proof (induction entries arbitrary: i expanded files modes)
  case (Cons entry entries)
  note ok = validated_join[where dest = dest]
  show ?case
    by (auto simp: Let_def intro!: Cons.IH inside_then_result
        inside_then[OF inside_reads_only[OF reads_only_check]]
        inside_then[OF inside_sys_context[OF make_dirs_through_inside[OF plain ok(1)]]]
        inside_then[OF inside_zip_symlink[OF plain ok]] inside_then[OF inside_zip_file[OF plain ok]])
qed simp

definition modes_inside :: "path \<Rightarrow> (path \<times> nat) list \<Rightarrow> bool" where
  "modes_inside dest modes \<longleftrightarrow> list_all (ok_path dest \<circ> fst) modes"

lemma zip_loop_modes:
  assumes "extract_zip_loop archive dest cancel limits i entries expanded files modes w = (Inr ms, w')"
    and "modes_inside dest modes"
  shows "modes_inside dest ms"
  using assms
proof (induction entries arbitrary: i expanded files modes w)
  case (Cons entry entries)
  have keep: "modes_inside dest (record_mode (join_relative dest enclosed) m modes)"
    if "validate_archive_path (Some enclosed) = Inr ()" for enclosed m
    using Cons.prems(2) validated_join(1)[OF that, of dest]
    by (auto simp: record_mode_def modes_inside_def split: option.split)
  from Cons.prems(1) show ?case
    by (auto simp: io_then_eq_Inr Let_def intro: Cons.IH keep Cons.prems(2) split: if_splits)
qed simp

lemma inside_each: "(\<And>x. x \<in> set xs \<Longrightarrow> inside dest (f x)) \<Longrightarrow> inside dest (io_each f xs)"
  by (induction xs) (auto intro!: inside_then)

lemma inside_Inr_then:
  assumes "inside dest m" "\<And>w x w'. m w = (Inr x, w') \<Longrightarrow> inside dest (f x)"
  shows "inside dest (io_then m f)"
  unfolding io_keeps_def
proof
  fix w
  obtain r w' where m: "m w = (r, w')" by force
  have one: "stays_inside dest w w'" using io_keepsD[OF assms(1) m] .
  show "stays_inside dest w (snd (io_then m f w))"
  proof (cases r)
    case (Inr x)
    then show ?thesis
      using m assms(2)[of w x w'] one transpD[OF stays_inside_trans] by (auto simp: io_then_Inr io_keeps_def)
  qed (use m one in \<open>simp add: io_then_Inl\<close>)
qed

lemma inside_zip:
  assumes plain: "list_all plain_name dest"
  shows "inside dest (extract_zip_with_limits zip_entries archive dest cancel limits)"
proof -
  have modes: "inside dest (io_each (\<lambda>(p, mode). sys_context (c p) (sys_set_permissions p mode)) (rev ms))"
    if "modes_inside dest ms" for c ms
    using that by (force intro!: inside_each inside_sys_context set_permissions_inside[OF plain]
        simp: modes_inside_def list_all_iff split_beta)
  have fin: "inside dest (io_then (extract_zip_loop archive dest cancel limits 0 entries 0 0 []) (\<lambda>modes.
     io_each (\<lambda>(p, mode). sys_context (''failed to set permissions on '' @ path_display p)
                      (sys_set_permissions p mode)) (rev modes)))" for entries
    by (rule inside_Inr_then[OF inside_zip_loop[OF plain]], rule modes, erule zip_loop_modes)
      (simp add: modes_inside_def)
  have open_it: "inside dest (sys_context c (sys_read archive))" for c
    by (intro inside_reads_only keeps_intros) (simp add: sys_read_def keeps_intros)
  show ?thesis
    unfolding extract_zip_with_limits_def
    by (rule inside_then[OF open_it], rule inside_then[OF inside_result], rule inside_if[OF inside_result fin])
qed


definition demo_zip_entry :: zip_entry where
  "demo_zip_entry =
     \<lparr>ze_enclosed_name = Some ''up/x'', ze_size = 2, ze_is_dir = False, ze_is_symlink = False,
      ze_unix_mode = Some 493, ze_chunks = [Inr ''hi''], ze_utf8 = Inr\<rparr>"

definition demo_extraction :: files where
  "demo_extraction =
     [([''d''], DirNode), ([''a.zip''], FileNode ''PK'' 420), ([''etc''], FileNode ''keep'' 420)]"


section \<open>The limits of a tar archive\<close>

text \<open>A log of the entries that were handed to the unpacker, whatever it answers.\<close>

definition logging :: "(tar_entry \<Rightarrow> tar_entry list \<Rightarrow> error + unit) \<Rightarrow> tar_entry \<Rightarrow> (tar_entry list, unit) io" where
  "logging answer entry log = (answer entry log, log @ [entry])"

lemma logging_eq: "logging answer entry log = (r, log') \<longleftrightarrow> r = answer entry log \<and> log' = log @ [entry]"
  by (auto simp: logging_def)

definition tar_within :: "ArchiveLimits \<Rightarrow> tar_entry list \<Rightarrow> bool" where
  "tar_within limits log \<longleftrightarrow>
     length log \<le> unat (max_entries limits)
     \<and> (\<Sum>entry \<leftarrow> log. unat (te_size entry)) \<le> unat (max_expanded_bytes limits)
     \<and> length (filter (\<lambda>entry. \<not> te_is_dir entry) log) \<le> unat (max_files limits)
     \<and> (\<forall>entry \<in> set log. \<exists>p. te_path entry = Inr p \<and> validate_archive_path p = Inr ())"

lemma unat_Suc_below: "unat (k::u64) \<le> unat (m::u64) \<Longrightarrow> m < - 1 \<Longrightarrow> unat (k + 1) = Suc (unat k)"
  using unat_plus_u64[of k 1] by (simp add: word_less_nat_alt unsigned_minus_1_eq_mask mask_eq_exp_minus_1)

lemma tar_loop_limits:
  assumes "extract_tar_loop stop limits d (logging answer) entries k e f log = (r, log')"
    and "tar_within limits log" "unat k = length log" "unat e = (\<Sum>entry \<leftarrow> log. unat (te_size entry))"
    and "unat f = length (filter (\<lambda>entry. \<not> te_is_dir entry) log)"
    and "max_entries limits < - 1" "max_files limits < - 1"
  shows "tar_within limits log'"
  using assms
proof (induction entries arbitrary: k e f log)
  case (Cons entry entries)
  show ?case
  proof (cases "log' = log")
    case False
    obtain en p expanded where en: "entry = Inr en" "te_path en = Inr p" "validate_archive_path p = Inr ()"
      and k: "k + 1 \<le> max_entries limits"
      and e: "checked_add e (te_size en) = Some expanded" "expanded \<le> max_expanded_bytes limits"
      and f: "te_is_dir en \<or> f + 1 \<le> max_files limits"
      and run: "log' = log @ [en] \<or> extract_tar_loop stop limits d (logging answer) entries (k + 1) expanded
            (if te_is_dir en then f else f + 1) (log @ [en]) = (r, log')"
      using Cons.prems(1) False
      by (auto simp: io_then_def Let_def logging_eq io_context_def io_map_err_def
          split: prod.splits sum.splits if_splits option.splits)
    have sizes: "unat (k + 1) = length (log @ [en])" "unat expanded = (\<Sum>entry \<leftarrow> log @ [en]. unat (te_size entry))"
      "unat (if te_is_dir en then f else f + 1) = length (filter (\<lambda>entry. \<not> te_is_dir entry) (log @ [en]))"
      using Cons.prems(2-) e unat_Suc_below[of k] unat_Suc_below[of f]
      by (auto simp: checked_add_Some tar_within_def)
    have "tar_within limits (log @ [en])"
      using en k e f sizes Cons.prems(2) by (auto simp: tar_within_def word_le_nat_alt)
    with run Cons.IH[OF _ this sizes Cons.prems(6,7)] show ?thesis by blast
  qed (use Cons.prems in simp)
qed simp

text \<open>
  Property C40: the entries of a tar archive that are handed to the unpacker, whether the extraction
  succeeds or not, stay within the limits: at most \<open>max_entries\<close> of them, at most
  \<open>max_files\<close> that are not directories, with declared sizes that add up to at most
  \<open>max_expanded_bytes\<close> (no sum wraps around), and each of them has a validated path.
\<close>

theorem tar_extraction_within_limits:
  assumes "max_entries limits < - 1" "max_files limits < - 1"
    and "extract_tar_loop stop limits d (logging answer) entries 0 0 0 [] = (r, log)"
  shows "tar_within limits log"
  by (rule tar_loop_limits[OF assms(3) _ _ _ _ assms(1,2)]) (simp_all add: tar_within_def)

definition demo_tar_entry :: tar_entry where
  "demo_tar_entry = \<lparr>te_path = Inr (Some ''bin/run''), te_link_name = Inr None, te_size = 3, te_is_dir = False\<rparr>"

theorem tar_extraction_within_limits_witness:
  "\<exists>log. extract_tar_loop (\<lambda>_. False) (ArchiveLimits_default\<lparr>max_files := 1\<rparr>) ''d'' (logging (\<lambda>_ _. Inr ()))
        [Inr demo_tar_entry, Inr demo_tar_entry] 0 0 0 [] = (Inl [''archive file limit exceeded''], log)
     \<and> log = [demo_tar_entry] \<and> tar_within (ArchiveLimits_default\<lparr>max_files := 1\<rparr>) log"
proof -
  have v: "validate_archive_path (Some ''bin/run'') = Inr ()" by code_simp
  have run: "extract_tar_loop (\<lambda>_. False) (ArchiveLimits_default\<lparr>max_files := 1\<rparr>) ''d'' (logging (\<lambda>_ _. Inr ()))
        [Inr demo_tar_entry, Inr demo_tar_entry] 0 0 0 [] = (Inl [''archive file limit exceeded''], [demo_tar_entry])"
    by (simp add: io_then_def demo_tar_entry_def v ArchiveLimits_default_def checked_add_def logging_def Let_def
        io_context_def io_map_err_def bail_def)
  show ?thesis
    by (rule exI, rule conjI[OF run], rule conjI[OF refl], rule tar_extraction_within_limits[OF _ _ run])
      (simp_all add: ArchiveLimits_default_def word_less_nat_alt unsigned_minus_1_eq_mask mask_eq_exp_minus_1)
qed

end
