(* ===== verification/Install.thy ===== *)
theory Install
  imports Install_Log Download Archive
begin

text \<open>
  Installation of a binary distribution: \<open>prepare_staging_directory\<close>
  (\<open>src/src/installer/binary/staging.rs\<close>) and \<open>cache_binary_target_in_mode\<close> with its callers
  (\<open>install.rs\<close>), awaited to their end. The services of the outside world are one record of
  parameters. A directory that a guard owns (\<open>TempDir\<close>, the extraction, the post-extraction
  validation, \<open>PreparedStaging\<close>) is removed on every way out that does not hand it on.
\<close>

record installer =
  in_sha256 :: "string \<Rightarrow> string"
  in_decode :: "string \<Rightarrow> BinaryCacheMetadata option"
  in_encode :: "BinaryCacheMetadata \<Rightarrow> string + string"
  in_web :: web
  in_codecs :: codecs
  in_locks :: lock_service
  in_pid :: nat
  in_nanos :: nat
  in_random :: string
  in_now :: utc_time

section \<open>Preparing a staging directory\<close>

text \<open>The blocking task of \<open>PostExtractionValidation::new\<close>.\<close>

definition post_extraction ::
    "installer \<Rightarrow> cancel \<Rightarrow> path \<Rightarrow> path \<Rightarrow> path \<Rightarrow> BinaryCacheMetadata \<Rightarrow> (world, unit) io" where
  "post_extraction inst cancel executable_path extracted_dir metadata_path metadata =
     io_try (sys_io (sys_metadata executable_path)) (\<lambda>file_metadata.
       if \<not> is_file file_metadata
       then io_result (bail (''downloaded payload does not contain executable '' @ path_display executable_path))
       else
         io_then (io_context (''failed to mark '' @ path_display executable_path @ '' executable'')
                    (make_executable_blocking executable_path)) (\<lambda>_.
         io_then (hash_file_sha256_blocking (in_sha256 inst) cancel executable_path) (\<lambda>digest.
         io_then (hash_payload_sha256_blocking (in_sha256 inst) cancel extracted_dir) (\<lambda>payload.
         io_then (check_extraction_cancelled cancel) (\<lambda>_.
         io_then (io_result (with_context ''failed to encode cached binary metadata'' (map_err (\<lambda>e. [e])
            (in_encode inst (metadata\<lparr>md_executable_sha256 := Some digest, md_payload_sha256 := Some payload\<rparr>)))))
           (\<lambda>metadata_bytes.
         io_then (check_extraction_cancelled cancel) (\<lambda>_.
           sys_context (''failed to write '' @ path_display metadata_path)
             (sys_write metadata_path metadata_bytes))))))))"

text \<open>A guard: when \<open>m\<close> fails the directory is removed.\<close>

definition or_cleanup :: "path \<Rightarrow> (world, 'a) io \<Rightarrow> (world, 'a) io" where
  "or_cleanup dir m =
     io_try m (\<lambda>result w. case result of
       Inr x \<Rightarrow> (Inr x, w)
     | Inl e \<Rightarrow> (Inl e, snd (sys_remove_dir_all dir w)))"

definition prepare_staging_directory ::
    "installer \<Rightarrow> cancel \<Rightarrow> path \<Rightarrow> BinaryTarget \<Rightarrow> BinaryCacheMetadata \<Rightarrow> (world, path) io" where
  "prepare_staging_directory inst cancel staging target metadata =
     (let extracted_dir = staging @ [EXTRACTED_DIR_NAME] in
      io_then (or_cleanup staging
        (io_then (download_archive (in_web inst) (in_sha256 inst) target staging) (\<lambda>archive_path.
         io_then (sys_context (''failed to create '' @ path_display extracted_dir) (sys_create_dir_all extracted_dir))
           (\<lambda>_. io_return archive_path)))) (\<lambda>archive_path.
      io_then (or_cleanup staging
        (extract_archive_with_cleanup (in_codecs inst) archive_path extracted_dir ArchiveLimits_default staging cancel)) (\<lambda>_.
      io_then (or_cleanup staging (io_result (resolve_cmd_path extracted_dir (bt_cmd target)))) (\<lambda>executable_path.
      io_then (or_cleanup staging
        (post_extraction inst cancel executable_path extracted_dir (staging @ [METADATA_FILE_NAME]) metadata)) (\<lambda>_.
        io_return staging)))))"

section \<open>Installing\<close>

text \<open>\<open>tempfile::Builder::tempdir_in\<close> makes a new directory.\<close>

definition sys_make_dir :: "path \<Rightarrow> unit sys" where
  "sys_make_dir p =
     syscall intact
       (\<lambda>fs. if lookup fs (butlast p) \<noteq> Some DirNode then (Inl not_found, fs)
             else if lookup fs p \<noteq> None
             then (Inl \<lparr>io_kind = KAlreadyExists, io_text = ''File exists (os error 17)''\<rparr>, fs)
             else (Inr (), put_node p DirNode fs))"

definition make_staging_dir :: "installer \<Rightarrow> BinaryCachePaths \<Rightarrow> (world, path) io" where
  "make_staging_dir inst paths =
     (let staging = bp_parent_dir paths @ [staging_dir_name (bp_cache_dir paths) (in_random inst)] in
      io_then (sys_context (''failed to create staging directory in '' @ path_display (bp_parent_dir paths))
                 (sys_make_dir staging)) (\<lambda>_. io_return staging))"

definition backup_dir :: "installer \<Rightarrow> BinaryCachePaths \<Rightarrow> path" where
  "backup_dir inst paths =
     bp_parent_dir paths @ [unique_backup_dir_name (in_sha256 inst) (in_pid inst) (in_nanos inst) (bp_cache_dir paths)]"

text \<open>What follows a cache miss, with the publication lock held.\<close>

definition install_fresh ::
    "installer \<Rightarrow> cancel \<Rightarrow> BinaryTarget \<Rightarrow> BinaryCachePaths \<Rightarrow> BinaryCacheMetadata \<Rightarrow> bool
     \<Rightarrow> (world, BinaryCacheLock CachedBinary) io" where
  "install_fresh inst cancel target paths expected force_refresh =
     io_then (make_staging_dir inst paths) (\<lambda>staging.
     io_then (prepare_staging_directory inst cancel staging target expected) (\<lambda>staging.
     io_then (or_cleanup staging (acquire_binary_cache_use_write_lock (in_sha256 inst) (in_locks inst) paths)) (\<lambda>_.
     io_then (promote_prepared_cache
                (\<lambda>p. validate_cached_binary_blocking (in_sha256 inst) (in_decode inst) p expected)
                (backup_dir inst paths) staging paths force_refresh) (\<lambda>cached.
     io_then (acquire_binary_cache_use_read_lock (in_sha256 inst) (in_locks inst) paths) (\<lambda>use_lease.
       io_return (cached\<lparr>cb_cache_use_lease := Some use_lease\<rparr>))))))"

definition cache_binary_target_in_mode ::
    "installer \<Rightarrow> cancel \<Rightarrow> path \<Rightarrow> RegistryAgent \<Rightarrow> Platform \<Rightarrow> BinaryTarget \<Rightarrow> bool
     \<Rightarrow> (world, BinaryCacheLock CachedBinary) io" where
  "cache_binary_target_in_mode inst cancel root_dir agent platform target force_refresh =
     io_then (io_result (ok_or (bt_sha256 target) [''binary target is missing required sha256 checksum''])) (\<lambda>digest.
     io_then (io_result (parse_sha256 digest)) (\<lambda>_.
     let paths = binary_cache_paths_with_digest (in_sha256 inst) root_dir (ra_id agent) (ra_version agent) platform digest;
         expected = BinaryCacheMetadata_new (ra_id agent) (ra_version agent) platform
                      (bt_archive target) (bt_cmd target) (Some digest)
     in io_then (sys_context (''failed to create '' @ path_display (bp_parent_dir paths))
                   (sys_create_dir_all (bp_parent_dir paths))) (\<lambda>_.
        io_then (acquire_binary_cache_lock (in_sha256 inst) (in_locks inst) paths) (\<lambda>_.
        io_then (acquire_binary_cache_use_read_lock (in_sha256 inst) (in_locks inst) paths) (\<lambda>use_lease.
        io_then (validate_cached_binary_blocking (in_sha256 inst) (in_decode inst) paths expected) (\<lambda>cached.
          case cached of
            Some prepared \<Rightarrow> io_return (prepared\<lparr>cb_cache_use_lease := Some use_lease\<rparr>)
          | None \<Rightarrow> install_fresh inst cancel target paths expected force_refresh))))))"

definition cache_binary_target_in ::
    "installer \<Rightarrow> path \<Rightarrow> RegistryAgent \<Rightarrow> Platform \<Rightarrow> BinaryTarget \<Rightarrow> (world, BinaryCacheLock CachedBinary) io" where
  "cache_binary_target_in inst root_dir agent platform target =
     cache_binary_target_in_mode inst never root_dir agent platform target False"

text \<open>Both entry points record the attempt; what the log could not say goes to standard error.\<close>

definition refresh_binary_target_in ::
    "installer \<Rightarrow> path \<Rightarrow> RegistryAgent \<Rightarrow> Platform \<Rightarrow> BinaryTarget \<Rightarrow> (world, BinaryCacheLock CachedBinary) io" where
  "refresh_binary_target_in inst root_dir agent platform target =
     io_try (cache_binary_target_in_mode inst never root_dir agent platform target True) (\<lambda>result w.
       (result, snd (record_install_log_in (in_locks inst) (in_now inst) root_dir agent platform result w)))"

definition cache_binary_target ::
    "installer \<Rightarrow> path option \<Rightarrow> RegistryAgent \<Rightarrow> Platform \<Rightarrow> BinaryTarget \<Rightarrow> (world, BinaryCacheLock CachedBinary) io" where
  "cache_binary_target inst cache_dir agent platform target =
     io_try (io_then (io_result (cache_root_dir cache_dir)) (\<lambda>root_dir.
       cache_binary_target_in inst root_dir agent platform target)) (\<lambda>result w.
       (result, snd (record_install_log (in_locks inst) (in_now inst) cache_dir agent platform result w)))"

section \<open>What is handed out was validated\<close>

text \<open>Validation accepted the entry in a state in which its directory was as it is in \<open>fs\<close>.\<close>

definition was_validated ::
    "(BinaryCachePaths \<Rightarrow> (world, 'l CachedBinary option) io) \<Rightarrow> BinaryCachePaths \<Rightarrow> 'l CachedBinary \<Rightarrow> files \<Rightarrow> bool" where
  "was_validated validate paths c fs \<longleftrightarrow>
     (\<exists>v v'. validate paths v = (Inr (Some c), v')
        \<and> subtree (w_files v) (bp_cache_dir paths) = subtree fs (bp_cache_dir paths))"

lemma was_validatedI:
  assumes "validate paths v = (Inr (Some c), v')" "unchanged_outside ps (w_files v) fs"
    and "\<forall>p\<in>ps. apart p (bp_cache_dir paths)"
  shows "was_validated validate paths c fs"
  using assms unchanged_subtree[OF assms(2,3)] unfolding was_validated_def by metis

lemma preserve_existing_None:
  assumes "preserve_existing validate backup paths replace (t, w) = (Inr None, (t', w'))"
  shows "t' = t\<lparr>pt_backup_dir := Some backup\<rparr>"
  using assms by (auto simp: preserve_existing_def io_then_eq_Inr on_disk_eq update_self_def split: option.splits if_splits)

lemma preserve_existing_Some:
  assumes run: "preserve_existing validate backup paths replace (PromotionTransaction_new staging paths, w) = (Inr (Some c), (t', w'))"
    and reads: "reads_only (validate paths)" and ap: "apart staging (bp_cache_dir paths)"
  shows "was_validated validate paths c (w_files w') \<and> pt_committed t' \<and> pt_staging t' = None"
proof -
  let ?t = "PromotionTransaction_new staging paths"
  from run obtain v w1 where v: "validate paths v = (Inr (Some c), w1)"
    and cl: "\<exists>w2 t2. staging_cleanup (?t, w1) = (Inr (), (t2, w2)) \<and> t' = t2\<lparr>pt_committed := True\<rparr> \<and> w' = w2"
    by (auto simp: preserve_existing_def io_then_eq_Inr on_disk_eq update_self_def split: option.splits if_splits)
  then obtain t2 where c2: "staging_cleanup (?t, w1) = (Inr (), (t2, w'))" "t' = t2\<lparr>pt_committed := True\<rparr>" by blast
  have "staging \<noteq> []" using ap by (simp add: apart_def)
  note u = staging_cleanup_unchanged[OF c2(1) _ this]
  have "unchanged_outside {staging} (w_files w1) (w_files w')" "t2 = ?t\<lparr>pt_staging := None\<rparr>"
    using u by (simp_all add: PromotionTransaction_new_def)
  moreover have "w_files w1 = w_files v" using reads_only_files[OF reads v] .
  ultimately show ?thesis
    using was_validatedI[of validate, OF v, of "{staging}" "w_files w'"] ap c2(2) by simp
qed

lemma drop_backup_unchanged:
  assumes "drop_backup (t, w) = (r, (t', w'))" "pt_backup_dir t \<in> {None, Some b}" "b \<noteq> []"
  shows "unchanged_outside {b} (w_files w) (w_files w')"
  using assms remove_dir_all_unchanged[OF assms(3), of w] by (auto simp: drop_backup_def split: option.splits)

lemma promote_validated:
  assumes reads: "reads_only (validate paths)"
    and ap: "apart staging (bp_cache_dir paths)" "apart backup (bp_cache_dir paths)"
    and run: "promote_prepared_cache validate backup staging paths replace w = (Inr c, w')"
  shows "was_validated validate paths c (w_files w')"
proof -
  let ?t = "PromotionTransaction_new staging paths"
  obtain t w1 where tr: "transaction_run validate backup paths replace (?t, w) = (Inr c, (t, w1))"
    and w': "w' = transaction_drop t w1"
    using run by (auto simp: promote_prepared_cache_def split: prod.splits)
  from tr obtain present w0 s1 kept where
      ex: "on_disk (sys_context (''failed to inspect '' @ path_display (bp_cache_dir paths))
             (sys_try_exists (bp_cache_dir paths))) (?t, w) = (Inr present, (?t, w0))"
    and kept: "(if present then preserve_existing validate backup paths replace else io_return None) (?t, w0) = (Inr kept, s1)"
    and rest: "(case kept of
       Some c \<Rightarrow> io_return c
     | None \<Rightarrow>
         io_then rename_staging (\<lambda>_.
         io_then (update_self (\<lambda>t. t\<lparr>pt_published := True\<rparr>)) (\<lambda>_.
         io_then (on_disk (validate paths)) (\<lambda>cached.
         io_then (io_result (ok_or cached [''published cache failed post-publish validation''])) (\<lambda>c.
         io_then (update_self (\<lambda>t. t\<lparr>pt_committed := True, pt_staging := None\<rparr>)) (\<lambda>_.
         io_then drop_backup (\<lambda>_. io_return c))))))) s1 = (Inr c, (t, w1))"
    by (auto simp: transaction_run_def io_then_eq_Inr on_disk_eq)
  show ?thesis
  proof (cases kept)
    case (Some c0)
    with rest have "c0 = c" "s1 = (t, w1)" by simp_all
    with kept Some have "preserve_existing validate backup paths replace (?t, w0) = (Inr (Some c), (t, w1))"
      by (auto split: if_splits)
    from preserve_existing_Some[OF this reads ap(1)] show ?thesis
      by (simp add: w' transaction_drop_def staging_drop_def)
  next
    case None
    obtain t1 v0 where s1: "s1 = (t1, v0)" by force
    have "pt_backup_dir t1 \<in> {None, Some backup}"
      using kept None s1 preserve_existing_None[of validate backup paths replace ?t w0 t1 v0]
      by (auto simp: PromotionTransaction_new_def split: if_splits)
    moreover from rest None s1 obtain v v' t2 where
        v: "validate paths v = (Inr (Some c), v')"
      and d: "drop_backup (t2, v') = (Inr (), (t, w1))"
      and t2: "t2 = t1\<lparr>pt_published := True, pt_committed := True, pt_staging := None\<rparr>"
      by (auto simp: io_then_eq_Inr on_disk_eq update_self_def rename_staging_def split: option.splits)
    ultimately have "unchanged_outside {backup} (w_files v') (w_files w1)"
      using ap(2) by (intro drop_backup_unchanged[OF d]) (auto simp: apart_def)
    moreover have "pt_committed t" "pt_staging t = None"
      using d t2 by (auto simp: drop_backup_def)
    ultimately show ?thesis
      using was_validatedI[of validate, OF v, of "{backup}" "w_files w1"] reads_only_files[OF reads v] ap(2)
      by (simp add: w' transaction_drop_def staging_drop_def)
  qed
qed

section \<open>An installed binary is a validated one\<close>

lemma lock_files_apart:
  assumes "paths = binary_cache_paths_with_digest sha256 root agent version platform digest" "q \<in> lock_files sha256 paths"
  shows "apart q (bp_cache_dir paths)"
proof -
  let ?n = "safe_path_component sha256 (version @ ''-sha256-'' @ to_ascii_lowercase digest)"
  have "safe_path_component sha256 ?n = ?n"
    by (intro safe_component_fixed safe_path_component_safe)
  with assms show ?thesis
    by (auto simp: lock_files_def binary_cache_lock_path_def binary_cache_use_lock_path_def file_name_def
        binary_cache_paths_with_digest_def binary_cache_paths_def Let_def apart_def)
qed

lemma work_dirs_apart:
  assumes "paths = binary_cache_paths_with_digest (in_sha256 inst) root agent version platform digest"
  shows "apart (bp_parent_dir paths @ [staging_dir_name (bp_cache_dir paths) (in_random inst)]) (bp_cache_dir paths)"
    and "apart (backup_dir inst paths) (bp_cache_dir paths)"
proof -
  let ?n = "safe_path_component (in_sha256 inst) (version @ ''-sha256-'' @ to_ascii_lowercase digest)"
  have "?n \<noteq> CHR ''.'' # x" for x
    using safe_path_component_safe[of "in_sha256 inst" "version @ ''-sha256-'' @ to_ascii_lowercase digest"]
    by (auto simp: safe_component_def)
  with assms show "apart (bp_parent_dir paths @ [staging_dir_name (bp_cache_dir paths) (in_random inst)]) (bp_cache_dir paths)"
    "apart (backup_dir inst paths) (bp_cache_dir paths)"
    by (auto simp: binary_cache_paths_with_digest_def binary_cache_paths_def Let_def apart_def
        staging_dir_name_def backup_dir_def unique_backup_dir_name_def unique_work_dir_name_def; metis)+
qed

lemma read_lease_Inr:
  assumes "acquire_binary_cache_use_read_lock sha256 locks paths w = (Inr l, w')"
  shows "l = \<lparr>bl_path = binary_cache_use_lock_path sha256 paths, bl_mode = Read\<rparr>"
  using assms acquire_Inr
  by (auto simp: acquire_binary_cache_use_read_lock_def required_lock_def io_then_eq_Inr split: option.splits)

lemma was_validated_lock:
  assumes val: "was_validated validate paths c (w_files w)"
    and lock: "acquire_binary_cache_use_read_lock sha256 locks paths w = (r, w')"
    and ap: "\<And>q. q \<in> lock_files sha256 paths \<Longrightarrow> apart q (bp_cache_dir paths)"
  shows "was_validated validate paths c (w_files w')"
proof -
  have "adds_files (lock_files sha256 paths) w w'"
    by (rule io_keepsD[OF lock_requests_add_lock_files(2) lock])
  then have "unchanged_outside (lock_files sha256 paths) (w_files w) (w_files w')"
    by (fastforce simp: adds_files_def unchanged_outside_def)
  then have "subtree (w_files w') (bp_cache_dir paths) = subtree (w_files w) (bp_cache_dir paths)"
    by (rule unchanged_subtree) (simp add: ap)
  with val show ?thesis by (simp add: was_validated_def)
qed

lemma or_cleanup_Inr [simp]: "or_cleanup d m w = (Inr x, w') \<longleftrightarrow> m w = (Inr x, w')"
  by (auto simp: or_cleanup_def io_try_def split: prod.splits sum.splits)

lemma prepared_path:
  "prepare_staging_directory inst cancel staging target metadata w = (Inr s, w') \<Longrightarrow> s = staging"
  by (auto simp: prepare_staging_directory_def Let_def io_then_eq_Inr)

lemma installation_validates:
  assumes "cache_binary_target_in_mode inst cancel root agent platform target force w = (Inr c, w')"
  shows "\<exists>digest paths c0. bt_sha256 target = Some digest
     \<and> paths = binary_cache_paths_with_digest (in_sha256 inst) root (ra_id agent) (ra_version agent) platform digest
     \<and> was_validated (\<lambda>p. validate_cached_binary_blocking (in_sha256 inst) (in_decode inst) p
           (BinaryCacheMetadata_new (ra_id agent) (ra_version agent) platform (bt_archive target) (bt_cmd target) (Some digest)))
         paths c0 (w_files w')
     \<and> c = c0\<lparr>cb_cache_use_lease := Some \<lparr>bl_path = binary_cache_use_lock_path (in_sha256 inst) paths, bl_mode = Read\<rparr>\<rparr>"
proof -
  let ?paths = "\<lambda>digest. binary_cache_paths_with_digest (in_sha256 inst) root (ra_id agent) (ra_version agent) platform digest"
  let ?expected = "\<lambda>digest. BinaryCacheMetadata_new (ra_id agent) (ra_version agent) platform (bt_archive target) (bt_cmd target) (Some digest)"
  obtain digest w0 w1 w2 lease cached where digest: "bt_sha256 target = Some digest"
    and lease: "acquire_binary_cache_use_read_lock (in_sha256 inst) (in_locks inst) (?paths digest) w0 = (Inr lease, w1)"
    and val: "validate_cached_binary_blocking (in_sha256 inst) (in_decode inst) (?paths digest) (?expected digest) w1 = (Inr cached, w2)"
    and rest: "(case cached of
            Some prepared \<Rightarrow> io_return (prepared\<lparr>cb_cache_use_lease := Some lease\<rparr>)
          | None \<Rightarrow> install_fresh inst cancel target (?paths digest) (?expected digest) force) w2 = (Inr c, w')"
    using assms by (auto simp: cache_binary_target_in_mode_def Let_def io_then_eq_Inr)
  let ?p = "?paths digest" and ?v = "\<lambda>p. validate_cached_binary_blocking (in_sha256 inst) (in_decode inst) p (?expected digest)"
  have ap: "q \<in> lock_files (in_sha256 inst) ?p \<Longrightarrow> apart q (bp_cache_dir ?p)" for q
    using lock_files_apart[OF refl] .
  have "\<exists>c0 l v. was_validated ?v ?p c0 (w_files w') \<and> c = c0\<lparr>cb_cache_use_lease := Some l\<rparr>
      \<and> (\<exists>v'. acquire_binary_cache_use_read_lock (in_sha256 inst) (in_locks inst) ?p v = (Inr l, v'))"
  proof (cases cached)
    case (Some c0)
    then have "w' = w2" "c = c0\<lparr>cb_cache_use_lease := Some lease\<rparr>" using rest by auto
    moreover have "was_validated ?v ?p c0 (w_files w2)"
      unfolding was_validated_def using val Some reads_only_files[OF reads_only_validate val] by auto
    ultimately show ?thesis using lease by blast
  next
    case None
    with rest obtain staging w3 w4 c0 w5 l where
        staging: "staging = bp_parent_dir ?p @ [staging_dir_name (bp_cache_dir ?p) (in_random inst)]"
      and prom: "promote_prepared_cache ?v (backup_dir inst ?p) staging ?p force w3 = (Inr c0, w4)"
      and l: "acquire_binary_cache_use_read_lock (in_sha256 inst) (in_locks inst) ?p w4 = (Inr l, w5)"
      and fin: "c = c0\<lparr>cb_cache_use_lease := Some l\<rparr>" "w' = w5"
      by (fastforce simp: install_fresh_def make_staging_dir_def Let_def io_then_eq_Inr dest: prepared_path)
    have "was_validated ?v ?p c0 (w_files w4)"
      by (rule promote_validated[OF reads_only_validate _ _ prom])
        (simp_all add: staging work_dirs_apart[OF refl])
    from was_validated_lock[OF this l ap] fin l show ?thesis by blast
  qed
  then show ?thesis using digest read_lease_Inr by blast
qed

text \<open>
  Property C1: an installation that succeeds, whatever calls failed on its way, hands out a binary
  that validation has accepted for the requested target (identity, recorded digests of the
  command and of the complete payload), in a state in which the directory of the cache entry was
  exactly as it is when the installation returns; and it hands it out with a read lease on that entry.
\<close>

theorem installed_binary_is_validated:
  assumes "cache_binary_target_in_mode inst cancel root agent platform target force w = (Inr c, w')"
  shows "\<exists>digest paths c0. bt_sha256 target = Some digest
     \<and> paths = binary_cache_paths_with_digest (in_sha256 inst) root (ra_id agent) (ra_version agent) platform digest
     \<and> was_validated (\<lambda>p. validate_cached_binary_blocking (in_sha256 inst) (in_decode inst) p
           (BinaryCacheMetadata_new (ra_id agent) (ra_version agent) platform (bt_archive target) (bt_cmd target) (Some digest)))
         paths c0 (w_files w')
     \<and> c = c0\<lparr>cb_cache_use_lease := Some \<lparr>bl_path = binary_cache_use_lock_path (in_sha256 inst) paths, bl_mode = Read\<rparr>\<rparr>"
  by (rule installation_validates[OF assms])

section \<open>A valid entry is used as it is\<close>

definition grants_locks :: "lock_service \<Rightarrow> bool" where
  "grants_locks locks \<longleftrightarrow> (\<forall>mode p n. lock_answer locks mode p n = Inr True) \<and> (\<forall>n. \<not> worker_lost locks n)"

lemma lock_granted:
  assumes "grants_locks locks" "lookup fs (butlast p) = Some DirNode" "lookup fs p = Some (FileNode b m)"
  shows "yields (acquire_cache_lock locks p mode name) fs (Some \<lparr>bl_path = p, bl_mode = mode\<rparr>)"
  using assms
  by (auto simp: yields_def acquire_cache_lock_def grants_locks_def io_try_def sys_io_def sys_open_create_def
      syscall_def calm_def)

lemma dirs_there: "anchored fs p \<Longrightarrow> yields (sys_io (sys_create_dir_all p)) fs ()"
proof -
  assume p: "anchored fs p"
  have "make_dirs (map (\<lambda>n. take n p) ns) fs = (Inr (), fs)" for ns
    using p by (induction ns) (simp_all add: anchored_def)
  then show ?thesis
    by (auto simp: yields_def sys_create_dir_all_def sys_io_def syscall_def calm_def)
qed

definition entry_paths :: "installer \<Rightarrow> path \<Rightarrow> RegistryAgent \<Rightarrow> Platform \<Rightarrow> string \<Rightarrow> BinaryCachePaths" where
  "entry_paths inst root agent platform digest =
     binary_cache_paths_with_digest (in_sha256 inst) root (ra_id agent) (ra_version agent) platform digest"

definition entry_identity :: "RegistryAgent \<Rightarrow> Platform \<Rightarrow> BinaryTarget \<Rightarrow> string \<Rightarrow> BinaryCacheMetadata" where
  "entry_identity agent platform target digest =
     BinaryCacheMetadata_new (ra_id agent) (ra_version agent) platform (bt_archive target) (bt_cmd target) (Some digest)"

text \<open>A cache in which the entry is valid and the lock files are in place, as an installation leaves them.\<close>

definition entry_ready ::
    "installer \<Rightarrow> files \<Rightarrow> BinaryCachePaths \<Rightarrow> BinaryCacheMetadata \<Rightarrow> path \<Rightarrow> bool" where
  "entry_ready inst fs paths expected exe \<longleftrightarrow>
     wf_files fs \<and> anchored fs (bp_parent_dir paths)
     \<and> (\<forall>p\<in>lock_files (in_sha256 inst) paths. \<exists>b m. lookup fs p = Some (FileNode b m))
     \<and> (\<exists>t md. tree_at fs (bp_extracted_dir paths) t \<and> sized [] t
          \<and> entry_valid (in_sha256 inst) (in_decode inst) fs paths expected t md exe)"

lemma valid_entry_hit:
  assumes digest: "bt_sha256 target = Some digest" "parse_sha256 digest = Inr d" and locks: "grants_locks (in_locks inst)"
    and ready: "entry_ready inst fs (entry_paths inst root agent platform digest) (entry_identity agent platform target digest) exe"
  shows "yields (cache_binary_target_in_mode inst cancel root agent platform target force) fs
     ((cached_at (entry_paths inst root agent platform digest) exe)
        \<lparr>cb_cache_use_lease := Some \<lparr>bl_path = binary_cache_use_lock_path (in_sha256 inst) (entry_paths inst root agent platform digest),
           bl_mode = Read\<rparr>\<rparr>)"
proof -
  let ?p = "entry_paths inst root agent platform digest"
  from ready obtain t md where anch: "anchored fs (bp_parent_dir ?p)" and wf: "wf_files fs"
    and files: "\<And>q. q \<in> lock_files (in_sha256 inst) ?p \<Longrightarrow> \<exists>b m. lookup fs q = Some (FileNode b m)"
    and entry: "tree_at fs (bp_extracted_dir ?p) t" "sized [] t"
      "entry_valid (in_sha256 inst) (in_decode inst) fs ?p (entry_identity agent platform target digest) t md exe"
    unfolding entry_ready_def by blast
  have "lookup fs (take (length (bp_parent_dir ?p)) (bp_parent_dir ?p)) = Some DirNode"
    using anch unfolding anchored_def by blast
  then have home: "lookup fs (bp_parent_dir ?p) = Some DirNode" by simp
  have lock: "yields (required_lock n (acquire_cache_lock (in_locks inst) q mode n)) fs \<lparr>bl_path = q, bl_mode = mode\<rparr>"
    if "q \<in> lock_files (in_sha256 inst) ?p" for q mode n
  proof -
    have "butlast q = bp_parent_dir ?p"
      using that by (auto simp: lock_files_def binary_cache_lock_path_def binary_cache_use_lock_path_def)
    moreover from files[OF that] obtain b m where "lookup fs q = Some (FileNode b m)" by blast
    ultimately have "yields (acquire_cache_lock (in_locks inst) q mode n) fs (Some \<lparr>bl_path = q, bl_mode = mode\<rparr>)"
      using home by (intro lock_granted[OF locks]) simp_all
    then show ?thesis unfolding required_lock_def by (rule yields_then) (simp add: yields_intros)
  qed
  have cache_lock: "yields (acquire_binary_cache_lock (in_sha256 inst) (in_locks inst) ?p) fs
      \<lparr>bl_path = binary_cache_lock_path (in_sha256 inst) ?p, bl_mode = Write\<rparr>"
    and use_lock: "yields (acquire_binary_cache_use_read_lock (in_sha256 inst) (in_locks inst) ?p) fs
      \<lparr>bl_path = binary_cache_use_lock_path (in_sha256 inst) ?p, bl_mode = Read\<rparr>"
    unfolding acquire_binary_cache_lock_def acquire_binary_cache_use_read_lock_def
    by (rule lock, simp add: lock_files_def)+
  note steps = yields_sys_context[OF dirs_there[OF anch]] cache_lock use_lock validate_complete[OF wf entry]
  have "yields (io_result (ok_or (bt_sha256 target) e)) fs digest" "yields (io_result (parse_sha256 digest)) fs d" for e
    using digest by (simp_all add: yields_intros)
  note steps = this steps
  show ?thesis
    unfolding cache_binary_target_in_mode_def Let_def entry_paths_def[symmetric] entry_identity_def[symmetric]
    by (rule yields_then[OF steps(1)], rule yields_then[OF steps(2)], rule yields_then[OF steps(3)],
        rule yields_then[OF steps(4)], rule yields_then[OF steps(5)], rule yields_then[OF steps(6)], simp add: yields_return)
qed


section \<open>A demonstration: an entry that is found in the cache\<close>

definition demo_key :: string where
  "demo_key = ''1-sha256-'' @ replicate 64 (CHR ''0'')"

definition demo_root :: path where
  "demo_root = [''acp-agent'']"

definition demo_home :: path where
  "demo_home = [''acp-agent'', ''agents'', ''a'', ''linux-x86_64'']"

definition demo_binaries :: BinaryDistribution where
  "demo_binaries =
     \<lparr>darwin_aarch64 = None, darwin_x86_64 = None, linux_aarch64 = None, linux_x86_64 = Some demo_target\<rparr>"

definition demo_agent :: RegistryAgent where
  "demo_agent = \<lparr>ra_id = ''a'', ra_name = ''A'', ra_version = ''1'', ra_description = [], ra_repository = None,
     ra_website = None, ra_authors = [], ra_license = [], ra_icon = None,
     ra_distribution = \<lparr>ad_binary = Some demo_binaries, ad_npx = None, ad_uvx = None\<rparr>\<rparr>"

definition demo_record :: BinaryCacheMetadata where
  "demo_record =
     (BinaryCacheMetadata_new ''a'' ''1'' LinuxX86_64 ''u'' ''c'' (Some (replicate 64 (CHR ''0''))))
       \<lparr>md_executable_sha256 := Some (hex_encode (rev ''run'')),
        md_payload_sha256 := Some (hex_encode (rev (payload_header @ tree_bytes [] (TDir [(''c'', TFile ''run'')]))))\<rparr>"

definition demo_installer :: installer where
  "demo_installer =
     \<lparr>in_sha256 = rev, in_decode = (\<lambda>_. Some demo_record), in_encode = (\<lambda>_. Inr ''{}''), in_web = demo_web,
      in_codecs = \<lparr>gunzip = id, bunzip = id, tar_list = (\<lambda>_. Inr []), tar_unpack = (\<lambda>_ _. io_return ()),
        zip_list = (\<lambda>_. Inr []), file_chunks = (\<lambda>_. [])\<rparr>,
      in_locks = free_locks, in_pid = 1, in_nanos = 1, in_random = ''x'',
      in_now = \<lparr>ut_year = 2025, ut_month = 1, ut_day = 2, ut_hour = 3, ut_minute = 4, ut_second = 5\<rparr>\<rparr>"

definition demo_installed :: files where
  "demo_installed =
     [(demo_root, DirNode), ([''acp-agent'', ''agents''], DirNode), ([''acp-agent'', ''agents'', ''a''], DirNode),
      (demo_home, DirNode), (demo_home @ [demo_key @ ''-cache.lock''], FileNode [] 420),
      (demo_home @ [demo_key @ ''-cache.use.lock''], FileNode [] 420),
      (demo_home @ [demo_key], DirNode),
      (demo_home @ [demo_key, ''metadata.json''], FileNode ''{}'' 420),
      (demo_home @ [demo_key, ''extracted''], DirNode),
      (demo_home @ [demo_key, ''extracted'', ''c''], FileNode ''run'' 493)]"

lemma demo_key_facts:
  "safe_path_component rev demo_key = demo_key" "demo_key \<noteq> []" "CHR ''/'' \<notin> set demo_key"
  "hd demo_key = CHR ''1''" "''1-sha256-'' @ to_ascii_lowercase (replicate 64 (CHR ''0'')) = demo_key"
proof -
  have "safe_component demo_key" by code_simp
  then show "safe_path_component rev demo_key = demo_key" by (rule safe_component_fixed)
  show "demo_key \<noteq> []" "hd demo_key = CHR ''1''" by (simp_all add: demo_key_def)
  show "CHR ''/'' \<notin> set demo_key" by code_simp
  show "''1-sha256-'' @ to_ascii_lowercase (replicate 64 (CHR ''0'')) = demo_key" by code_simp
qed

lemma demo_installed_paths:
  "binary_cache_paths_with_digest rev demo_root ''a'' ''1'' LinuxX86_64 (replicate 64 (CHR ''0'')) =
     \<lparr>bp_root_dir = demo_root, bp_parent_dir = demo_home, bp_cache_dir = demo_home @ [demo_key],
      bp_extracted_dir = demo_home @ [demo_key, ''extracted''],
      bp_metadata_path = demo_home @ [demo_key, ''metadata.json'']\<rparr>"
proof -
  have "safe_path_component rev ''a'' = ''a''" by code_simp
  then show ?thesis
    using demo_key_facts(1,5)
    by (simp add: binary_cache_paths_with_digest_def binary_cache_paths_def Let_def demo_home_def demo_root_def AGENTS_DIR_def
        platform_cache_key_def EXTRACTED_DIR_NAME_def METADATA_FILE_NAME_def)
qed

lemma demo_installed_wf: "wf_files demo_installed"
proof -
  have plain: "plain_name (demo_key @ x)" if "CHR ''/'' \<notin> set x" for x
  proof -
    have "demo_key @ x \<noteq> CHR ''.'' # z" for z
    proof
      assume "demo_key @ x = CHR ''.'' # z"
      moreover have "hd (demo_key @ x) = CHR ''1''" using demo_key_facts(2,4) by simp
      ultimately show False by simp
    qed
    then show ?thesis using demo_key_facts(2,3) that by (auto simp: plain_name_def)
  qed
  have "plain_name demo_key" "plain_name (demo_key @ ''-cache.lock'')" "plain_name (demo_key @ ''-cache.use.lock'')"
    using plain[of "[]"] plain by auto
  then show ?thesis
    by (simp add: wf_files_def demo_installed_def demo_home_def demo_root_def lookup_def plain_name_def)
qed

lemma demo_installed_lookup:
  "lookup demo_installed demo_home = Some DirNode"
  "lookup demo_installed (demo_home @ [demo_key @ ''-cache.lock'']) = Some (FileNode [] 420)"
  "lookup demo_installed (demo_home @ [demo_key @ ''-cache.use.lock'']) = Some (FileNode [] 420)"
  "lookup demo_installed (demo_home @ [demo_key, ''metadata.json'']) = Some (FileNode ''{}'' 420)"
  "lookup demo_installed (demo_home @ [demo_key, ''extracted'', ''c'']) = Some (FileNode ''run'' 493)"
  by (simp_all add: demo_installed_def demo_home_def demo_root_def lookup_def)

lemma demo_installed_tree:
  "tree_at demo_installed (demo_home @ [demo_key, ''extracted'']) (TDir [(''c'', TFile ''run'')])"
  by (simp add: demo_installed_def demo_home_def demo_root_def lookup_def child_names_def sort_key_def)

lemma demo_entry_ready:
  "entry_ready demo_installer demo_installed
     (entry_paths demo_installer demo_root demo_agent LinuxX86_64 (replicate 64 (CHR ''0'')))
     (entry_identity demo_agent LinuxX86_64 demo_target (replicate 64 (CHR ''0''))) (demo_home @ [demo_key, ''extracted'', ''c''])"
proof -
  have s: "stat demo_installed (demo_home @ [demo_key, ''metadata.json'']) = Some (FileNode ''{}'' 420)"
    "stat demo_installed (demo_home @ [demo_key, ''extracted'', ''c'']) = Some (FileNode ''run'' 493)"
    by (rule stat_plain[OF demo_installed_wf]; simp add: demo_installed_lookup)+
  have c: "resolve_cmd_path d ''c'' = Inr (d @ [''c''])" for d
  proof -
    have "path_components ''c'' = [Normal ''c'']" "trim ''c'' = ''c''" by code_simp+
    then show ?thesis by (simp add: resolve_cmd_path_def Let_def plain_name_def)
  qed
  have paths: "entry_paths demo_installer demo_root demo_agent LinuxX86_64 (replicate 64 (CHR ''0'')) =
     \<lparr>bp_root_dir = demo_root, bp_parent_dir = demo_home, bp_cache_dir = demo_home @ [demo_key],
      bp_extracted_dir = demo_home @ [demo_key, ''extracted''],
      bp_metadata_path = demo_home @ [demo_key, ''metadata.json'']\<rparr>" (is "_ = ?paths")
    using demo_installed_paths by (simp add: entry_paths_def demo_installer_def demo_agent_def)
  have locks: "lock_files rev ?paths = {demo_home @ [demo_key @ ''-cache.lock''], demo_home @ [demo_key @ ''-cache.use.lock'']}"
    by (simp add: lock_files_def binary_cache_lock_path_def binary_cache_use_lock_path_def file_name_def demo_key_facts)
  have anch: "anchored demo_installed demo_home"
  proof -
    have "lookup demo_installed (take n demo_home) = Some DirNode" for n
      by (cases n; cases "n - 1"; cases "n - 2"; cases "n - 3"; simp add: demo_installed_def demo_home_def demo_root_def lookup_def)
    then show ?thesis by (simp add: anchored_def)
  qed
  have "entry_valid rev (\<lambda>_. Some demo_record) demo_installed ?paths
     (entry_identity demo_agent LinuxX86_64 demo_target (replicate 64 (CHR ''0'')))
     (TDir [(''c'', TFile ''run'')]) demo_record (demo_home @ [demo_key, ''extracted'', ''c''])"
    unfolding entry_valid_def BinaryCachePaths.simps
    by (rule exI[of _ "''{}''"], rule exI[of _ 420], rule exI[of _ "''run''"], rule exI[of _ 493])
      (simp add: s c same_identity_def recorded_ok_def demo_record_def BinaryCacheMetadata_new_def entry_identity_def
        demo_agent_def demo_target_def)
  then have valid: "entry_valid (in_sha256 demo_installer) (in_decode demo_installer) demo_installed ?paths
     (entry_identity demo_agent LinuxX86_64 demo_target (replicate 64 (CHR ''0'')))
     (TDir [(''c'', TFile ''run'')]) demo_record (demo_home @ [demo_key, ''extracted'', ''c''])"
    by (simp add: demo_installer_def)
  have sized: "sized [] (TDir [(''c'', TFile ''run'')])" by (simp add: path_join_def plain_name_def)
  have sha: "in_sha256 demo_installer = rev" by (simp add: demo_installer_def)
  show ?thesis
    unfolding entry_ready_def paths
    by (intro conjI exI[of _ "TDir [(''c'', TFile ''run'')]"] exI[of _ demo_record] valid demo_installed_wf sized,
        simp only: BinaryCachePaths.simps anch, simp add: sha locks demo_installed_lookup(2,3),
        simp only: BinaryCachePaths.simps demo_installed_tree)
qed

lemma demo_digest: "parse_sha256 (replicate 64 (CHR ''0'')) = Inr (replicate 32 (CHR 0x00))"
  "bt_sha256 demo_target = Some (replicate 64 (CHR ''0''))" "grants_locks (in_locks demo_installer)"
  by code_simp (simp_all add: demo_target_def demo_installer_def free_locks_def grants_locks_def)

lemma demo_install_hit:
  "\<exists>c w'. cache_binary_target_in_mode demo_installer never demo_root demo_agent LinuxX86_64 demo_target force
      (calm_world demo_installed) = (Inr c, w') \<and> w_files w' = demo_installed"
  using valid_entry_hit[OF demo_digest(2,1,3) demo_entry_ready, of never force]
  unfolding yields_def by (meson calm_world_simps)

theorem installed_binary_is_validated_witness:
  "\<exists>c w' paths (c0 :: BinaryCacheLock CachedBinary). cache_binary_target_in_mode demo_installer never demo_root demo_agent LinuxX86_64 demo_target False
      (calm_world demo_installed) = (Inr c, w')
    \<and> was_validated (\<lambda>p. validate_cached_binary_blocking rev (\<lambda>_. Some demo_record) p
         (BinaryCacheMetadata_new ''a'' ''1'' LinuxX86_64 ''u'' ''c'' (Some (replicate 64 (CHR ''0'')))))
         paths c0 (w_files w')"
proof -
  obtain c w' where run: "cache_binary_target_in_mode demo_installer never demo_root demo_agent LinuxX86_64 demo_target False
      (calm_world demo_installed) = (Inr c, w')" using demo_install_hit by blast
  from installed_binary_is_validated[OF run] show ?thesis
    using run by (auto simp: demo_installer_def demo_agent_def demo_target_def)
qed


section \<open>What prepares an entry makes it valid\<close>

fun without_mode :: "node \<Rightarrow> node" where
  "without_mode (FileNode b _) = FileNode b 0"
| "without_mode n = n"

lemma without_mode_iff [simp]:
  "without_mode n = DirNode \<longleftrightarrow> n = DirNode" "without_mode n = LinkNode t \<longleftrightarrow> n = LinkNode t"
  "without_mode n = OtherNode k \<longleftrightarrow> n = OtherNode k" "without_mode n = FileNode b m \<longleftrightarrow> m = 0 \<and> (\<exists>m'. n = FileNode b m')"
  by (cases n; auto)+

text \<open>The same files, but for their modes.\<close>

definition same_contents :: "files \<Rightarrow> files \<Rightarrow> path \<Rightarrow> bool" where
  "same_contents fs fs' d \<longleftrightarrow>
     (\<forall>q. map_option without_mode (lookup fs' (d @ q)) = map_option without_mode (lookup fs (d @ q)))"

lemma same_contents_look:
  assumes "same_contents fs fs' d"
  shows "lookup fs' (d @ q) = None \<longleftrightarrow> lookup fs (d @ q) = None"
    "lookup fs' (d @ q) = Some DirNode \<longleftrightarrow> lookup fs (d @ q) = Some DirNode"
    "lookup fs' (d @ q) = Some (LinkNode t) \<longleftrightarrow> lookup fs (d @ q) = Some (LinkNode t)"
    "lookup fs' (d @ q) = Some (OtherNode k) \<longleftrightarrow> lookup fs (d @ q) = Some (OtherNode k)"
    "(\<exists>m. lookup fs' (d @ q) = Some (FileNode b m)) \<longleftrightarrow> (\<exists>m. lookup fs (d @ q) = Some (FileNode b m))"
  using spec[OF assms[unfolded same_contents_def], of q]
  by (cases "lookup fs' (d @ q)"; cases "lookup fs (d @ q)";
      cases "the (lookup fs' (d @ q))"; cases "the (lookup fs (d @ q))"; auto)+

lemma same_contents_below: "same_contents fs fs' d \<Longrightarrow> same_contents fs fs' (d @ e)"
  by (simp add: same_contents_def)

lemma sorted_children_same:
  assumes "wf_files fs" "wf_files fs'" "same_contents fs fs' d"
  shows "sort (child_names fs' d) = sort (child_names fs d)"
proof -
  have "set (child_names fs' d) = set (child_names fs d)"
    using child_names_iff[OF assms(1)] child_names_iff[OF assms(2)] same_contents_look(1)[OF assms(3)] by blast
  then show ?thesis by (intro sorted_distinct_set_unique) simp_all
qed

lemma tree_at_same_contents:
  assumes wf': "wf_files fs'"
  shows "wf_files fs \<Longrightarrow> same_contents fs fs' d \<Longrightarrow> tree_at fs d t \<Longrightarrow> tree_at fs' d t"
proof (induction fs d t rule: tree_at.induct)
  case (1 fs p es)
  have "tree_at fs' (p @ [name]) t" if "(name, t) \<in> set es" for name t
    using "1.IH"[OF that refl "1.prems"(1) same_contents_below[OF "1.prems"(2)]] "1.prems"(3) that
    by (auto simp: list_all_iff)
  moreover have "lookup fs' p = Some DirNode"
    using same_contents_look(2)[OF "1.prems"(2), of "[]"] "1.prems"(3) by simp
  ultimately show ?case
    using sorted_children_same[OF "1.prems"(1) wf' "1.prems"(2)] "1.prems"(3) by (auto simp: list_all_iff)
next
  case (2 fs p content)
  then show ?case using same_contents_look(5)[OF 2(2), of "[]" content] by (auto split: option.splits node.splits)
next
  case (3 fs p target)
  then show ?case using same_contents_look(3)[OF 3(2), of "[]" target] by simp
next
  case (4 fs p len)
  then show ?case using same_contents_look(4)[OF 4(2), of "[]" len] by simp
qed

lemma wf_put_node:
  assumes wf: "wf_files fs" and p: "p \<noteq> []" "list_all plain_name p" "lookup fs (butlast p) = Some DirNode"
    and kind: "lookup fs p \<noteq> Some DirNode"
  shows "wf_files (put_node p n fs)"
proof -
  have dirs: "lookup (put_node p n fs) q = Some DirNode" if "lookup fs q = Some DirNode" for q
    using that kind p(1) by (auto simp: lookup_put_node)
  have "set (put_node p n fs) \<subseteq> insert (p, n) (set fs)"
    by (auto simp: put_node_def alist_put_def alist_del_def)
  then have "(q, m) = (p, n) \<or> (q, m) \<in> set fs" if "(q, m) \<in> set (put_node p n fs)" for q m
    using that by blast
  moreover have "q \<noteq> [] \<and> list_all plain_name q \<and> lookup (put_node p n fs) (butlast q) = Some DirNode"
    if "(q, m) \<in> set fs" for q m
    using wf that dirs by (auto simp: wf_files_def list_all_iff)
  moreover have "p \<noteq> [] \<and> list_all plain_name p \<and> lookup (put_node p n fs) (butlast p) = Some DirNode"
    using p dirs by simp
  ultimately show ?thesis unfolding wf_files_def list_all_iff by blast
qed

text \<open>Resolution looks at the kinds of nodes only, and what is there is found again in a larger store.\<close>

lemma resolve_grows:
  "resolve fs n acc cs = Some r \<Longrightarrow>
     \<forall>q x. lookup fs q = Some x \<longrightarrow> (\<exists>y. lookup fs' q = Some y \<and> without_mode y = without_mode x) \<Longrightarrow>
     resolve fs' n acc cs = Some r"
proof (induction fs n acc cs rule: resolve.induct)
  case (2 fs n acc c cs)
  show ?case
  proof (cases "c = [] \<or> c = ''.'' \<or> c = ''..''")
    case True
    with 2 show ?thesis by auto
  next
    case plain: False
    then obtain x where x: "lookup fs (acc @ [c]) = Some x" using "2.prems"(1) by (auto split: option.splits)
    with "2.prems"(2) obtain y where y: "lookup fs' (acc @ [c]) = Some y" "without_mode y = without_mode x" by blast
    show ?thesis
    proof (cases x)
      case (LinkNode t)
      then have "y = LinkNode t" using y(2) by simp
      with 2 plain x y LinkNode show ?thesis by (auto split: if_splits)
    next
      case DirNode
      then have "y = DirNode" using y(2) by simp
      with 2 plain x y DirNode show ?thesis by (auto split: if_splits)
    next
      case (FileNode b m)
      then obtain m' where "y = FileNode b m'" using y(2) by (cases y) auto
      with 2 plain x y FileNode show ?thesis by (auto split: if_splits)
    next
      case (OtherNode k)
      then have "y = OtherNode k" using y(2) by simp
      with 2 plain x y OtherNode show ?thesis by (auto split: if_splits)
    qed
  qed
qed simp

lemma put_same_contents:
  assumes "lookup fs q = Some (FileNode b k)"
  shows "same_contents fs (put_node q (FileNode b m) fs) d"
    and "\<forall>r x. lookup fs r = Some x \<longrightarrow> (\<exists>y. lookup (put_node q (FileNode b m) fs) r = Some y \<and> without_mode y = without_mode x)"
    and "wf_files fs \<Longrightarrow> wf_files (put_node q (FileNode b m) fs)"
proof -
  have q: "q \<noteq> []" using assms by auto
  with assms show "same_contents fs (put_node q (FileNode b m) fs) d"
    and "\<forall>r x. lookup fs r = Some x \<longrightarrow> (\<exists>y. lookup (put_node q (FileNode b m) fs) r = Some y \<and> without_mode y = without_mode x)"
    by (auto simp: same_contents_def lookup_put_node)
  assume wf: "wf_files fs"
  obtain q' c where c: "q = q' @ [c]" using q by (metis rev_exhaust)
  show "wf_files (put_node q (FileNode b m) fs)"
    using wf_filesD[OF wf, of q' c] assms c by (intro wf_put_node[OF wf]) auto
qed

lemma make_executable_Inr:
  assumes "make_executable_blocking exe w = (Inr u, w')" "stat (w_files w) exe = Some (FileNode content k)"
  shows "\<exists>q k m. resolve (w_files w) 40 [] exe = Some q \<and> lookup (w_files w) q = Some (FileNode content k)
    \<and> w_files w' = put_node q (FileNode content m) (w_files w)"
proof -
  from assms(1) obtain n w1 where 1: "sys_io (sys_metadata exe) w = (Inr n, w1)"
    and 2: "sys_io (syscall intact (\<lambda>fs. set_mode fs exe (or (node_mode n) 64))) w1 = (Inr u, w')"
    by (auto simp: make_executable_blocking_def io_then_eq_Inr)
  have w1: "w_files w1 = w_files w"
    using reads_only_files[where m = "sys_io (sys_metadata exe)", OF _ 1] by (simp add: sys_metadata_def keeps_intros)
  from assms(2) obtain q where q: "resolve (w_files w) 40 [] exe = Some q" "lookup (w_files w) q = Some (FileNode content k)"
    by (auto simp: stat_def split: Option.bind_splits)
  then have "w_files w' = put_node q (FileNode content (or (node_mode n) 64)) (w_files w)"
    using 2 w1 by (auto simp: sys_io_def syscall_def Let_def set_mode_def split: option.splits)
  with q show ?thesis by blast
qed

definition staged_at :: "path \<Rightarrow> BinaryCachePaths" where
  "staged_at staging =
     \<lparr>bp_root_dir = staging, bp_parent_dir = butlast staging, bp_cache_dir = staging,
      bp_extracted_dir = staging @ [EXTRACTED_DIR_NAME], bp_metadata_path = staging @ [METADATA_FILE_NAME]\<rparr>"

lemma stat_after_write:
  assumes wf: "wf_files fs" "wf_files (put_node p n fs)" and p: "p \<noteq> []" "lookup fs p = None" "\<forall>t. n \<noteq> LinkNode t"
    and s: "stat fs exe = Some x"
  shows "stat (put_node p n fs) exe = Some x" "stat (put_node p n fs) p = Some n"
proof -
  from s obtain q where q: "resolve fs 40 [] exe = Some q" "lookup fs q = Some x"
    by (auto simp: stat_def split: Option.bind_splits)
  have "resolve (put_node p n fs) 40 [] exe = Some q"
    using p by (intro resolve_grows[OF q(1)]) (auto simp: lookup_put_node)
  then show "stat (put_node p n fs) exe = Some x" using q p by (auto simp: stat_def lookup_put_node)
  show "stat (put_node p n fs) p = Some n" using p by (intro stat_plain[OF wf(2)]) (auto simp: lookup_put_node)
qed

lemma post_extraction_Inr:
  assumes "post_extraction inst never exe d p metadata w = (Inr (), w')"
  obtains content q k m w2 digest w3 payload w4 bytes where "resolve (w_files w) 40 [] exe = Some q"
    "lookup (w_files w) q = Some (FileNode content k)" "w_files w2 = put_node q (FileNode content m) (w_files w)"
    "hash_file_sha256_blocking (in_sha256 inst) never exe w2 = (Inr digest, w3)"
    "hash_payload_sha256_blocking (in_sha256 inst) never d w3 = (Inr payload, w4)"
    "in_encode inst (metadata\<lparr>md_executable_sha256 := Some digest, md_payload_sha256 := Some payload\<rparr>) = Inr bytes"
    "sys_context (''failed to write '' @ path_display p) (sys_write p bytes) w4 = (Inr (), w')"
proof -
  obtain n w1 where 1: "sys_io (sys_metadata exe) w = (n, w1)" by force
  have w1: "w_files w1 = w_files w"
    using reads_only_files[where m = "sys_io (sys_metadata exe)", OF _ 1] by (simp add: sys_metadata_def keeps_intros)
  from assms 1 obtain w2 digest w3 payload w4 bytes where regular: "is_file n"
    and 2: "make_executable_blocking exe w1 = (Inr (), w2)"
    and rest: "hash_file_sha256_blocking (in_sha256 inst) never exe w2 = (Inr digest, w3)"
      "hash_payload_sha256_blocking (in_sha256 inst) never d w3 = (Inr payload, w4)"
      "in_encode inst (metadata\<lparr>md_executable_sha256 := Some digest, md_payload_sha256 := Some payload\<rparr>) = Inr bytes"
      "sys_context (''failed to write '' @ path_display p) (sys_write p bytes) w4 = (Inr (), w')"
    by (auto simp: post_extraction_def io_try_def io_then_eq_Inr check_extraction_cancelled_def never_def split: if_splits)
  obtain content k where exe: "stat (w_files w) exe = Some (FileNode content k)"
    using 1 regular sys_metadata_Inr[of exe w] by (cases n) (auto simp: is_file_def split: node.splits)
  with make_executable_Inr[OF 2] w1 obtain q k m where "resolve (w_files w) 40 [] exe = Some q"
    "lookup (w_files w) q = Some (FileNode content k)" "w_files w2 = put_node q (FileNode content m) (w_files w)"
    by auto
  with rest show thesis using that by blast
qed

text \<open>
  Property C34: when the work after an extraction succeeds, whatever calls failed before, the staging
  directory is a cache entry that validation accepts: its metadata, as the decoder reads it back,
  names the target and carries the digests of the command and of the complete payload tree that
  stand on disk, after the command was made executable.
\<close>

theorem post_extraction_makes_valid_entry:
  assumes "wf_files (w_files w)" "tree_at (w_files w) (staging @ [EXTRACTED_DIR_NAME]) t" "sized [] t"
    and "lookup (w_files w) (staging @ [METADATA_FILE_NAME]) = None"
    and "resolve_cmd_path (staging @ [EXTRACTED_DIR_NAME]) (md_cmd metadata) = Inr exe"
    and "\<And>md bytes. in_encode inst md = Inr bytes \<Longrightarrow> in_decode inst bytes = Some md"
    and "post_extraction inst never exe (staging @ [EXTRACTED_DIR_NAME]) (staging @ [METADATA_FILE_NAME]) metadata w
      = (Inr (), w')"
  shows "\<exists>md. tree_at (w_files w') (staging @ [EXTRACTED_DIR_NAME]) t
    \<and> entry_valid (in_sha256 inst) (in_decode inst) (w_files w') (staged_at staging) metadata t md exe"
proof -
  let ?d = "staging @ [EXTRACTED_DIR_NAME]" and ?p = "staging @ [METADATA_FILE_NAME]"
  from assms(7) obtain content q k m w2 digest w3 payload w4 bytes where q: "resolve (w_files w) 40 [] exe = Some q"
      "lookup (w_files w) q = Some (FileNode content k)" and w2: "w_files w2 = put_node q (FileNode content m) (w_files w)"
    and 3: "hash_file_sha256_blocking (in_sha256 inst) never exe w2 = (Inr digest, w3)"
    and 4: "hash_payload_sha256_blocking (in_sha256 inst) never ?d w3 = (Inr payload, w4)"
    and enc: "in_encode inst (metadata\<lparr>md_executable_sha256 := Some digest, md_payload_sha256 := Some payload\<rparr>) = Inr bytes"
    and 5: "sys_context (''failed to write '' @ path_display ?p) (sys_write ?p bytes) w4 = (Inr (), w')"
    by (rule post_extraction_Inr)
  let ?fs = "put_node q (FileNode content m) (w_files w)"
  note put = put_same_contents[OF q(2), of m]
  have wf: "wf_files ?fs" using put(3) assms(1) .
  have tree: "tree_at ?fs ?d t" by (rule tree_at_same_contents[OF wf assms(1) put(1) assms(2)])
  have "q \<noteq> []" using q(2) by auto
  then have exe': "stat ?fs exe = Some (FileNode content m)"
    using resolve_grows[OF q(1) put(2)] by (simp add: stat_def lookup_put_node)
  have digest: "digest = hex_encode (in_sha256 inst content)"
    using honest_yields[OF honest_hash_file 3 hash_file_yields[OF exe'] w2] .
  have w3: "w_files w3 = ?fs" using reads_only_files[OF reads_only_hash_file 3] w2 by simp
  have payload: "payload = hex_encode (in_sha256 inst (payload_header @ tree_bytes [] t))"
    using honest_yields[OF honest_hash_payload 4 hash_payload_yields[OF wf tree assms(3)] w3] .
  have w4: "w_files w4 = ?fs" using reads_only_files[OF reads_only_hash_payload 4] w3 by simp
  have none: "lookup ?fs ?p = None" using assms(4) q(2) \<open>q \<noteq> []\<close> by (auto simp: lookup_put_node)
  have staged: "lookup ?fs staging = Some DirNode" "list_all plain_name staging"
    using wf_filesD[OF wf, of staging EXTRACTED_DIR_NAME] tree_at_lookup[OF tree] by auto
  have w': "w_files w' = put_node ?p (FileNode bytes 420) ?fs"
    using 5 w4 none by (auto simp: sys_context_eq sys_write_def syscall_def Let_def split: option.splits if_splits)
  have wf': "wf_files (w_files w')"
    unfolding w' using staged none
    by (intro wf_put_node[OF wf]) (simp_all add: METADATA_FILE_NAME_def plain_name_def)
  have "same_contents ?fs (w_files w') ?d"
    unfolding w' by (auto simp: same_contents_def lookup_put_node METADATA_FILE_NAME_def EXTRACTED_DIR_NAME_def)
  then have "tree_at (w_files w') ?d t" using tree_at_same_contents[OF wf' wf _ tree] by simp
  moreover have "stat (w_files w') exe = Some (FileNode content m)" "stat (w_files w') ?p = Some (FileNode bytes 420)"
    using stat_after_write[OF wf wf'[unfolded w'] _ none _ exe'] by (simp_all add: w')
  ultimately show ?thesis
    using assms(5,6) enc digest payload
    by (intro exI[of _ "metadata\<lparr>md_executable_sha256 := Some digest, md_payload_sha256 := Some payload\<rparr>"])
      (auto simp: entry_valid_def staged_at_def same_identity_def recorded_ok_def)
qed

lemma calm_step: "yields m fs x \<Longrightarrow> w_files w = fs \<Longrightarrow> calm w \<Longrightarrow> \<exists>w'. m w = (Inr x, w') \<and> w_files w' = fs \<and> calm w'"
  by (simp add: yields_def)

definition demo_staged :: files where
  "demo_staged =
     [([''s''], DirNode), ([''s'', ''extracted''], DirNode), ([''s'', ''extracted'', ''c''], FileNode ''run'' 420)]"

definition demo_encoder :: installer where
  "demo_encoder = demo_installer
     \<lparr>in_decode := (\<lambda>bytes. if bytes = ''{}'' then Some demo_record else None),
      in_encode := (\<lambda>md. if md = demo_record then Inr ''{}'' else Inl ''not supported'')\<rparr>"

lemma demo_staged_facts:
  "wf_files demo_staged" "tree_at demo_staged [''s'', ''extracted''] (TDir [(''c'', TFile ''run'')])"
  "lookup demo_staged [''s'', ''metadata.json''] = None" "lookup demo_staged [''s'', ''extracted'', ''c''] = Some (FileNode ''run'' 420)"
  "stat demo_staged [''s'', ''extracted'', ''c''] = Some (FileNode ''run'' 420)"
  "resolve demo_staged 40 [] [''s'', ''extracted'', ''c''] = Some [''s'', ''extracted'', ''c'']"
  "resolve_cmd_path [''s'', ''extracted''] ''c'' = Inr [''s'', ''extracted'', ''c'']"
  "lookup demo_staged [''s''] = Some DirNode"
proof -
  show wf: "wf_files demo_staged" by (simp add: wf_files_def demo_staged_def lookup_def plain_name_def)
  show c: "lookup demo_staged [''s'', ''extracted'', ''c''] = Some (FileNode ''run'' 420)"
    by (simp add: demo_staged_def lookup_def)
  show "stat demo_staged [''s'', ''extracted'', ''c''] = Some (FileNode ''run'' 420)"
    by (rule stat_plain[OF wf c]) simp
  show "resolve demo_staged 40 [] [''s'', ''extracted'', ''c''] = Some [''s'', ''extracted'', ''c'']"
    using resolve_plain[OF wf, of "[]" "[''s'', ''extracted'', ''c'']"] c by simp
  show "resolve_cmd_path [''s'', ''extracted''] ''c'' = Inr [''s'', ''extracted'', ''c'']" by code_simp
qed (simp_all add: demo_staged_def lookup_def child_names_def sort_key_def)

lemma demo_post_extraction:
  "\<exists>w'. post_extraction demo_encoder never [''s'', ''extracted'', ''c''] [''s'', ''extracted''] [''s'', ''metadata.json'']
      (BinaryCacheMetadata_new ''a'' ''1'' LinuxX86_64 ''u'' ''c'' (Some (replicate 64 (CHR ''0'')))) (calm_world demo_staged)
    = (Inr (), w')"
proof -
  let ?exe = "[''s'', ''extracted'', ''c'']" and ?w = "calm_world demo_staged"
  let ?fs = "put_node ?exe (FileNode ''run'' (or 420 64)) demo_staged"
  note put = put_same_contents[OF demo_staged_facts(4), of "or 420 64"]
  have wf: "wf_files ?fs" using put(3) demo_staged_facts(1) .
  have meta: "yields (sys_io (sys_metadata ?exe)) demo_staged (FileNode ''run'' 420)"
    using demo_staged_facts(5) by (auto simp: sys_metadata_def intro!: yields_intros)
  obtain w1 where 1: "sys_io (sys_metadata ?exe) ?w = (Inr (FileNode ''run'' 420), w1)" "w_files w1 = demo_staged" "calm w1"
    using calm_step[OF meta, of ?w] by auto
  obtain w1' where m1: "sys_io (sys_metadata ?exe) w1 = (Inr (FileNode ''run'' 420), w1')" "w_files w1' = demo_staged" "calm w1'"
    using calm_step[OF meta 1(2,3)] by blast
  have changed: "set_mode demo_staged ?exe (or (node_mode (FileNode ''run'' 420)) 64) = (Inr (), ?fs)"
    using demo_staged_facts(4,6) by (simp add: set_mode_def node_mode_def del: resolve.simps)
  obtain w2 where 2: "sys_io (syscall intact (\<lambda>fs. set_mode fs ?exe (or (node_mode (FileNode ''run'' 420)) 64))) w1' = (Inr (), w2)"
    "w_files w2 = ?fs" "calm w2"
    using m1(2,3) changed by (auto simp: sys_io_def syscall_def Let_def calm_def)
  have "stat ?fs ?exe = Some (FileNode ''run'' (or 420 64))"
    by (rule stat_plain[OF wf]) (simp_all add: lookup_put_node)
  note h = hash_file_yields[OF this, of rev]
  obtain w3 d where 3: "hash_file_sha256_blocking rev never ?exe w2 = (Inr d, w3)"
    "w_files w3 = ?fs" "calm w3" and d: "d = hex_encode (rev ''run'')"
    using calm_step[OF h 2(2,3)] by blast
  have tree: "tree_at ?fs [''s'', ''extracted''] (TDir [(''c'', TFile ''run'')])"
    by (rule tree_at_same_contents[OF wf demo_staged_facts(1) put(1) demo_staged_facts(2)])
  have p: "yields (hash_payload_sha256_blocking rev never [''s'', ''extracted'']) ?fs
      (hex_encode (rev (payload_header @ tree_bytes [] (TDir [(''c'', TFile ''run'')]))))"
    by (rule hash_payload_yields[OF wf tree]) (simp add: path_join_def plain_name_def)
  obtain w4 e where 4: "hash_payload_sha256_blocking rev never [''s'', ''extracted''] w3 = (Inr e, w4)"
    "w_files w4 = ?fs" "calm w4" and e: "e = hex_encode (rev (payload_header @ tree_bytes [] (TDir [(''c'', TFile ''run'')])))"
    using calm_step[OF p 3(2,3)] by blast
  obtain w5 where 5: "sys_context c (sys_write [''s'', ''metadata.json''] ''{}'') w4 = (Inr (), w5)" for c
    using 4(2,3) demo_staged_facts(3,8)
    by (auto simp: sys_context_eq sys_write_def syscall_def Let_def calm_def lookup_put_node)
  have enc: "in_encode demo_encoder ((BinaryCacheMetadata_new ''a'' ''1'' LinuxX86_64 ''u'' ''c'' (Some (replicate 64 (CHR ''0''))))
      \<lparr>md_executable_sha256 := Some d, md_payload_sha256 := Some e\<rparr>) = Inr ''{}''"
    by (simp add: demo_encoder_def demo_record_def d e)
  have calm_check: "check_extraction_cancelled never w = (Inr (), w)" for w
    by (simp add: check_extraction_cancelled_def never_def)
  have "in_sha256 demo_encoder = rev" by (simp add: demo_encoder_def demo_installer_def)
  then show ?thesis
    by (intro exI[of _ w5])
      (simp add: post_extraction_def io_try_def io_then_def 1(1) m1(1) 2(1) 3(1) 4(1) 5 enc calm_check is_file_def
        make_executable_blocking_def io_context_def io_map_err_def)
qed

theorem post_extraction_makes_valid_entry_witness:
  "\<exists>w' md. post_extraction demo_encoder never [''s'', ''extracted'', ''c''] [''s'', ''extracted''] [''s'', ''metadata.json'']
      (BinaryCacheMetadata_new ''a'' ''1'' LinuxX86_64 ''u'' ''c'' (Some (replicate 64 (CHR ''0'')))) (calm_world demo_staged)
    = (Inr (), w')
    \<and> entry_valid (in_sha256 demo_encoder) (in_decode demo_encoder) (w_files w') (staged_at [''s''])
        (BinaryCacheMetadata_new ''a'' ''1'' LinuxX86_64 ''u'' ''c'' (Some (replicate 64 (CHR ''0''))))
        (TDir [(''c'', TFile ''run'')]) md [''s'', ''extracted'', ''c'']"
proof -
  obtain w' where run: "post_extraction demo_encoder never [''s'', ''extracted'', ''c''] [''s'', ''extracted''] [''s'', ''metadata.json'']
      (BinaryCacheMetadata_new ''a'' ''1'' LinuxX86_64 ''u'' ''c'' (Some (replicate 64 (CHR ''0'')))) (calm_world demo_staged)
    = (Inr (), w')" using demo_post_extraction by blast
  have "\<exists>md. tree_at (w_files w') ([''s''] @ [EXTRACTED_DIR_NAME]) (TDir [(''c'', TFile ''run'')])
    \<and> entry_valid (in_sha256 demo_encoder) (in_decode demo_encoder) (w_files w') (staged_at [''s''])
        (BinaryCacheMetadata_new ''a'' ''1'' LinuxX86_64 ''u'' ''c'' (Some (replicate 64 (CHR ''0''))))
        (TDir [(''c'', TFile ''run'')]) md [''s'', ''extracted'', ''c'']"
    by (rule post_extraction_makes_valid_entry[where w = "calm_world demo_staged"])
      (use run demo_staged_facts in
        \<open>auto simp: EXTRACTED_DIR_NAME_def METADATA_FILE_NAME_def BinaryCacheMetadata_new_def path_join_def plain_name_def
          demo_encoder_def split: if_splits\<close>)
  then show ?thesis using run by blast
qed

end
