(* ===== verification/Lock_Protocol.thy ===== *)
theory Lock_Protocol
  imports Install
begin

text \<open>
  The locks of one cache key and the processes that use them, interleaved: installations and the
  leases they hand out (\<open>cache_binary_target_in_mode\<close> in \<open>src/src/installer/binary/install.rs\<close>,
  the transaction of \<open>publication.rs\<close>), removals (\<open>remove_cached_entries\<close> in
  \<open>src/src/installer/cache.rs\<close>) and the start-up sweep (\<open>recovery.rs\<close>). What one process does
  between two lock operations is in the theories \<open>Install\<close>, \<open>Publication\<close>, \<open>Cache_Inventory\<close> and
  \<open>Recovery\<close>; here an entry is only a number that identifies its content. A lock that a guard
  drops is released later, by its worker (\<open>hold_cache_lock\<close>); a process may die at any point.
\<close>

section \<open>Processes and their locks\<close>

datatype lock_name = CacheLock | UseLock

text \<open>A held lock; the flag says that it is exclusive.\<close>

type_synonym token = "lock_name \<times> bool"

datatype job = Install | Remove BusyEntry | Sweep

datatype lock_pc =
    Waiting job
  | CacheLocked job
  | Checking
  | Preparing
  | Publishing
  | MovedAside nat
  | Published nat
  | Leased nat
  | Running nat
  | Removing
  | Finished

fun tokens :: "lock_pc \<Rightarrow> token list" where
  "tokens (Waiting j) = []"
| "tokens (CacheLocked j) = [(CacheLock, True)]"
| "tokens Checking = [(CacheLock, True), (UseLock, False)]"
| "tokens Preparing = [(CacheLock, True)]"
| "tokens Publishing = [(CacheLock, True), (UseLock, True)]"
| "tokens (MovedAside g) = [(CacheLock, True), (UseLock, True)]"
| "tokens (Published g) = [(CacheLock, True)]"
| "tokens (Leased g) = [(CacheLock, True), (UseLock, False)]"
| "tokens (Running g) = [(UseLock, False)]"
| "tokens Removing = [(CacheLock, True), (UseLock, True)]"
| "tokens Finished = []"

text \<open>The entry on disk, the backups that were left behind, and the next content.\<close>

record store =
  entry :: "nat option"
  backups :: "nat list"
  fresh :: nat

record lock_system =
  disk_store :: store
  procs :: "lock_pc list"
  releasing :: "token list"

definition compatible :: "token \<Rightarrow> token \<Rightarrow> bool" where
  "compatible t u \<longleftrightarrow> fst t \<noteq> fst u \<or> \<not> snd t \<and> \<not> snd u"

definition lock_free :: "lock_system \<Rightarrow> token \<Rightarrow> bool" where
  "lock_free s t \<longleftrightarrow> list_all (\<lambda>pc. list_all (compatible t) (tokens pc)) (procs s) \<and> list_all (compatible t) (releasing s)"

section \<open>The steps of a process\<close>

text \<open>The first argument says which locks are free.\<close>

inductive install_step :: "(token \<Rightarrow> bool) \<Rightarrow> store \<Rightarrow> lock_pc \<Rightarrow> store \<Rightarrow> lock_pc \<Rightarrow> bool" for free where
  take_cache_lock: "free (CacheLock, True) \<Longrightarrow> install_step free d (Waiting Install) d (CacheLocked Install)"
| take_lease: "free (UseLock, False) \<Longrightarrow> install_step free d (CacheLocked Install) d Checking"
| cache_hit: "entry d = Some g \<Longrightarrow> install_step free d Checking d (Leased g)"
| cache_miss: "install_step free d Checking d Preparing"
| take_use_lock: "free (UseLock, True) \<Longrightarrow> install_step free d Preparing d Publishing"
| keep_existing: "entry d = Some g \<Longrightarrow> install_step free d Publishing d (Published g)"
| move_aside: "entry d = Some g \<Longrightarrow> install_step free d Publishing (d\<lparr>entry := None\<rparr>) (MovedAside g)"
| publish_new: "entry d = None \<Longrightarrow>
    install_step free d Publishing (d\<lparr>entry := Some (fresh d), fresh := Suc (fresh d)\<rparr>) (Published (fresh d))"
| publish_over: "install_step free d (MovedAside g) (d\<lparr>entry := Some (fresh d), fresh := Suc (fresh d)\<rparr>) (Published (fresh d))"
| restore: "install_step free d (MovedAside g) (d\<lparr>entry := Some g\<rparr>) Finished"
| restore_fails: "install_step free d (MovedAside g) (d\<lparr>backups := g # backups d\<rparr>) Finished"
| rejected_stays: "install_step free d (MovedAside g)
    (d\<lparr>entry := Some (fresh d), fresh := Suc (fresh d), backups := g # backups d\<rparr>) Finished"
| rejected_new_stays: "entry d = None \<Longrightarrow>
    install_step free d Publishing (d\<lparr>entry := Some (fresh d), fresh := Suc (fresh d)\<rparr>) Finished"
| lease_published: "free (UseLock, False) \<Longrightarrow> install_step free d (Published g) d (Leased g)"
| hand_out: "install_step free d (Leased g) d (Running g)"
| drop_lease: "install_step free d (Running g) d Finished"

text \<open>A removal that fails in the middle leaves a damaged entry, a content of its own.\<close>

inductive remove_step :: "(token \<Rightarrow> bool) \<Rightarrow> store \<Rightarrow> lock_pc \<Rightarrow> store \<Rightarrow> lock_pc \<Rightarrow> bool" for free where
  lock_entry: "free (CacheLock, True) \<Longrightarrow> remove_step free d (Waiting (Remove b)) d (CacheLocked (Remove b))"
| entry_busy: "\<not> free (CacheLock, True) \<Longrightarrow> remove_step free d (Waiting (Remove Skip)) d Finished"
| lock_use: "free (UseLock, True) \<Longrightarrow> remove_step free d (CacheLocked (Remove b)) d Removing"
| use_busy: "\<not> free (UseLock, True) \<Longrightarrow> remove_step free d (CacheLocked (Remove Skip)) d Finished"
| removed: "remove_step free d Removing (d\<lparr>entry := None\<rparr>) Finished"
| partly_removed: "entry d \<noteq> None \<Longrightarrow>
    remove_step free d Removing (d\<lparr>entry := Some (fresh d), fresh := Suc (fresh d)\<rparr>) Finished"

inductive sweep_step :: "(token \<Rightarrow> bool) \<Rightarrow> store \<Rightarrow> lock_pc \<Rightarrow> store \<Rightarrow> lock_pc \<Rightarrow> bool" for free where
  try_lock: "free (CacheLock, True) \<Longrightarrow> sweep_step free d (Waiting Sweep) d (CacheLocked Sweep)"
| lock_busy: "\<not> free (CacheLock, True) \<Longrightarrow> sweep_step free d (Waiting Sweep) d Finished"
| sweep_present: "entry d \<noteq> None \<Longrightarrow> sweep_step free d (CacheLocked Sweep) (d\<lparr>backups := []\<rparr>) Finished"
| sweep_restores: "entry d = None \<Longrightarrow> g \<in> set (backups d) \<Longrightarrow>
    sweep_step free d (CacheLocked Sweep) (d\<lparr>entry := Some g, backups := []\<rparr>) Finished"
| sweep_discards: "entry d = None \<Longrightarrow> sweep_step free d (CacheLocked Sweep) (d\<lparr>backups := []\<rparr>) Finished"

definition works :: "(token \<Rightarrow> bool) \<Rightarrow> store \<Rightarrow> lock_pc \<Rightarrow> store \<Rightarrow> lock_pc \<Rightarrow> bool" where
  "works free d pc d' pc' \<longleftrightarrow>
     install_step free d pc d' pc' \<or> remove_step free d pc d' pc' \<or> sweep_step free d pc d' pc'"

text \<open>An error (or a dropped future) outside a rename ends the process; the guards clean up.\<close>

definition gives_up :: "store \<Rightarrow> lock_pc \<Rightarrow> store \<Rightarrow> lock_pc \<Rightarrow> bool" where
  "gives_up d pc d' pc' \<longleftrightarrow> (\<forall>g. pc \<noteq> MovedAside g) \<and> d' = d \<and> pc' = Finished"

definition process_step :: "(token \<Rightarrow> bool) \<Rightarrow> store \<Rightarrow> lock_pc \<Rightarrow> store \<Rightarrow> lock_pc \<Rightarrow> bool" where
  "process_step free d pc d' pc' \<longleftrightarrow> works free d pc d' pc' \<or> gives_up d pc d' pc'"

text \<open>A guard that is dropped hands its lock to the worker; the locks of a dead process are free at once.\<close>

definition dropped :: "lock_pc \<Rightarrow> lock_pc \<Rightarrow> token list" where
  "dropped pc pc' = filter (\<lambda>t. t \<notin> set (tokens pc')) (tokens pc)"

definition left_behind :: "lock_pc \<Rightarrow> store \<Rightarrow> store" where
  "left_behind pc d = (case pc of MovedAside g \<Rightarrow> d\<lparr>backups := g # backups d\<rparr> | _ \<Rightarrow> d)"

inductive lock_step :: "lock_system \<Rightarrow> lock_system \<Rightarrow> bool" where
  process: "i < length (procs s) \<Longrightarrow> process_step (lock_free s) (disk_store s) (procs s ! i) d pc \<Longrightarrow>
    lock_step s (s\<lparr>disk_store := d, procs := (procs s)[i := pc], releasing := dropped (procs s ! i) pc @ releasing s\<rparr>)"
| worker: "t \<in> set (releasing s) \<Longrightarrow> lock_step s (s\<lparr>releasing := remove1 t (releasing s)\<rparr>)"
| crash: "i < length (procs s) \<Longrightarrow>
    lock_step s (s\<lparr>disk_store := left_behind (procs s ! i) (disk_store s), procs := (procs s)[i := Finished]\<rparr>)"
| arrive: "lock_step s (s\<lparr>procs := procs s @ [Waiting j]\<rparr>)"

definition lock_init :: "store \<Rightarrow> lock_system" where
  "lock_init d = \<lparr>disk_store = d, procs = [], releasing = []\<rparr>"

inductive_cases install_stepE: "install_step free d pc d' pc'"
inductive_cases remove_stepE: "remove_step free d pc d' pc'"
inductive_cases sweep_stepE: "sweep_step free d pc d' pc'"

section \<open>What a lease protects\<close>

text \<open>The content that a process was promised: it has validated it and will execute it.\<close>

fun promised :: "lock_pc \<Rightarrow> nat option" where
  "promised (Published g) = Some g"
| "promised (Leased g) = Some g"
| "promised (Running g) = Some g"
| "promised _ = None"

text \<open>The locks of two processes never exclude each other, and every promise holds.\<close>

definition lock_inv :: "lock_system \<Rightarrow> bool" where
  "lock_inv s \<longleftrightarrow>
     (\<forall>i < length (procs s). \<forall>j < length (procs s). i \<noteq> j \<longrightarrow>
        list_all (\<lambda>t. list_all (compatible t) (tokens (procs s ! j))) (tokens (procs s ! i)))
     \<and> (\<forall>i < length (procs s). \<forall>g. promised (procs s ! i) = Some g \<longrightarrow> entry (disk_store s) = Some g)"

text \<open>A process takes at most one lock in a step, and only when it is free.\<close>

lemma process_step_tokens:
  assumes "process_step free d pc d' pc'" "t \<in> set (tokens pc')"
  shows "t \<in> set (tokens pc) \<or> free t"
  using assms unfolding process_step_def works_def gives_up_def
  by (elim disjE conjE install_stepE remove_stepE sweep_stepE) auto

text \<open>Whoever changes the entry holds both locks exclusively, or finds no entry.\<close>

lemma process_step_entry:
  assumes "process_step free d pc d' pc'" "entry d' \<noteq> entry d"
  shows "entry d = None \<or> tokens pc = [(CacheLock, True), (UseLock, True)]"
  using assms unfolding process_step_def works_def gives_up_def
  by (elim disjE conjE install_stepE remove_stepE sweep_stepE) auto

lemma process_step_promise:
  assumes "process_step free d pc d' pc'" "promised pc' = Some g"
  shows "entry d' = Some g \<or> promised pc = Some g \<and> entry d' = entry d"
  using assms unfolding process_step_def works_def gives_up_def
  by (elim disjE conjE install_stepE remove_stepE sweep_stepE) auto

lemma compatible_sym: "compatible t u \<longleftrightarrow> compatible u t"
  by (auto simp: compatible_def)

lemma promise_excludes:
  assumes "promised pc = Some g" "list_all (\<lambda>t. list_all (compatible t) (tokens pc)) [(CacheLock, True), (UseLock, True)]"
  shows False
  using assms by (cases pc) (auto simp: compatible_def)

lemma lock_inv_tokens:
  "lock_inv s \<Longrightarrow> i < length (procs s) \<Longrightarrow> j < length (procs s) \<Longrightarrow> i \<noteq> j \<Longrightarrow>
     t \<in> set (tokens (procs s ! i)) \<Longrightarrow> u \<in> set (tokens (procs s ! j)) \<Longrightarrow> compatible t u"
  by (auto simp: lock_inv_def list_all_iff)

lemma lock_inv_promise:
  "lock_inv s \<Longrightarrow> i < length (procs s) \<Longrightarrow> promised (procs s ! i) = Some g \<Longrightarrow> entry (disk_store s) = Some g"
  by (simp add: lock_inv_def)

lemma process_keeps_inv:
  assumes inv: "lock_inv s" and i: "i < length (procs s)"
    and step: "process_step (lock_free s) (disk_store s) (procs s ! i) d pc"
  shows "lock_inv (s\<lparr>disk_store := d, procs := (procs s)[i := pc], releasing := r\<rparr>)"
proof -
  have new: "compatible t u" if "j < length (procs s)" "j \<noteq> i" "t \<in> set (tokens pc)" "u \<in> set (tokens (procs s ! j))" for j t u
    using process_step_tokens[OF step that(3)]
  proof
    assume "t \<in> set (tokens (procs s ! i))"
    then show ?thesis using lock_inv_tokens[OF inv i that(1)] that(2,4) by metis
  next
    assume "lock_free s t"
    then show ?thesis using that(1,4) by (auto simp: lock_free_def list_all_iff)
  qed
  have kept: "entry d = Some g" if "j < length (procs s)" "j \<noteq> i" "promised (procs s ! j) = Some g" for j g
  proof (rule ccontr)
    have old: "entry (disk_store s) = Some g" using lock_inv_promise[OF inv that(1,3)] .
    assume "entry d \<noteq> Some g"
    with old process_step_entry[OF step] have "tokens (procs s ! i) = [(CacheLock, True), (UseLock, True)]" by auto
    then have "list_all (\<lambda>t. list_all (compatible t) (tokens (procs s ! j))) [(CacheLock, True), (UseLock, True)]"
      using lock_inv_tokens[OF inv i that(1)] that(2) by (auto simp: list_all_iff)
    with promise_excludes[OF that(3)] show False .
  qed
  have own: "entry d = Some g" if "promised pc = Some g" for g
    using process_step_promise[OF step that] lock_inv_promise[OF inv i, of g] by auto
  show ?thesis
    unfolding lock_inv_def using new kept own lock_inv_tokens[OF inv] i
    by (auto simp: nth_list_update list_all_iff) (metis compatible_sym)
qed

lemma lock_step_inv: "lock_step s s' \<Longrightarrow> lock_inv s \<Longrightarrow> lock_inv s'"
proof (induction rule: lock_step.induct)
  case (process i s d pc)
  then show ?case by (intro process_keeps_inv)
next
  case (worker t s)
  then show ?case by (simp add: lock_inv_def)
next
  case (crash i s)
  have "entry (left_behind pc d) = entry d" for pc d by (simp add: left_behind_def split: lock_pc.split)
  with crash show ?case by (auto simp: lock_inv_def nth_list_update list_all_iff)
next
  case (arrive s j)
  then show ?case by (auto simp: lock_inv_def nth_append list_all_iff)
qed

lemma lock_reachable_inv:
  assumes "lock_step\<^sup>*\<^sup>* (lock_init d) s" shows "lock_inv s"
  using assms
proof (induction rule: rtranclp_induct)
  case base
  show ?case by (simp add: lock_init_def lock_inv_def)
qed (rule lock_step_inv)

text \<open>
  Property C6: a lease protects what it was given for. In every reachable state of any number of
  installations, removals and sweeps, with crashes at any point and locks released late, the
  entry on disk is exactly the content that a running process has validated, from the moment it was
  published or found until the lease is dropped: nobody replaces, removes or restores it meanwhile.
\<close>

theorem lease_protects_the_entry:
  assumes "lock_step\<^sup>*\<^sup>* (lock_init d) s" "i < length (procs s)" "promised (procs s ! i) = Some g"
  shows "entry (disk_store s) = Some g"
  using lock_inv_promise[OF lock_reachable_inv[OF assms(1)] assms(2,3)] .

text \<open>
  At most one process publishes, removes or sweeps at a time: two different processes
  never hold the publication lock together, and never the use lock when one of them holds it exclusively.
\<close>

lemma cache_writers_are_exclusive:
  assumes "lock_step\<^sup>*\<^sup>* (lock_init d) s" "i < length (procs s)" "j < length (procs s)" "i \<noteq> j"
    and "(l, True) \<in> set (tokens (procs s ! i))"
  shows "(l, x) \<notin> set (tokens (procs s ! j))"
  using lock_inv_tokens[OF lock_reachable_inv[OF assms(1)] assms(2-5), of "(l, x)"] by (auto simp: compatible_def)

section \<open>Nobody waits forever\<close>

text \<open>Without a lock of its own a process can be refused only a lock that somebody holds.\<close>

fun wants :: "lock_pc \<Rightarrow> token option" where
  "wants (Waiting j) = Some (CacheLock, True)"
| "wants (CacheLocked Install) = Some (UseLock, False)"
| "wants (CacheLocked (Remove b)) = Some (UseLock, True)"
| "wants Preparing = Some (UseLock, True)"
| "wants (Published g) = Some (UseLock, False)"
| "wants _ = None"

lemma works_when_free:
  assumes "pc \<noteq> Finished" "\<And>t. wants pc = Some t \<Longrightarrow> free t"
  shows "\<exists>d' pc'. works free d pc d' pc'"
proof (cases pc)
  case (Waiting j)
  then show ?thesis using assms by (cases j) (auto simp: works_def intro: install_step.intros remove_step.intros sweep_step.intros)
next
  case (CacheLocked j)
  have "\<exists>d' pc'. sweep_step free d (CacheLocked Sweep) d' pc'"
    by (cases "entry d = None") (blast intro: sweep_step.intros)+
  then show ?thesis using assms CacheLocked
    by (cases j) (auto simp: works_def intro: install_step.intros remove_step.intros)
next
  case Publishing
  show ?thesis
    unfolding works_def Publishing by (cases "entry d") (blast intro: install_step.intros)+
qed (use assms in \<open>auto simp: works_def intro: install_step.intros remove_step.intros\<close>)

lemma use_lock_holders: "wants pc \<noteq> None \<Longrightarrow> (UseLock, x) \<notin> set (tokens pc)"
  by (cases pc) auto

text \<open>
  Property C33: the two locks never deadlock: as long as a process is unfinished, some process
  takes a step of its work (no error, no crash), or the worker of a dropped guard is about to
  release a lock.
\<close>

theorem cache_locks_never_deadlock:
  assumes "i < length (procs s)" "procs s ! i \<noteq> Finished"
  shows "releasing s \<noteq> [] \<or> (\<exists>j < length (procs s). \<exists>d pc. works (lock_free s) (disk_store s) (procs s ! j) d pc)"
proof (rule ccontr)
  assume "\<not> ?thesis"
  then have none: "releasing s = []" and stuck: "\<And>j d pc. j < length (procs s) \<Longrightarrow> \<not> works (lock_free s) (disk_store s) (procs s ! j) d pc"
    by auto
  have waits: "\<exists>t. wants pc = Some t \<and> \<not> lock_free s t" if "pc \<in> set (procs s)" "pc \<noteq> Finished" for pc
    using works_when_free[OF that(2), of "lock_free s" "disk_store s"] stuck that(1) by (metis in_set_conv_nth)
  have use_free: "lock_free s (UseLock, x)" for x
  proof -
    have "compatible (UseLock, x) u" if "pc \<in> set (procs s)" "u \<in> set (tokens pc)" for pc u
    proof (cases "pc = Finished")
      case False
      then show ?thesis using waits[OF that(1)] use_lock_holders[of pc] that(2) by (cases u) (auto simp: compatible_def; metis lock_name.exhaust)
    qed (use that in simp)
    then show ?thesis using none by (auto simp: lock_free_def list_all_iff)
  qed
  have start: "\<exists>j. pc = Waiting j" if "pc \<in> set (procs s)" "pc \<noteq> Finished" for pc
  proof -
    from waits[OF that] obtain t where t: "wants pc = Some t" "\<not> lock_free s t" by blast
    then have "fst t = CacheLock" using use_free by (cases t; cases "fst t") auto
    with t(1) show ?thesis by (cases pc rule: wants.cases) auto
  qed
  then have "lock_free s (CacheLock, True)" using none by (fastforce simp: lock_free_def list_all_iff)
  moreover obtain j where "procs s ! i = Waiting j" using start[OF nth_mem[OF assms(1)] assms(2)] by blast
  ultimately show False using waits[OF nth_mem[OF assms(1)] assms(2)] by simp
qed

definition demo_disk :: store where
  "demo_disk = \<lparr>entry = Some 0, backups = [], fresh = 1\<rparr>"

text \<open>An installation has found the entry and holds its lease; a removal waits.\<close>

definition demo_leased :: lock_system where
  "demo_leased = \<lparr>disk_store = demo_disk, procs = [Leased 0, Waiting (Remove Wait)], releasing = []\<rparr>"

lemma demo_leased_reachable: "lock_step\<^sup>*\<^sup>* (lock_init demo_disk) demo_leased"
proof -
  let ?s = "\<lambda>pcs. \<lparr>disk_store = demo_disk, procs = pcs, releasing = []\<rparr> :: lock_system"
  have run: "lock_step (?s [pc, x]) (?s [pc', x])"
    if "install_step (lock_free (?s [pc, x])) demo_disk pc demo_disk pc'" "dropped pc pc' = []" for pc pc' x
    using lock_step.process[of 0 "?s [pc, x]" demo_disk pc'] that by (simp add: process_step_def works_def)
  have "lock_step (lock_init demo_disk) (?s [Waiting Install])"
    using lock_step.arrive[of "lock_init demo_disk" Install] by (simp add: lock_init_def)
  moreover have "lock_step (?s [Waiting Install]) (?s [Waiting Install, Waiting (Remove Wait)])"
    using lock_step.arrive[of "?s [Waiting Install]" "Remove Wait"] by simp
  moreover have "lock_step (?s [Waiting Install, Waiting (Remove Wait)]) (?s [CacheLocked Install, Waiting (Remove Wait)])"
    by (rule run) (auto simp: lock_free_def dropped_def intro: install_step.intros)
  moreover have "lock_step (?s [CacheLocked Install, Waiting (Remove Wait)]) (?s [Checking, Waiting (Remove Wait)])"
    by (rule run) (auto simp: lock_free_def dropped_def compatible_def intro: install_step.intros)
  moreover have "lock_step (?s [Checking, Waiting (Remove Wait)]) (?s [Leased 0, Waiting (Remove Wait)])"
    by (rule run) (auto simp: demo_disk_def dropped_def intro: install_step.intros)
  ultimately show ?thesis unfolding demo_leased_def by (metis (no_types, lifting) converse_rtranclp_into_rtranclp rtranclp.rtrancl_refl)
qed

theorem lease_protects_the_entry_witness:
  "promised (procs demo_leased ! 0) = Some 0 \<and> entry (disk_store demo_leased) = Some 0"
  using lease_protects_the_entry[OF demo_leased_reachable, of 0 0] by (simp add: demo_leased_def)

theorem cache_writers_are_exclusive_witness:
  "(CacheLock, True) \<in> set (tokens (procs demo_leased ! 0)) \<and> (CacheLock, True) \<notin> set (tokens (procs demo_leased ! 1))"
  using cache_writers_are_exclusive[OF demo_leased_reachable, of 0 1 CacheLock True] by (simp add: demo_leased_def)

theorem cache_locks_never_deadlock_witness:
  "\<exists>j < length (procs demo_leased). \<exists>d pc. works (lock_free demo_leased) (disk_store demo_leased) (procs demo_leased ! j) d pc"
  using cache_locks_never_deadlock[of 1 demo_leased] by (simp add: demo_leased_def)

end
