(* ===== verification/Lifecycle.thy ===== *)
theory Lifecycle
  imports Lock_Protocol Runner "HOL-Library.Multiset"
begin

text \<open>
  Installing, updating and uninstalling agents (\<open>src/src/installer/lifecycle.rs\<close>): the choice
  between the binary cache and a package manager, and the concurrent execution for several
  agents. The binary cache is the model of the theories \<open>Install\<close> and \<open>Cache_Inventory\<close>; child
  processes, the registry download and the JSON parser are parameters.
\<close>

datatype 'r RegistrySnapshot = Available "'r Registry" | Unavailable string

definition from_result :: "'r Registry result \<Rightarrow> 'r RegistrySnapshot" where
  "from_result registry = (case registry of Inr r \<Rightarrow> Available r | Inl e \<Rightarrow> Unavailable (error_chain e))"

datatype InstallOutcome =
    BinaryInstalled (io_agent_id: string) (io_executable_path: path) (io_cache_dir: path)
  | PackageInstalled (io_agent_id: string) (io_runner: PackageRunner) (io_package: string)

datatype UninstallOutcome =
    CacheRemoved (uo_agent_id: string) (uo_registry_error: "string option")
  | PackageRemoved (uo_agent_id: string) (uo_runner: PackageRunner) (uo_package: string)
  | RunnerManaged (uo_agent_id: string) (uo_runner: PackageRunner)

record InstalledAgent =
  ia_agent_id :: string
  ia_agent_version :: string
  ia_platform :: string
  ia_cache_dir :: path
  ia_executable_path :: string

text \<open>
  The host: \<open>lh_registry\<close> is what \<open>fetch_registry\<close> returned; \<open>lh_parse_json\<close> and
  \<open>lh_dependencies\<close> (the keys of the object under \<open>dependencies\<close>) are \<open>serde_json\<close>'s.
\<close>

record ('r, 'v) lifecycle_host =
  lh_inst :: installer
  lh_tools :: "world tool_host"
  lh_platform :: "Platform result"
  lh_cache_dir :: "path option"
  lh_registry :: "'r Registry result"
  lh_parse_json :: "string \<Rightarrow> string + 'v"
  lh_dependencies :: "'v \<Rightarrow> string list option"

section \<open>Package managers\<close>

definition run_package_command ::
    "world tool_host \<Rightarrow> string \<Rightarrow> string list \<Rightarrow> string \<Rightarrow> (world, unit) io" where
  "run_package_command tools program args subject =
     io_then (io_context (''failed to run '' @ program) (process_output tools program args)) (\<lambda>output.
       if status_success (out_status output) then io_return ()
       else
         let stderr = trim (th_lossy tools (out_stderr output));
             stdout = trim (th_lossy tools (out_stdout output));
             detail = (if stderr = [] then stdout else stderr)
         in if detail = [] then io_result (bail (''failed to run '' @ program @ '' for '' @ subject))
            else io_result (bail (''failed to run '' @ program @ '' for '' @ subject @ '': '' @ detail)))"

definition deno_cache_args :: "string \<Rightarrow> string list" where
  "deno_cache_args package = [''cache'', ''--minimum-dependency-age'', ''0'', ''npm:'' @ package]"

definition install_package ::
    "world tool_host \<Rightarrow> RegistryAgent \<Rightarrow> PackageRunner \<Rightarrow> string \<Rightarrow> (world, InstallOutcome) io" where
  "install_package tools agent runner package =
     io_then
       (case runner of
          Npm \<Rightarrow> run_package_command tools ''npm'' [''install'', ''--global'', package] (''npm package '' @ package)
        | DenoRunner \<Rightarrow> run_package_command tools ''deno'' (deno_cache_args package)
                          (''npm package '' @ package @ '' via Deno'')
        | Uvx \<Rightarrow> run_package_command tools ''uv'' [''tool'', ''install'', package] (''uv package '' @ package))
       (\<lambda>_. io_return (PackageInstalled (ra_id agent) runner package))"

definition bare_package_name :: "string \<Rightarrow> string" where
  "bare_package_name package =
     (let after_scope = (case Option.bind (strip_prefix ''@'' package) (split_once (CHR ''/'')) of
                           Some (_, rest) \<Rightarrow> rest | None \<Rightarrow> package)
      in case rfind ''@'' after_scope of
           Some version_separator \<Rightarrow> take (length package - (length after_scope - version_separator)) package
         | None \<Rightarrow> package)"

text \<open>Up to the first character that is white space or starts a version or an extra.\<close>

fun until_requirement :: "string \<Rightarrow> string" where
  "until_requirement [] = []"
| "until_requirement (c # cs) =
     (if white_head (c # cs) > 0 \<or> c \<in> set ''[<>=!~@'' then [] else c # until_requirement cs)"

definition uv_tool_name :: "string \<Rightarrow> string result" where
  "uv_tool_name package =
     (let package = trim package; name = until_requirement package
      in if name = [] then bail (''invalid uv package requirement: '' @ package) else Inr name)"

definition npm_list_contains :: "('v \<Rightarrow> string list option) \<Rightarrow> 'v \<Rightarrow> string \<Rightarrow> bool" where
  "npm_list_contains dependencies tree package =
     (case dependencies tree of Some keys \<Rightarrow> List.member keys package | None \<Rightarrow> False)"

definition npm_package_installed ::
    "('r, 'v) lifecycle_host \<Rightarrow> string \<Rightarrow> (world, bool) io" where
  "npm_package_installed host package =
     io_then (io_context ''failed to inspect globally installed npm packages''
       (process_output (lh_tools host) ''npm'' [''list'', ''--global'', ''--depth=0'', ''--json''])) (\<lambda>output.
     io_then (io_result (with_context (''npm did not return a valid global package list: ''
           @ trim (th_lossy (lh_tools host) (out_stderr output)))
         (map_err (\<lambda>e. [e]) (lh_parse_json host (out_stdout output))))) (\<lambda>tree.
       io_return (npm_list_contains (lh_dependencies host) tree package)))"

definition uninstall_npm_package ::
    "('r, 'v) lifecycle_host \<Rightarrow> string \<Rightarrow> PackageRunner \<Rightarrow> string \<Rightarrow> (world, UninstallOutcome) io" where
  "uninstall_npm_package host agent_id runner package =
     (let package = bare_package_name package in
      io_then
        (if runner \<noteq> Npm then io_return False
         else io_then (\<lambda>w. (program_available (lh_tools host) w ''npm'', w)) (\<lambda>present.
                if \<not> present then io_return False else npm_package_installed host package)) (\<lambda>present.
        if present
        then io_then (run_package_command (lh_tools host) ''npm'' [''uninstall'', ''--global'', package]
                        (''npm package '' @ package)) (\<lambda>_.
               io_return (PackageRemoved agent_id runner package))
        else io_return (RunnerManaged agent_id runner)))"

definition uninstall_uvx_package ::
    "world tool_host \<Rightarrow> string \<Rightarrow> string \<Rightarrow> (world, UninstallOutcome) io" where
  "uninstall_uvx_package tools agent_id package =
     io_then (io_result (uv_tool_name package)) (\<lambda>tool_name.
     io_then (run_package_command tools ''uv'' [''tool'', ''uninstall'', tool_name] (''uv package '' @ tool_name)) (\<lambda>_.
       io_return (PackageRemoved agent_id Uvx tool_name)))"

section \<open>One agent\<close>

text \<open>The distribution that the runner would use, or an error.\<close>

definition chosen_distribution ::
    "('r, 'v) lifecycle_host \<Rightarrow> RegistryAgent \<Rightarrow> string \<Rightarrow> (world, ResolvedDistribution) io" where
  "chosen_distribution host agent missing w =
     (and_then (resolve_distribution (lh_platform host) (program_available (lh_tools host) w) agent)
        (\<lambda>d. ok_or d [missing]), w)"

definition no_distribution :: "RegistryAgent \<Rightarrow> string" where
  "no_distribution agent = ''agent '' @ quoted (ra_id agent) @ '' does not have an installable distribution''"

definition install_binary ::
    "('r, 'v) lifecycle_host \<Rightarrow> RegistryAgent \<Rightarrow> Platform \<Rightarrow> BinaryTarget \<Rightarrow> (world, InstallOutcome) io" where
  "install_binary host agent platform target =
     io_then (cache_binary_target (lh_inst host) (lh_cache_dir host) agent platform target) (\<lambda>cached.
       io_return (BinaryInstalled (ra_id agent) (cb_executable_path cached) (cb_cache_dir cached)))"

definition install_from_agent :: "('r, 'v) lifecycle_host \<Rightarrow> RegistryAgent \<Rightarrow> (world, InstallOutcome) io" where
  "install_from_agent host agent =
     io_then (chosen_distribution host agent (no_distribution agent)) (\<lambda>distribution.
       case distribution of
         RBinary platform target \<Rightarrow> install_binary host agent platform target
       | RNpm d runner \<Rightarrow> install_package (lh_tools host) agent runner (pd_package d)
       | RUvx d \<Rightarrow> install_package (lh_tools host) agent Uvx (pd_package d))"

definition install_from :: "('r, 'v) lifecycle_host \<Rightarrow> string \<Rightarrow> 'r Registry \<Rightarrow> (world, InstallOutcome) io" where
  "install_from host agent_id registry =
     io_then (io_result (get_agent registry agent_id)) (install_from_agent host)"

definition update_from ::
    "('r, 'v) lifecycle_host \<Rightarrow> string \<Rightarrow> 'r Registry \<Rightarrow> path \<Rightarrow> (world, InstallOutcome) io" where
  "update_from host agent_id registry root_dir =
     io_then (io_result (get_agent registry agent_id)) (\<lambda>agent.
     io_then (chosen_distribution host agent (no_distribution agent)) (\<lambda>distribution.
       case distribution of
         RBinary platform target \<Rightarrow>
           io_then (refresh_binary_target_in (lh_inst host) root_dir agent platform target) (\<lambda>cached.
           io_then (remove_replaced_platform_entries (in_sha256 (lh_inst host)) (in_locks (lh_inst host))
                      (in_decode (lh_inst host)) root_dir (ra_id agent) platform (cb_cache_dir cached)) (\<lambda>_.
             io_return (BinaryInstalled (ra_id agent) (cb_executable_path cached) (cb_cache_dir cached))))
       | RNpm d runner \<Rightarrow> install_package (lh_tools host) agent runner (pd_package d)
       | RUvx d \<Rightarrow> install_package (lh_tools host) agent Uvx (pd_package d)))"

definition uninstall_from ::
    "('r, 'v) lifecycle_host \<Rightarrow> string \<Rightarrow> 'r RegistrySnapshot \<Rightarrow> path \<Rightarrow> (world, UninstallOutcome) io" where
  "uninstall_from host agent_id registry root_dir =
     io_then (remove_cached_agent (in_sha256 (lh_inst host)) (in_locks (lh_inst host)) (in_decode (lh_inst host))
                root_dir agent_id) (\<lambda>cache_removed.
       case registry of
         Unavailable e \<Rightarrow>
           if cache_removed then io_return (CacheRemoved agent_id (Some e))
           else io_result (with_context (''could not determine how agent '' @ quoted agent_id @ '' was installed'') (bail e))
       | Available registry \<Rightarrow>
           if cache_removed then io_return (CacheRemoved agent_id None)
           else case find_agent registry agent_id of
             None \<Rightarrow> io_result (bail (''agent '' @ quoted agent_id @ '' is not installed''))
           | Some agent \<Rightarrow>
               io_then (chosen_distribution host agent (''agent '' @ quoted agent_id @ '' is not installed'')) (\<lambda>distribution.
                 case distribution of
                   RBinary _ _ \<Rightarrow> io_result (bail (''agent '' @ quoted agent_id @ '' is not installed''))
                 | RNpm d runner \<Rightarrow> uninstall_npm_package host agent_id runner (pd_package d)
                 | RUvx d \<Rightarrow> uninstall_uvx_package (lh_tools host) agent_id (pd_package d)))"

definition install_agent :: "('r, 'v) lifecycle_host \<Rightarrow> string \<Rightarrow> (world, InstallOutcome) io" where
  "install_agent host agent_id = io_then (io_result (lh_registry host)) (install_from host agent_id)"

definition update_agent :: "('r, 'v) lifecycle_host \<Rightarrow> string \<Rightarrow> (world, InstallOutcome) io" where
  "update_agent host agent_id =
     io_then (io_result (lh_registry host)) (\<lambda>registry.
     io_then (io_result (cache_root_dir (lh_cache_dir host))) (\<lambda>root_dir.
       update_from host agent_id registry root_dir))"

definition uninstall_agent :: "('r, 'v) lifecycle_host \<Rightarrow> string \<Rightarrow> (world, UninstallOutcome) io" where
  "uninstall_agent host agent_id =
     io_then (io_result (cache_root_dir (lh_cache_dir host))) (\<lambda>root_dir.
       uninstall_from host agent_id (from_result (lh_registry host)) root_dir)"

definition installed_agents :: "('r, 'v) lifecycle_host \<Rightarrow> (world, InstalledAgent list) io" where
  "installed_agents host =
     io_then (io_result (cache_root_dir (lh_cache_dir host))) (\<lambda>root_dir.
     io_then (list_cached_agents (in_decode (lh_inst host)) root_dir) (\<lambda>agents.
       io_return (map (\<lambda>a. \<lparr>ia_agent_id = ca_agent_id a, ia_agent_version = ca_agent_version a,
         ia_platform = ca_platform a, ia_cache_dir = ca_cache_dir a, ia_executable_path = ca_executable_path a\<rparr>) agents)))"

section \<open>Several agents at once\<close>

text \<open>
  \<open>run_concurrently\<close> polls at most \<open>OPERATION_CONCURRENCY\<close> operations of one task set
  (\<open>buffer_unordered\<close>). An operation is a resumption: it has returned, it has panicked (with the
  message of the panic, when that is a string), or it runs up to its next suspension when polled.
\<close>

definition OPERATION_CONCURRENCY :: nat where
  "OPERATION_CONCURRENCY = 4"

datatype ('w, 't) task =
    Returned "'t result"
  | Panicked "string option"
  | Suspended "'w \<Rightarrow> ('w, 't) task \<times> 'w"

definition panic_error :: "string \<Rightarrow> string option \<Rightarrow> 't result" where
  "panic_error agent message =
     bail (''operation for agent '' @ quoted agent @ '' panicked: ''
       @ (case message of Some m \<Rightarrow> m | None \<Rightarrow> ''unknown panic''))"

text \<open>The filter with the set \<open>seen\<close>: the first request of an id is kept.\<close>

fun distinct_ids :: "string set \<Rightarrow> string list \<Rightarrow> string list" where
  "distinct_ids seen [] = []"
| "distinct_ids seen (agent # ids) =
     (if agent \<in> seen then distinct_ids seen ids else agent # distinct_ids (insert agent seen) ids)"

record ('w, 't) pool =
  po_waiting :: "string list"
  po_running :: "(string \<times> ('w, 't) task) list"
  po_results :: "(string \<times> 't result) list"
  po_world :: 'w

definition pool_init :: "string list \<Rightarrow> 'w \<Rightarrow> ('w, 't) pool" where
  "pool_init agent_ids w =
     \<lparr>po_waiting = distinct_ids {} agent_ids, po_running = [], po_results = [], po_world = w\<rparr>"

inductive pool_step :: "(string \<Rightarrow> ('w, 't) task) \<Rightarrow> ('w, 't) pool \<Rightarrow> ('w, 't) pool \<Rightarrow> bool"
  for operation :: "string \<Rightarrow> ('w, 't) task" where
  start: "po_waiting p = agent # ids \<Longrightarrow> length (po_running p) < OPERATION_CONCURRENCY \<Longrightarrow>
     pool_step operation p (p\<lparr>po_waiting := ids, po_running := po_running p @ [(agent, operation agent)]\<rparr>)"
| resume: "po_running p = xs @ (agent, Suspended k) # ys \<Longrightarrow> k (po_world p) = (t, w) \<Longrightarrow>
     pool_step operation p (p\<lparr>po_running := xs @ (agent, t) # ys, po_world := w\<rparr>)"
| yield_result: "po_running p = xs @ (agent, Returned r) # ys \<Longrightarrow>
     pool_step operation p (p\<lparr>po_running := xs @ ys, po_results := po_results p @ [(agent, r)]\<rparr>)"
| yield_panic: "po_running p = xs @ (agent, Panicked m) # ys \<Longrightarrow>
     pool_step operation p (p\<lparr>po_running := xs @ ys, po_results := po_results p @ [(agent, panic_error agent m)]\<rparr>)"

definition pool_finished :: "('w, 't) pool \<Rightarrow> bool" where
  "pool_finished p \<longleftrightarrow> po_waiting p = [] \<and> po_running p = []"

text \<open>
  The results in the order of the requests; \<open>None\<close> is the panic of the \<open>expect\<close>. A later pair of
  an id would replace an earlier one in the map.
\<close>

fun collect_results :: "string list \<Rightarrow> (string \<Rightarrow> 't result option) \<Rightarrow> (string \<times> 't result) list option" where
  "collect_results [] by_id = Some []"
| "collect_results (agent # ids) by_id =
     (case by_id agent of
        None \<Rightarrow> None
      | Some r \<Rightarrow> map_option ((#) (agent, r)) (collect_results ids (by_id(agent := None))))"

definition run_concurrently_results :: "string list \<Rightarrow> ('w, 't) pool \<Rightarrow> (string \<times> 't result) list option" where
  "run_concurrently_results agent_ids p =
     collect_results (distinct_ids {} agent_ids) (map_of (rev (po_results p)))"

text \<open>The operations of the batch entry points; a registry failure is that of each agent.\<close>

definition atomically :: "('w, 't) io \<Rightarrow> ('w, 't) task" where
  "atomically m = Suspended (\<lambda>w. case m w of (r, w') \<Rightarrow> (Returned r, w'))"

definition failing :: "error \<Rightarrow> ('w, 't) task" where
  "failing e = Returned (bail (error_chain e))"

definition install_operation :: "('r, 'v) lifecycle_host \<Rightarrow> string \<Rightarrow> (world, InstallOutcome) task" where
  "install_operation host agent =
     (case lh_registry host of
        Inl e \<Rightarrow> failing e
      | Inr registry \<Rightarrow> atomically (install_from host agent registry))"

definition update_operation :: "('r, 'v) lifecycle_host \<Rightarrow> string \<Rightarrow> (world, InstallOutcome) task" where
  "update_operation host agent =
     (case lh_registry host of
        Inl e \<Rightarrow> failing e
      | Inr registry \<Rightarrow>
          (case cache_root_dir (lh_cache_dir host) of
             Inl e \<Rightarrow> failing e
           | Inr root_dir \<Rightarrow> atomically (update_from host agent registry root_dir)))"

definition uninstall_operation :: "('r, 'v) lifecycle_host \<Rightarrow> string \<Rightarrow> (world, UninstallOutcome) task" where
  "uninstall_operation host agent =
     (case cache_root_dir (lh_cache_dir host) of
        Inl e \<Rightarrow> failing e
      | Inr root_dir \<Rightarrow> atomically (uninstall_from host agent (from_result (lh_registry host)) root_dir))"

section \<open>A batch reports every request once, in order\<close>

lemma distinct_ids_set: "set (distinct_ids seen ids) = set ids - seen"
  by (induction seen ids rule: distinct_ids.induct) auto

lemma distinct_ids_distinct: "distinct (distinct_ids seen ids)"
  by (induction seen ids rule: distinct_ids.induct) (auto simp: distinct_ids_set)

text \<open>What a task can end with, in whatever states of the world it is polled.\<close>

inductive ends_with :: "string \<Rightarrow> ('w, 't) task \<Rightarrow> 't result \<Rightarrow> bool" for agent where
  returned: "ends_with agent (Returned r) r"
| panicked: "ends_with agent (Panicked m) (panic_error agent m)"
| suspended: "ends_with agent (fst (k w)) r \<Longrightarrow> ends_with agent (Suspended k) r"

definition pool_ids :: "('w, 't) pool \<Rightarrow> string list" where
  "pool_ids p = map fst (po_results p) @ map fst (po_running p) @ po_waiting p"

definition pool_ok :: "(string \<Rightarrow> ('w, 't) task) \<Rightarrow> string list \<Rightarrow> ('w, 't) pool \<Rightarrow> bool" where
  "pool_ok operation agent_ids p \<longleftrightarrow>
     mset (pool_ids p) = mset (distinct_ids {} agent_ids)
     \<and> length (po_running p) \<le> OPERATION_CONCURRENCY
     \<and> (\<forall>(agent, t) \<in> set (po_running p). \<forall>r. ends_with agent t r \<longrightarrow> ends_with agent (operation agent) r)
     \<and> (\<forall>(agent, r) \<in> set (po_results p). ends_with agent (operation agent) r)"

lemma pool_ok_init: "pool_ok operation agent_ids (pool_init agent_ids w)"
  by (simp add: pool_ok_def pool_init_def pool_ids_def)

lemma pool_ok_step:
  assumes "pool_step operation p p'" "pool_ok operation agent_ids p"
  shows "pool_ok operation agent_ids p'"
  using assms
proof cases
  case (resume xs agent k ys t w)
  have "ends_with agent (Suspended k) r" if "ends_with agent t r" for r
    using that resume(3) by (metis ends_with.suspended fst_conv)
  with resume assms(2) show ?thesis by (auto simp: pool_ok_def pool_ids_def)
qed (auto simp: pool_ok_def pool_ids_def intro: ends_with.intros)

lemma pool_ok_steps:
  "(pool_step operation)\<^sup>*\<^sup>* (pool_init agent_ids w) p \<Longrightarrow> pool_ok operation agent_ids p"
  by (induction rule: rtranclp_induct) (auto intro: pool_ok_init pool_ok_step)

lemma collect_results_all:
  assumes "distinct ids" "\<forall>agent\<in>set ids. by_id agent \<noteq> None"
  shows "collect_results ids by_id = Some (map (\<lambda>agent. (agent, the (by_id agent))) ids)"
  using assms
proof (induction ids by_id rule: collect_results.induct)
  case (2 agent ids by_id)
  then obtain r where r: "by_id agent = Some r" by auto
  have "map (\<lambda>i. (i, the ((by_id(agent := None)) i))) ids = map (\<lambda>i. (i, the (by_id i))) ids"
    using 2(2) by (intro map_cong) auto
  moreover have "collect_results ids (by_id(agent := None))
      = Some (map (\<lambda>i. (i, the ((by_id(agent := None)) i))) ids)"
    using 2 r by (intro 2(1)[OF r]) auto
  ultimately show ?case using r by simp
qed simp

lemma finished_batch:
  assumes "(pool_step operation)\<^sup>*\<^sup>* (pool_init agent_ids w) p" "pool_finished p"
  shows "\<exists>results. run_concurrently_results agent_ids p = Some results
     \<and> map fst results = distinct_ids {} agent_ids
     \<and> (\<forall>(agent, r) \<in> set results. ends_with agent (operation agent) r)"
proof -
  let ?ids = "distinct_ids {} agent_ids" and ?m = "map_of (rev (po_results p))"
  have ok: "pool_ok operation agent_ids p" using pool_ok_steps assms(1) .
  then have "set (map fst (po_results p)) = set ?ids"
    using assms(2) mset_eq_setD[of "pool_ids p" ?ids] by (simp add: pool_ok_def pool_ids_def pool_finished_def)
  then have some: "\<forall>agent\<in>set ?ids. ?m agent \<noteq> None" by (simp add: map_of_eq_None_iff)
  moreover have "ends_with agent (operation agent) (the (?m agent))" if "agent \<in> set ?ids" for agent
    using that some ok map_of_SomeD[of "rev (po_results p)" agent] by (fastforce simp: pool_ok_def)
  ultimately show ?thesis
    using collect_results_all[OF distinct_ids_distinct some]
    by (auto simp: run_concurrently_results_def comp_def)
qed

text \<open>
  When a batch has run to its end, in whatever order its operations were polled and
  ended, it does not panic, it reports each distinct id once, in the order of the first requests,
  and what it reports for an id is a result of that id's operation, or the error that names the
  panic of that operation.
\<close>

lemma batch_results_in_request_order:
  assumes "(pool_step operation)\<^sup>*\<^sup>* (pool_init agent_ids w) p" "pool_finished p"
  shows "\<exists>results. run_concurrently_results agent_ids p = Some results
     \<and> map fst results = distinct_ids {} agent_ids
     \<and> (\<forall>(agent, r) \<in> set results. ends_with agent (operation agent) r)"
  by (rule finished_batch[OF assms])

text \<open>Two agents; the second one's operation ends first, the first one's panics.\<close>

definition demo_task :: "string \<Rightarrow> (unit, nat) task" where
  "demo_task agent = (if agent = ''a'' then Suspended (\<lambda>w. (Panicked (Some ''boom''), w)) else Returned (Inr 1))"

definition demo_pool :: "(unit, nat) pool" where
  "demo_pool = \<lparr>po_waiting = [], po_running = [],
     po_results = [(''b'', Inr 1), (''a'', panic_error ''a'' (Some ''boom''))], po_world = ()\<rparr>"

lemma demo_pool_start:
  "pool_init [''a'', ''b'', ''a''] () = \<lparr>po_waiting = [''a'', ''b''], po_running = [], po_results = [], po_world = ()\<rparr>"
  by (simp add: pool_init_def)

lemma demo_pool_run: "(pool_step demo_task)\<^sup>*\<^sup>* (pool_init [''a'', ''b'', ''a''] ()) demo_pool"
proof -
  let ?p = "\<lambda>ws rs out. \<lparr>po_waiting = ws, po_running = rs, po_results = out, po_world = ()\<rparr>"
  let ?k = "\<lambda>w. (Panicked (Some ''boom''), w)"
  have "pool_step demo_task (?p [''a'', ''b''] [] []) (?p [''b''] [(''a'', demo_task ''a'')] [])"
    using pool_step.start[of "?p [''a'', ''b''] [] []" "''a''" "[''b'']" demo_task] by (simp add: OPERATION_CONCURRENCY_def)
  moreover have "pool_step demo_task (?p [''b''] [(''a'', demo_task ''a'')] [])
      (?p [] [(''a'', demo_task ''a''), (''b'', demo_task ''b'')] [])"
    using pool_step.start[of "?p [''b''] [(''a'', demo_task ''a'')] []" "''b''" "[]" demo_task]
    by (simp add: OPERATION_CONCURRENCY_def)
  moreover have "pool_step demo_task (?p [] [(''a'', demo_task ''a''), (''b'', demo_task ''b'')] [])
      (?p [] [(''a'', demo_task ''a'')] [(''b'', Inr 1)])"
    using pool_step.yield_result[of "?p [] [(''a'', demo_task ''a''), (''b'', demo_task ''b'')] []"
        "[(''a'', demo_task ''a'')]" "''b''" "Inr 1" "[]" demo_task] by (simp add: demo_task_def)
  moreover have "pool_step demo_task (?p [] [(''a'', demo_task ''a'')] [(''b'', Inr 1)])
      (?p [] [(''a'', Panicked (Some ''boom''))] [(''b'', Inr 1)])"
    using pool_step.resume[of "?p [] [(''a'', demo_task ''a'')] [(''b'', Inr 1)]" "[]" "''a''" ?k "[]"
        "Panicked (Some ''boom'')" "()" demo_task] by (simp add: demo_task_def)
  moreover have "pool_step demo_task (?p [] [(''a'', Panicked (Some ''boom''))] [(''b'', Inr 1)]) demo_pool"
    using pool_step.yield_panic[of "?p [] [(''a'', Panicked (Some ''boom''))] [(''b'', Inr 1)]" "[]" "''a''"
        "Some ''boom''" "[]" demo_task] by (simp add: demo_pool_def)
  ultimately show ?thesis
    unfolding demo_pool_start by (blast intro: converse_rtranclp_into_rtranclp)
qed

theorem batch_results_in_request_order_witness:
  "run_concurrently_results [''a'', ''b'', ''a''] demo_pool =
     Some [(''a'', bail ''operation for agent \"a\" panicked: boom''), (''b'', Inr 1)]
   \<and> map fst (the (run_concurrently_results [''a'', ''b'', ''a''] demo_pool)) = distinct_ids {} [''a'', ''b'', ''a'']"
  using batch_results_in_request_order[OF demo_pool_run]
  by (auto simp: pool_finished_def demo_pool_def run_concurrently_results_def panic_error_def quoted_def dq_def bail_def)

section \<open>A batch ends\<close>

definition subtask :: "(('w, 't) task \<times> ('w, 't) task) set" where
  "subtask = {(t, Suspended k) | t k. \<exists>w. t = fst (k w)}"

lemma wf_subtask: "wf (subtask :: (('w, 't) task \<times> ('w, 't) task) set)"
  unfolding wf_def
proof (intro allI impI)
  fix P :: "('w, 't) task \<Rightarrow> bool" and t
  assume hyp: "\<forall>x. (\<forall>y. (y, x) \<in> subtask \<longrightarrow> P y) \<longrightarrow> P x"
  show "P t"
  proof (induction t)
    case (Suspended k)
    have "P (fst (k w))" for w
      using Suspended[of "k w" "fst (k w)"] by (cases "k w") (metis fst_conv fsts.intros rangeI)
    then show ?case using hyp[THEN spec, THEN mp, of "Suspended k"] by (auto simp: subtask_def)
  qed (rule hyp[THEN spec, THEN mp], simp add: subtask_def)+
qed

definition pool_tasks :: "(string \<Rightarrow> ('w, 't) task) \<Rightarrow> ('w, 't) pool \<Rightarrow> ('w, 't) task multiset" where
  "pool_tasks operation p = mset (map snd (po_running p)) + mset (map operation (po_waiting p))"

lemma pool_step_decreases:
  assumes "pool_step operation p p'"
  shows "((pool_tasks operation p', length (po_waiting p')), (pool_tasks operation p, length (po_waiting p)))
     \<in> mult subtask <*lex*> less_than"
  using assms
proof cases
  case (start agent ids)
  then show ?thesis by (simp add: pool_tasks_def)
next
  case (resume xs agent k ys t w)
  let ?I = "mset (map snd xs) + mset (map snd ys) + mset (map operation (po_waiting p))"
  have "(t, Suspended k) \<in> subtask" using resume(3) by (auto simp: subtask_def intro: exI[of _ "po_world p"])
  then have "(?I + {#t#}, ?I + {#Suspended k#}) \<in> mult subtask"
    by (intro one_step_implies_mult) auto
  with resume show ?thesis by (simp add: pool_tasks_def ac_simps)
next
  case (yield_result xs agent r ys)
  let ?I = "mset (map snd xs) + mset (map snd ys) + mset (map operation (po_waiting p))"
  have "(?I + {#}, ?I + {#Returned r#}) \<in> mult subtask" by (intro one_step_implies_mult) auto
  with yield_result show ?thesis by (simp add: pool_tasks_def ac_simps)
next
  case (yield_panic xs agent m ys)
  let ?I = "mset (map snd xs) + mset (map snd ys) + mset (map operation (po_waiting p))"
  have "(?I + {#}, ?I + {#Panicked m#}) \<in> mult subtask" by (intro one_step_implies_mult) auto
  with yield_panic show ?thesis by (simp add: pool_tasks_def ac_simps)
qed

lemma pool_progress:
  assumes "\<not> pool_finished p"
  shows "\<exists>p'. pool_step operation p p'"
proof (cases "po_running p")
  case Nil
  then obtain agent ids where "po_waiting p = agent # ids"
    using assms by (auto simp: pool_finished_def neq_Nil_conv)
  with Nil show ?thesis using pool_step.start[of p agent ids] by (auto simp: OPERATION_CONCURRENCY_def)
next
  case (Cons x ys)
  obtain agent t where "x = (agent, t)" by force
  with Cons show ?thesis
    by (cases t) (metis append_Nil pool_step.resume pool_step.yield_panic pool_step.yield_result surj_pair)+
qed

interpretation batch: terminating_machine "\<lambda>p. \<exists>ids w. p = pool_init ids w" "pool_step operation" "\<lambda>_. True"
    "inv_image (mult subtask <*lex*> less_than) (\<lambda>p. (pool_tasks operation p, length (po_waiting p)))" pool_finished
  for operation
proof
  show "wf (inv_image (mult subtask <*lex*> less_than) (\<lambda>p. (pool_tasks operation p, length (po_waiting p))))"
    by (intro wf_inv_image wf_lex_prod wf_mult wf_subtask wf_less_than)
qed (auto dest: pool_step_decreases pool_progress)


section \<open>An update keeps what it installed\<close>

lemma keeps_dir_unchanged:
  assumes "unchanged_outside ps (w_files w) (w_files w')" "\<forall>p\<in>ps. \<not> near d p"
  shows "keeps_dir d w w'"
proof -
  have "\<not> prefix p q" if "p \<in> ps" "near d q" for p q
    using that assms(2) by (auto simp: near_def dest: prefix_same_cases prefix_order.trans)
  with assms(1) show ?thesis by (auto simp: keeps_dir_def unchanged_outside_def)
qed

text \<open>
  What the log does to the tree of an entry: nothing below it changes, whatever the file system
  looks like, and nothing above it either, when it stands on directories.
\<close>

definition spares_dir :: "path \<Rightarrow> world \<Rightarrow> world \<Rightarrow> bool" where
  "spares_dir d w w' \<longleftrightarrow> subtree (w_files w') d = subtree (w_files w) d \<and> keeps_dir d w w'"

lemma spares_dir_trans [simp]: "transp (spares_dir d)"
  using keeps_dir_trans[of d] unfolding spares_dir_def transp_def by metis

lemma spares_dir_same: "w_files w' = w_files w \<Longrightarrow> spares_dir d w w'"
  by (simp add: spares_dir_def keeps_dir_def)

lemma spares_dir_unchanged:
  assumes "unchanged_outside ps (w_files w) (w_files w')" "\<forall>p\<in>ps. \<not> near d p"
  shows "spares_dir d w w'"
  unfolding spares_dir_def
  using assms by (intro conjI unchanged_subtree[OF assms(1)] keeps_dir_unchanged[OF assms])
    (auto simp: near_def apart_def)

lemma put_node_unchanged:
  "p \<noteq> [] \<Longrightarrow> fs' = fs \<or> (\<exists>n. fs' = put_node p n fs) \<Longrightarrow> unchanged_outside {p} fs fs'"
  by (auto simp: unchanged_outside_def lookup_put_node)

lemma log_calls_unchanged:
  assumes "p \<noteq> []"
  shows "unchanged_outside {p} (w_files w) (w_files (snd (sys_open_create p w)))"
    and "unchanged_outside {p} (w_files w) (w_files (snd (sys_write p bytes w)))"
    and "unchanged_outside {p} (w_files w) (w_files (snd (sys_append p bytes w)))"
  by (rule put_node_unchanged[OF assms];
      auto simp: sys_open_create_def sys_write_def sys_append_def append_to_def syscall_def Let_def intact_def
        split: option.splits node.splits)+

lemma snd_sys_io: "snd (sys_io f w) = snd (f w)"
  by (simp add: sys_io_def split_beta)

lemma io_keeps_calls: "(\<And>w. R w (snd (f w))) \<Longrightarrow> io_keeps R (sys_io f)"
  by (simp add: io_keeps_def snd_sys_io)

lemma make_dirs_look:
  "snd (make_dirs ps fs) = fs' \<Longrightarrow> [] \<notin> set ps \<Longrightarrow> q \<notin> set ps \<Longrightarrow> lookup fs' q = lookup fs q"
  by (induction ps fs rule: make_dirs.induct) (auto simp: lookup_put_node split: option.splits node.splits)

lemma root_exists_spares_dir:
  assumes "strict_prefix root d"
  shows "spares_dir d w (snd (sys_create_dir_all root w))"
proof -
  let ?ps = "map (\<lambda>n. take n root) [1..<Suc (length root)]"
  let ?w = "snd (sys_create_dir_all root w)"
  have files: "w_files ?w = w_files w \<or> w_files ?w = snd (make_dirs ?ps (w_files w))"
    by (auto simp: sys_create_dir_all_def syscall_def Let_def intact_def split: option.splits prod.splits)
  have ps: "prefix p root \<and> p \<noteq> []" if "p \<in> set ?ps" for p
    using that by (auto simp: take_is_prefix)
  have "d @ q \<notin> set ?ps" for q
  proof
    assume "d @ q \<in> set ?ps"
    then have "length (d @ q) \<le> length root" using ps prefix_length_le by metis
    then show False using prefix_length_less[OF assms] by simp
  qed
  then have "lookup (snd (make_dirs ?ps (w_files w))) (d @ q) = lookup (w_files w) (d @ q)" for q
    using ps by (intro make_dirs_look[OF refl]) blast+
  then have "subtree (w_files ?w) d = subtree (w_files w) d"
    using files unfolding subtree_def by metis
  moreover have "w_files ?w = w_files w" if anch: "anchored (w_files w) d"
  proof -
    have "lookup (w_files w) p = Some DirNode" if "p \<in> set ?ps" for p
    proof -
      have "prefix p d" using ps[OF that] assms by (metis prefix_order.trans strict_prefix_def)
      then have "take (length p) d = p" by (auto simp: prefix_def)
      then show ?thesis using anch unfolding anchored_def by metis
    qed
    then show ?thesis using files make_dirs_there[of ?ps "w_files w"] by auto
  qed
  ultimately show ?thesis by (auto simp: spares_dir_def keeps_dir_def)
qed

lemma rename_spares_dir:
  assumes "apart a b" "\<not> near d a" "\<not> near d b"
  shows "spares_dir d w (snd (sys_rename a b w))"
proof -
  obtain r w' where run: "sys_rename a b w = (r, w')" by fastforce
  have "unchanged_outside {a, b} (w_files w) (w_files w')"
    by (cases rule: rename_cases[OF assms(1) run]) (simp_all add: unchanged_move[OF assms(1)])
  then show ?thesis using spares_dir_unchanged[of "{a, b}" w w' d] assms run by simp
qed

lemma spares_dir_reads: "reads_only m \<Longrightarrow> io_keeps (spares_dir d) m"
  by (auto simp: io_keeps_def same_files_def spares_dir_same)

lemma log_spares_dir:
  assumes d: "prefix (root @ [AGENTS_DIR]) d"
  shows "io_keeps (spares_dir d) (append_install_log_inner locks (root @ [INSTALL_LOG_FILE_NAME]) line)"
proof -
  let ?p = "root @ [INSTALL_LOG_FILE_NAME]" and ?l = "root @ [''agent-install.log.lock'']"
    and ?t = "root @ [''agent-install.log.tmp'']"
  have far: "\<not> near d ?p" "\<not> near d ?l" "\<not> near d ?t" and ap: "apart ?t ?p" and root: "strict_prefix root d"
    using d by (auto simp: near_def prefix_def strict_prefix_def apart_def AGENTS_DIR_def INSTALL_LOG_FILE_NAME_def)
  have paths: "install_log_lock_path ?p = ?l" "with_extension ?p ''log.tmp'' = ?t"
    using log_paths by simp_all
  have one: "io_keeps (spares_dir d) (sys_io f)" if "\<And>w. unchanged_outside {q} (w_files w) (w_files (snd (f w)))" "\<not> near d q" for f q
    using spares_dir_unchanged[OF that(1)] that(2) by (intro io_keeps_calls) blast
  have opened: "io_keeps (spares_dir d) (sys_io (sys_open_create q))" "io_keeps (spares_dir d) (sys_io (sys_write q b))"
    "io_keeps (spares_dir d) (sys_io (sys_append q b))" if "\<not> near d q" for q b
  proof -
    have "q \<noteq> []" using that by (auto simp: near_def)
    with that show "io_keeps (spares_dir d) (sys_io (sys_open_create q))" "io_keeps (spares_dir d) (sys_io (sys_write q b))"
      "io_keeps (spares_dir d) (sys_io (sys_append q b))" by (intro one log_calls_unchanged; simp)+
  qed
  have reads: "io_keeps (spares_dir d) (sys_io (sys_read ?p))" "io_keeps (spares_dir d) (sys_io (sys_metadata ?p))"
    "io_keeps (spares_dir d) (sys_io (sys_open ?p))" "io_keeps (spares_dir d) (lock_exclusive locks ?l)"
    "io_keeps (spares_dir d) (io_return ())"
    by (intro spares_dir_reads; auto intro!: keeps_intros simp: sys_read_def sys_metadata_def sys_open_def)+
      (simp_all add: io_keeps_def lock_exclusive_def spares_dir_same)
  have moved: "io_keeps (spares_dir d) (sys_io (sys_rename ?t ?p))"
    using far ap by (intro io_keeps_calls rename_spares_dir) simp_all
  have made: "io_keeps (spares_dir d) (sys_io (sys_create_dir_all root))"
    by (intro io_keeps_calls root_exists_spares_dir root)
  have "io_keeps (spares_dir d) (truncate_install_log ?p)"
    unfolding truncate_install_log_def Let_def paths by (intro io_keeps_then[OF spares_dir_trans] reads opened far moved)
  then show ?thesis
    unfolding append_install_log_inner_def paths
    by (auto intro!: io_keeps_then[OF spares_dir_trans] reads opened far made)
qed

lemma record_spares_dir:
  assumes "prefix (root @ [AGENTS_DIR]) d"
  shows "spares_dir d w (snd (record_install_log_in locks now root agent platform result w))"
  using log_spares_dir[OF assms, of locks] io_keepsD
  by (fastforce simp: record_install_log_in_def append_install_log_def split: sum.splits prod.splits)

text \<open>What a program can hand out.\<close>

definition hands_out :: "('a \<Rightarrow> bool) \<Rightarrow> ('w, 'a) io \<Rightarrow> bool" where
  "hands_out P m \<longleftrightarrow> (\<forall>w x w'. m w = (Inr x, w') \<longrightarrow> P x)"

lemma hands_out_return: "P x \<Longrightarrow> hands_out P (io_return x)"
  and hands_out_then: "(\<And>x. hands_out P (f x)) \<Longrightarrow> hands_out P (io_then m f)"
  and hands_out_try: "(\<And>r. hands_out P (g r)) \<Longrightarrow> hands_out P (io_try m' g)"
  by (auto simp: hands_out_def io_then_eq_Inr io_try_def split: prod.splits)

lemma validated_dir:
  assumes "validate_cached_binary_blocking sha256 decode paths expected w = (Inr (Some c), w')"
  shows "cb_cache_dir c = bp_cache_dir paths"
proof -
  have "hands_out (\<lambda>r. \<forall>c. r = Some c \<longrightarrow> cb_cache_dir c = bp_cache_dir paths)
      (validate_cached_binary_blocking sha256 decode paths expected)"
    unfolding validate_cached_binary_blocking_def
    by (auto split: option.split sum.split intro!: hands_out_then hands_out_try hands_out_return)
  with assms show ?thesis by (auto simp: hands_out_def)
qed

text \<open>
  Property C15: once an update has installed the new distribution, the clean-up that follows it
  and the install log leave it alone: whatever else of the clean-up fails or finds locked, the entry
  that the update reports is, when the update is over, still one that validation accepts for the
  requested target, and a success reports exactly that entry.
\<close>

theorem update_keeps_the_fresh_entry:
  assumes "find_agent registry agent_id = Some agent"
    and "resolve_distribution (lh_platform host) (program_available (lh_tools host) w) agent
      = Inr (Some (RBinary platform target))"
    and "refresh_binary_target_in (lh_inst host) root agent platform target w = (Inr c, w1)"
    and "anchored (w_files w1) (cb_cache_dir c)"
    and "update_from host agent_id registry root w = (r, w')"
  shows "r \<in> {Inr (BinaryInstalled (ra_id agent) (cb_executable_path c) (cb_cache_dir c))} \<union> range Inl
     \<and> (\<exists>digest paths (c0 :: BinaryCacheLock CachedBinary). bt_sha256 target = Some digest
         \<and> paths = binary_cache_paths_with_digest (in_sha256 (lh_inst host)) root (ra_id agent) (ra_version agent) platform digest
         \<and> was_validated (\<lambda>p. validate_cached_binary_blocking (in_sha256 (lh_inst host)) (in_decode (lh_inst host)) p
               (BinaryCacheMetadata_new (ra_id agent) (ra_version agent) platform (bt_archive target) (bt_cmd target) (Some digest)))
             paths c0 (w_files w')
         \<and> cb_executable_path c = cb_executable_path c0 \<and> cb_cache_dir c = bp_cache_dir paths)"
proof -
  let ?inst = "lh_inst host"
  let ?clean = "remove_replaced_platform_entries (in_sha256 ?inst) (in_locks ?inst) (in_decode ?inst) root
      (ra_id agent) platform (cb_cache_dir c)"
  obtain w0 where run: "cache_binary_target_in_mode ?inst never root agent platform target True w = (Inr c, w0)"
    and w1: "w1 = snd (record_install_log_in (in_locks ?inst) (in_now ?inst) root agent platform (Inr c) w0)"
    using assms(3) by (auto simp: refresh_binary_target_in_def io_try_def split: prod.splits)
  from installation_validates[OF run] obtain digest paths c0 where digest: "bt_sha256 target = Some digest"
    and paths: "paths = binary_cache_paths_with_digest (in_sha256 ?inst) root (ra_id agent) (ra_version agent) platform digest"
    and val: "was_validated (\<lambda>p. validate_cached_binary_blocking (in_sha256 ?inst) (in_decode ?inst) p
           (BinaryCacheMetadata_new (ra_id agent) (ra_version agent) platform (bt_archive target) (bt_cmd target) (Some digest)))
         paths c0 (w_files w0)"
    and c: "\<exists>l. c = c0\<lparr>cb_cache_use_lease := l\<rparr>" by blast
  have dir: "cb_cache_dir c = bp_cache_dir paths"
    using val c validated_dir by (fastforce simp: was_validated_def)
  obtain x p v where d: "bp_cache_dir paths = root @ [AGENTS_DIR, x, p, v]"
    by (simp add: paths binary_cache_paths_with_digest_def binary_cache_paths_def Let_def)
  have same1: "subtree (w_files w1) (bp_cache_dir paths) = subtree (w_files w0) (bp_cache_dir paths)"
  proof -
    have "spares_dir (bp_cache_dir paths) w0 w1" unfolding w1 by (rule record_spares_dir) (simp add: d)
    then show ?thesis by (simp add: spares_dir_def)
  qed
  obtain r2 w2 where clean: "?clean w1 = (r2, w2)" by fastforce
  then have "subtree (w_files w2) (bp_cache_dir paths) = subtree (w_files w1) (bp_cache_dir paths)"
    using removal_keeps_entry[of _ _ _ root _ _ "Some (cb_cache_dir c)" Skip w1 r2 w2 x p v] assms(4)
    by (simp add: remove_replaced_platform_entries_def dir d)
  moreover have "w' = w2" "r \<in> {Inr (BinaryInstalled (ra_id agent) (cb_executable_path c) (cb_cache_dir c))} \<union> range Inl"
    using assms(1,2,3,5) clean
    by (auto simp: update_from_def io_then_def get_agent_def chosen_distribution_def split: sum.splits)
  ultimately have "was_validated (\<lambda>p. validate_cached_binary_blocking (in_sha256 ?inst) (in_decode ?inst) p
           (BinaryCacheMetadata_new (ra_id agent) (ra_version agent) platform (bt_archive target) (bt_cmd target) (Some digest)))
         paths c0 (w_files w')"
    using val same1 by (simp add: was_validated_def)
  moreover have "cb_executable_path c = cb_executable_path c0" using c by auto
  ultimately show ?thesis
    using digest paths dir \<open>r \<in> _\<close> by (intro conjI exI[of _ digest] exI[of _ paths] exI[of _ c0])
qed

definition demo_host :: "(unit, unit) lifecycle_host" where
  "demo_host =
     \<lparr>lh_inst = demo_installer,
      lh_tools = \<lparr>th_path_var = None, th_home_dir = None, th_which = (\<lambda>_ _ _. None),
        th_spawn = (\<lambda>_ _ w. (Inl ''not found'', w)), th_lossy = id\<rparr>,
      lh_platform = Inr LinuxX86_64, lh_cache_dir = Some [], lh_registry = Inr \<lparr>rg_version = ''1'', rg_agents = [demo_agent], rg_extensions = None\<rparr>,
      lh_parse_json = (\<lambda>_. Inr ()), lh_dependencies = (\<lambda>_. None)\<rparr>"

lemma demo_installed_anchored: "anchored demo_installed (demo_home @ [demo_key])"
proof -
  have "lookup demo_installed (take n (demo_home @ [demo_key])) = Some DirNode" for n
    by (cases n; cases "n - 1"; cases "n - 2"; cases "n - 3"; cases "n - 4"; simp add: demo_installed_def demo_home_def demo_root_def lookup_def)
  then show ?thesis by (simp add: anchored_def)
qed

theorem update_keeps_the_fresh_entry_witness:
  "\<exists>w' paths (c0 :: BinaryCacheLock CachedBinary).
     snd (update_from demo_host ''a'' \<lparr>rg_version = ''1'', rg_agents = [demo_agent], rg_extensions = (None :: unit list option)\<rparr> demo_root
       (calm_world demo_installed)) = w'
     \<and> was_validated (\<lambda>p. validate_cached_binary_blocking rev (\<lambda>_. Some demo_record) p
         (BinaryCacheMetadata_new ''a'' ''1'' LinuxX86_64 ''u'' ''c'' (Some (replicate 64 (CHR ''0'')))))
         paths c0 (w_files w')"
proof -
  let ?r = "\<lparr>rg_version = ''1'', rg_agents = [demo_agent], rg_extensions = (None :: unit list option)\<rparr>"
  let ?w = "calm_world demo_installed" and ?d = "demo_home @ [demo_key]"
  obtain c w0 where hit: "cache_binary_target_in_mode demo_installer never demo_root demo_agent LinuxX86_64 demo_target True ?w = (Inr c, w0)"
    "w_files w0 = demo_installed"
    using demo_install_hit by blast
  let ?w1 = "snd (record_install_log_in (in_locks demo_installer) (in_now demo_installer) demo_root demo_agent LinuxX86_64
      (Inr c :: BinaryCacheLock CachedBinary result) w0)"
  have refresh: "refresh_binary_target_in (lh_inst demo_host) demo_root demo_agent LinuxX86_64 demo_target ?w = (Inr c, ?w1)"
    using hit(1) by (simp add: refresh_binary_target_in_def io_try_def demo_host_def)
  have "spares_dir ?d w0 ?w1" by (rule record_spares_dir) (simp add: demo_home_def demo_root_def AGENTS_DIR_def)
  then have "keeps_dir ?d w0 ?w1" by (simp add: spares_dir_def)
  then have anch: "anchored (w_files ?w1) ?d"
    using anchored_kept demo_installed_anchored hit(2) by metis
  have "cb_cache_dir c = ?d"
    using installation_validates[OF hit(1)] validated_dir demo_installed_paths
    by (fastforce simp: was_validated_def demo_installer_def demo_agent_def demo_target_def)
  with anch have anch: "anchored (w_files ?w1) (cb_cache_dir c)" by simp
  obtain r w' where run: "update_from demo_host ''a'' ?r demo_root ?w = (r, w')" by fastforce
  have agent: "find_agent ?r ''a'' = Some demo_agent" by (simp add: find_agent_def demo_agent_def)
  have dist: "resolve_distribution (lh_platform demo_host) (program_available (lh_tools demo_host) ?w) demo_agent
      = Inr (Some (RBinary LinuxX86_64 demo_target))"
    by (simp add: resolve_distribution_def demo_host_def demo_agent_def demo_binaries_def for_platform_def)
  have parts: "in_sha256 (lh_inst demo_host) = rev" "in_decode (lh_inst demo_host) = (\<lambda>_. Some demo_record)"
    "ra_id demo_agent = ''a''" "ra_version demo_agent = ''1''" "bt_archive demo_target = ''u''" "bt_cmd demo_target = ''c''"
    "bt_sha256 demo_target = Some (replicate 64 (CHR ''0''))"
    by (simp_all only: demo_host_def demo_installer_def demo_agent_def demo_target_def lifecycle_host.simps installer.simps
        RegistryAgent.simps BinaryTarget.simps)
  from update_keeps_the_fresh_entry[OF agent dist refresh anch run] obtain digest paths and c0 :: "BinaryCacheLock CachedBinary"
    where "bt_sha256 demo_target = Some digest"
      "was_validated (\<lambda>p. validate_cached_binary_blocking rev (\<lambda>_. Some demo_record) p
         (BinaryCacheMetadata_new ''a'' ''1'' LinuxX86_64 ''u'' ''c'' (Some digest))) paths c0 (w_files w')"
    unfolding parts by blast
  then show ?thesis
    using run parts(7) by (intro exI[of _ w'] exI[of _ paths] exI[of _ c0]) simp
qed

section \<open>Package names\<close>

text \<open>The npm package requirements of the registry: \<open>name\<close>, \<open>@scope/name\<close>, each with \<open>@version\<close> or without.\<close>

definition npm_name :: "string option \<Rightarrow> string \<Rightarrow> string" where
  "npm_name scope name = (case scope of None \<Rightarrow> name | Some s \<Rightarrow> ''@'' @ s @ ''/'' @ name)"

definition npm_requirement :: "string option \<Rightarrow> string \<Rightarrow> string option \<Rightarrow> string" where
  "npm_requirement scope name version =
     npm_name scope name @ (case version of None \<Rightarrow> [] | Some v \<Rightarrow> ''@'' @ v)"

definition npm_parts_ok :: "string option \<Rightarrow> string \<Rightarrow> string option \<Rightarrow> bool" where
  "npm_parts_ok scope name version \<longleftrightarrow>
     name \<noteq> [] \<and> CHR ''@'' \<notin> set name \<and> (\<forall>s\<in>set_option scope. CHR ''/'' \<notin> set s) \<and> (\<forall>v\<in>set_option version. CHR ''@'' \<notin> set v)"

lemma prefix_one: "prefix [c] s \<Longrightarrow> c \<in> set s"
  by (auto simp: prefix_def)

lemma rfind_at:
  assumes "CHR ''@'' \<notin> set v"
  shows "rfind ''@'' (a @ ''@'' @ v) = Some (length a)"
proof (rule rfind_eqI)
  fix j assume "length a < j" "j \<le> length (a @ ''@'' @ v)"
  then have "drop j (a @ ''@'' @ v) = drop (j - length a - 1) v"
    by (cases "j - length a") auto
  then show "\<not> prefix ''@'' (drop j (a @ ''@'' @ v))"
    using assms prefix_one[of "CHR ''@''" "drop (j - length a - 1) v"] by (auto dest: in_set_dropD)
qed simp_all

lemma rfind_at_none: "CHR ''@'' \<notin> set s \<Longrightarrow> rfind ''@'' s = None"
  unfolding rfind_None by (auto dest!: prefix_one in_set_dropD)

definition past_scope :: "string \<Rightarrow> string" where
  "past_scope package = (case Option.bind (strip_prefix ''@'' package) (split_once (CHR ''/'')) of
     Some (_, rest) \<Rightarrow> rest | None \<Rightarrow> package)"

lemma bare_package_name_eq:
  "bare_package_name package =
     (case rfind ''@'' (past_scope package) of
        Some i \<Rightarrow> take (length package - (length (past_scope package) - i)) package
      | None \<Rightarrow> package)"
  unfolding bare_package_name_def past_scope_def Let_def ..

lemma after_scope:
  assumes "npm_parts_ok scope name version"
  shows "past_scope (npm_requirement scope name version) = npm_requirement None name version"
proof (cases scope)
  case None
  have "hd name \<noteq> CHR ''@''" using assms hd_in_set unfolding npm_parts_ok_def by metis
  then have "strip_prefix ''@'' (npm_requirement None name version) = None"
    using assms by (cases name) (auto simp: strip_prefix_def npm_requirement_def npm_name_def npm_parts_ok_def)
  with None show ?thesis by (simp add: past_scope_def)
next
  case (Some s)
  let ?rest = "npm_requirement None name version"
  have "npm_requirement scope name version = ''@'' @ s @ CHR ''/'' # ?rest"
    by (simp add: npm_requirement_def npm_name_def Some)
  moreover have "split_once (CHR ''/'') (s @ CHR ''/'' # ?rest) = Some (s, ?rest)"
    using assms Some by (intro split_once_append) (simp add: npm_parts_ok_def)
  moreover have "strip_prefix ''@'' (''@'' @ x) = Some x" for x by (simp add: strip_prefix_Some)
  ultimately show ?thesis by (simp add: past_scope_def)
qed

lemma bare_name:
  assumes "npm_parts_ok scope name version"
  shows "bare_package_name (npm_requirement scope name version) = npm_name scope name"
proof (cases version)
  case None
  have "rfind ''@'' (npm_requirement None name None) = None"
    using assms by (simp add: npm_requirement_def npm_name_def npm_parts_ok_def rfind_at_none)
  then show ?thesis
    using after_scope[OF assms] None by (simp add: bare_package_name_eq) (simp add: npm_requirement_def)
next
  case (Some v)
  have "rfind ''@'' (npm_requirement None name (Some v)) = Some (length name)"
    using assms rfind_at[of v name] by (simp add: npm_requirement_def npm_name_def npm_parts_ok_def Some)
  then show ?thesis
    using after_scope[OF assms] Some by (simp add: bare_package_name_eq) (simp add: npm_requirement_def npm_name_def)
qed

text \<open>
  Uninstalling names the package that installing was asked for: whatever scope and
  version an npm requirement has, the name that \<open>npm uninstall\<close> is given is the requirement without
  its version, so two requirements of one package that differ in the version alone are removed by
  the same command, and of different packages by different ones.
\<close>

lemma npm_requirement_names_its_package:
  assumes "npm_parts_ok scope name version" "npm_parts_ok scope' name' version'"
  shows "bare_package_name (npm_requirement scope name version) = npm_name scope name
     \<and> (bare_package_name (npm_requirement scope name version) = bare_package_name (npm_requirement scope' name' version')
          \<longleftrightarrow> scope = scope' \<and> name = name')"
proof -
  have "npm_name scope name = npm_name scope' name' \<longleftrightarrow> scope = scope' \<and> name = name'"
  proof
    assume "npm_name scope name = npm_name scope' name'"
    then have req: "npm_requirement scope name None = npm_requirement scope' name' None" by (simp add: npm_requirement_def)
    have ok: "npm_parts_ok scope name None" "npm_parts_ok scope' name' None" using assms by (auto simp: npm_parts_ok_def)
    have "name = name'"
      using after_scope[OF ok(1)] after_scope[OF ok(2)] unfolding req by (simp add: npm_requirement_def npm_name_def)
    moreover have "hd name \<noteq> CHR ''@''" "hd name' \<noteq> CHR ''@''" "name \<noteq> []"
      using assms hd_in_set by (metis npm_parts_ok_def)+
    ultimately show "scope = scope' \<and> name = name'"
      using req by (auto simp: npm_requirement_def npm_name_def split: option.splits)
  qed simp
  then show ?thesis by (simp add: bare_name[OF assms(1)] bare_name[OF assms(2)])
qed

theorem npm_requirement_names_its_package_witness:
  "bare_package_name ''@acme/agent@1.2.0'' = ''@acme/agent'' \<and> bare_package_name ''@acme/agent'' = ''@acme/agent''"
  using npm_requirement_names_its_package[of "Some ''acme''" "''agent''" "Some ''1.2.0''" "Some ''acme''" "''agent''" None]
  by (auto simp: npm_parts_ok_def npm_requirement_def npm_name_def)

end
