(* ===== verification/Control_Socket.thy ===== *)
theory Control_Socket
  imports Files
begin

text \<open>
  The daemon's control socket (\<open>src/src/server/protocol.rs\<close>): where it lies, the private directory
  above it, and the recovery of a socket that a dead daemon left behind. Environment variables and
  directories of the user are parameters; every call of the operating system may fail.
\<close>

section \<open>The path of the socket\<close>

definition DAEMON_SOCKET_ENV :: string where
  "DAEMON_SOCKET_ENV = ''ACP_AGENT_DAEMON_SOCKET''"

definition MAX_SOCKET_PATH_BYTES :: nat where
  "MAX_SOCKET_PATH_BYTES = 104 - 1"

text \<open>\<open>Path::file_name\<close> and \<open>Path::parent\<close> of a path that is a string of bytes.\<close>

definition path_file_name :: "string \<Rightarrow> string option" where
  "path_file_name p =
     (case rev (path_components p) of Normal n # _ \<Rightarrow> Some n | _ \<Rightarrow> None)"

fun drop_separators :: "string \<Rightarrow> string" where
  "drop_separators p = (case p of
     CHR ''/'' # rest \<Rightarrow> drop_separators rest
   | CHR ''.'' # CHR ''/'' # rest \<Rightarrow> drop_separators (CHR ''/'' # rest)
   | _ \<Rightarrow> p)"

text \<open>On the reversed path: without the trailing separators, the last component and the separators before it.\<close>

definition parent_of :: "string \<Rightarrow> string option" where
  "parent_of p =
     (if path_file_name p = None then None
      else let rest = dropWhile (\<lambda>c. c \<noteq> CHR ''/'') (drop_separators (rev p));
               above = rev (drop_separators rest)
           in Some (if above = [] \<and> prefix ''/'' p then ''/'' else above))"

record user_dirs =
  ud_runtime :: "string option"
  ud_cache :: "string option"
  ud_home :: "string option"

definition or_else :: "'a option \<Rightarrow> 'a option \<Rightarrow> 'a option" where
  "or_else a b = (case a of None \<Rightarrow> b | Some x \<Rightarrow> Some x)"

definition default_socket_path :: "user_dirs \<Rightarrow> string result" where
  "default_socket_path dirs =
     map_ok (\<lambda>base. path_join (path_join (path_join base ''acp-agent'') ''daemon'') ''daemon.sock'')
       (ok_or (or_else (or_else (ud_runtime dirs) (ud_cache dirs)) (ud_home dirs))
          [''failed to locate a user-scoped runtime directory''])"

definition validate_socket_path :: "string \<Rightarrow> unit result" where
  "validate_socket_path p =
     (if \<not> prefix ''/'' p then bail (''daemon socket path must be absolute: '' @ p)
      else if path_file_name p = None then bail (''daemon socket path must name a socket file: '' @ p)
      else if nul \<in> set p then bail ''daemon socket path must not contain NUL''
      else if length p > MAX_SOCKET_PATH_BYTES
      then bail (''daemon socket path is too long (maximum is '' @ show_nat MAX_SOCKET_PATH_BYTES @ '' bytes): '' @ p)
      else Inr ())"

section \<open>The private directory\<close>

text \<open>
  What stands at the directory's path: nothing, a directory with its permission bits, or something
  else. \<open>dw_new_mode\<close> is the mode that \<open>create_dir_all\<close> gives under the process's umask.
\<close>

datatype dir_node = Directory nat | NotDirectory

record dir_world =
  dw_node :: "dir_node option"
  dw_new_mode :: nat
  dw_calls :: nat
  dw_faults :: "nat \<Rightarrow> io_error option"

definition dir_call :: "(dir_node option \<Rightarrow> (io_error + 'a) \<times> dir_node option) \<Rightarrow> dir_world \<Rightarrow> (io_error + 'a) \<times> dir_world" where
  "dir_call f w =
     (let w' = w\<lparr>dw_calls := Suc (dw_calls w)\<rparr>
      in case dw_faults w (dw_calls w) of
           Some e \<Rightarrow> (Inl e, w')
         | None \<Rightarrow> (case f (dw_node w) of (r, n) \<Rightarrow> (r, w'\<lparr>dw_node := n\<rparr>)))"

definition dir_metadata :: "dir_world \<Rightarrow> (io_error + dir_node) \<times> dir_world" where
  "dir_metadata = dir_call (\<lambda>n. (case n of None \<Rightarrow> Inl not_found | Some x \<Rightarrow> Inr x, n))"

definition dir_create :: "nat \<Rightarrow> dir_world \<Rightarrow> (io_error + unit) \<times> dir_world" where
  "dir_create mode = dir_call (\<lambda>n. case n of None \<Rightarrow> (Inr (), Some (Directory mode)) | Some (Directory m) \<Rightarrow> (Inr (), n)
     | Some NotDirectory \<Rightarrow> (Inl (io_other ''File exists (os error 17)''), n))"

definition dir_set_mode :: "nat \<Rightarrow> dir_world \<Rightarrow> (io_error + unit) \<times> dir_world" where
  "dir_set_mode mode = dir_call (\<lambda>n. case n of Some (Directory _) \<Rightarrow> (Inr (), Some (Directory mode))
     | Some NotDirectory \<Rightarrow> (Inr (), n) | None \<Rightarrow> (Inl not_found, n))"

fun show_octal :: "nat \<Rightarrow> string" where
  "show_octal n = (if n < 8 then [char_of (48 + n)] else show_octal (n div 8) @ [char_of (48 + n mod 8)])"

definition show_mode :: "nat \<Rightarrow> string" where
  "show_mode n = (let s = show_octal n in replicate (4 - length s) (CHR ''0'') @ s)"

text \<open>\<open>0o700\<close> is 448 and the mask \<open>0o777\<close> keeps nine bits.\<close>

definition private_mode :: nat where
  "private_mode = 448"

definition check_private_mode :: "string \<Rightarrow> dir_world \<Rightarrow> unit result \<times> dir_world" where
  "check_private_mode p w =
     (case dir_metadata w of
        (Inl e, w') \<Rightarrow> (Inl [io_text e], w')
      | (Inr n, w') \<Rightarrow>
          let mode = take_bit 9 (case n of Directory m \<Rightarrow> m | NotDirectory \<Rightarrow> 420)
          in (if mode \<noteq> private_mode
              then bail (''daemon socket parent must have mode 0700 (found '' @ show_mode mode @ ''): '' @ p)
              else Inr (), w'))"

definition ensure_private_directory :: "string \<Rightarrow> dir_world \<Rightarrow> unit result \<times> dir_world" where
  "ensure_private_directory p w =
     (case dir_metadata w of
        (Inr NotDirectory, w1) \<Rightarrow> (bail (''daemon socket parent is not a directory: '' @ p), w1)
      | (Inr (Directory _), w1) \<Rightarrow> check_private_mode p w1
      | (Inl e, w1) \<Rightarrow>
          if io_kind e \<noteq> KNotFound
          then (Inl [''failed to inspect daemon socket directory '' @ p, io_text e], w1)
          else case dir_create (dw_new_mode w1) w1 of
            (Inl e, w2) \<Rightarrow> (Inl [''failed to create daemon socket directory '' @ p, io_text e], w2)
          | (Inr _, w2) \<Rightarrow>
              (case dir_set_mode private_mode w2 of
                 (Inl e, w3) \<Rightarrow> (Inl [''failed to secure daemon socket directory '' @ p, io_text e], w3)
               | (Inr _, w3) \<Rightarrow> check_private_mode p w3))"

definition socket_path_from :: "user_dirs \<Rightarrow> string option \<Rightarrow> dir_world \<Rightarrow> string result \<times> dir_world" where
  "socket_path_from dirs override_path w =
     (case (case override_path of
              Some p \<Rightarrow> if p = [] then bail (DAEMON_SOCKET_ENV @ '' must not be empty'') else Inr p
            | None \<Rightarrow> default_socket_path dirs) of
        Inl e \<Rightarrow> (Inl e, w)
      | Inr p \<Rightarrow>
          (case and_then (validate_socket_path p) (\<lambda>_.
                  ok_or (Option.bind (parent_of p) (\<lambda>d. if d = [] then None else Some d))
                    [''daemon socket path has no parent directory'']) of
             Inl e \<Rightarrow> (Inl e, w)
           | Inr parent \<Rightarrow>
               (case ensure_private_directory parent w of (r, w') \<Rightarrow> (map_ok (\<lambda>_. p) r, w'))))"

definition daemon_socket_path :: "user_dirs \<Rightarrow> (string \<Rightarrow> string option) \<Rightarrow> dir_world \<Rightarrow> string result \<times> dir_world" where
  "daemon_socket_path dirs env = socket_path_from dirs (env DAEMON_SOCKET_ENV)"


section \<open>Binding the socket\<close>

text \<open>
  What stands at the socket's path, who listens, and who holds the lock file. Several daemons may
  start at once; each is a number. A socket answers when its daemon listens on it; connecting to
  anything else that is there is refused.
\<close>

datatype endpoint = NoEntry | SocketOf nat | OtherEntry

record sockets =
  so_entry :: endpoint
  so_listening :: "nat set"

datatype socket_call = COpenLock | CLock | CBind | CConnect | CStat | CUnlink | CRebind

type_synonym socket_faults = "socket_call \<Rightarrow> io_error option"

definition addr_in_use :: io_error where
  "addr_in_use = \<lparr>io_kind = KAddrInUse, io_text = ''Address already in use (os error 98)''\<rparr>"

definition refused :: io_error where
  "refused = \<lparr>io_kind = KConnectionRefused, io_text = ''Connection refused (os error 111)''\<rparr>"

definition faulty :: "socket_faults \<Rightarrow> socket_call \<Rightarrow> (sockets \<Rightarrow> (io_error + 'a) \<times> sockets) \<Rightarrow> sockets \<Rightarrow> (io_error + 'a) \<times> sockets" where
  "faulty ft c f s = (case ft c of Some e \<Rightarrow> (Inl e, s) | None \<Rightarrow> f s)"

definition listener_bind_at :: "nat \<Rightarrow> sockets \<Rightarrow> (io_error + nat) \<times> sockets" where
  "listener_bind_at d s =
     (if so_entry s = NoEntry
      then (Inr d, s\<lparr>so_entry := SocketOf d, so_listening := insert d (so_listening s)\<rparr>)
      else (Inl addr_in_use, s))"

definition connect_at :: "sockets \<Rightarrow> (io_error + unit) \<times> sockets" where
  "connect_at s =
     ((case so_entry s of
         NoEntry \<Rightarrow> Inl not_found
       | SocketOf d \<Rightarrow> if d \<in> so_listening s then Inr () else Inl refused
       | OtherEntry \<Rightarrow> Inl refused), s)"

definition stat_at :: "sockets \<Rightarrow> (io_error + bool) \<times> sockets" where
  "stat_at s =
     ((case so_entry s of NoEntry \<Rightarrow> Inl not_found | SocketOf _ \<Rightarrow> Inr True | OtherEntry \<Rightarrow> Inr False), s)"

definition unlink_at :: "sockets \<Rightarrow> (io_error + unit) \<times> sockets" where
  "unlink_at s = (if so_entry s = NoEntry then (Inl not_found, s) else (Inr (), s\<lparr>so_entry := NoEntry\<rparr>))"

definition remove_stale_socket :: "string \<Rightarrow> socket_faults \<Rightarrow> sockets \<Rightarrow> bool result \<times> sockets" where
  "remove_stale_socket p ft s =
     (case faulty ft CConnect connect_at s of
        (Inr _, s1) \<Rightarrow> (Inr False, s1)
      | (Inl e, s1) \<Rightarrow>
          if io_kind e \<noteq> KConnectionRefused \<and> io_kind e \<noteq> KNotFound then (Inr False, s1)
          else (case faulty ft CStat stat_at s1 of
            (Inl e, s2) \<Rightarrow>
              if io_kind e = KNotFound then (Inr True, s2)
              else (Inl [''failed to inspect daemon socket '' @ p, io_text e], s2)
          | (Inr is_socket, s2) \<Rightarrow>
              if \<not> is_socket then (Inr False, s2)
              else (case faulty ft CUnlink unlink_at s2 of
                (Inr _, s3) \<Rightarrow> (Inr True, s3)
              | (Inl e, s3) \<Rightarrow>
                  if io_kind e = KNotFound then (Inr True, s3)
                  else (Inl [''failed to remove stale daemon socket '' @ p, io_text e], s3))))"

text \<open>
  \<open>acquire_socket_bind_lock\<close> waits until the lock is free; when it returns, this daemon holds it until
  \<open>bind_daemon_socket_at\<close> returns.
\<close>

definition acquire_socket_bind_lock :: "string \<Rightarrow> socket_faults \<Rightarrow> unit result" where
  "acquire_socket_bind_lock p ft =
     (case path_file_name p of
        None \<Rightarrow> Inl [''daemon socket path is not valid UTF-8'']
      | Some n \<Rightarrow>
          (case parent_of p of
             None \<Rightarrow> Inl [''daemon socket path has no parent directory'']
           | Some d \<Rightarrow>
               (case ft COpenLock of
                  Some e \<Rightarrow> Inl [''failed to open daemon socket lock '' @ path_join d (''.'' @ n @ ''.lock''), io_text e]
                | None \<Rightarrow>
                    (case ft CLock of
                       Some e \<Rightarrow> Inl [''failed to lock daemon socket '' @ p, io_text e]
                     | None \<Rightarrow> Inr ()))))"

definition bind_daemon_socket_at :: "nat \<Rightarrow> string \<Rightarrow> socket_faults \<Rightarrow> sockets \<Rightarrow> (nat \<times> string) result \<times> sockets" where
  "bind_daemon_socket_at d p ft s =
     (case acquire_socket_bind_lock p ft of
        Inl e \<Rightarrow> (Inl e, s)
      | Inr _ \<Rightarrow>
          (case faulty ft CBind (listener_bind_at d) s of
             (Inr listener, s1) \<Rightarrow> (Inr (listener, p), s1)
           | (Inl e, s1) \<Rightarrow>
               if io_kind e \<noteq> KAddrInUse then (Inl [''failed to bind daemon socket '' @ p, io_text e], s1)
               else (case remove_stale_socket p ft s1 of
                 (Inl e, s2) \<Rightarrow> (Inl e, s2)
               | (Inr False, s2) \<Rightarrow> (Inl [''daemon socket is already in use: '' @ p, io_text e], s2)
               | (Inr True, s2) \<Rightarrow>
                   (case faulty ft CRebind (listener_bind_at d) s2 of
                      (Inl e, s3) \<Rightarrow> (Inl [''failed to bind daemon socket '' @ p, io_text e], s3)
                    | (Inr listener, s3) \<Rightarrow> (Inr (listener, p), s3)))))"

definition bind_daemon_socket ::
    "nat \<Rightarrow> user_dirs \<Rightarrow> (string \<Rightarrow> string option) \<Rightarrow> socket_faults \<Rightarrow> dir_world \<times> sockets
     \<Rightarrow> (nat \<times> string) result \<times> dir_world \<times> sockets" where
  "bind_daemon_socket d dirs env ft ws =
     (case daemon_socket_path dirs env (fst ws) of
        (Inl e, w) \<Rightarrow> (Inl e, w, snd ws)
      | (Inr p, w) \<Rightarrow> (case bind_daemon_socket_at d p ft (snd ws) of (r, s) \<Rightarrow> (r, w, s)))"

section \<open>Starting daemons interleaved\<close>

text \<open>
  The same calls one at a time: a daemon waits for the lock, binds, probes, looks, removes and binds
  again; when it runs, it stops by removing its socket (\<open>run_supervisor_loop\<close>) and then by closing
  its listener. A daemon may crash at every moment, which closes its listener and gives
  back the lock. Other programs may put other things in the way, and take them away again.
\<close>

datatype bind_pc = Waiting | Binding | Probing | Looking | Removing | Rebinding | Serving | Unlinked | Gone

record socket_system =
  sy_sockets :: sockets
  sy_lock :: "nat option"
  sy_pc :: "nat \<Rightarrow> bind_pc"

definition sy_init :: "socket_system \<Rightarrow> bool" where
  "sy_init s \<longleftrightarrow> so_listening (sy_sockets s) = {} \<and> sy_lock s = None \<and> (\<forall>d. sy_pc s d = Waiting)"

text \<open>One call of \<open>bind_daemon_socket_at\<close> and the point at which the code goes on.\<close>

definition bind_call :: "nat \<Rightarrow> socket_faults \<Rightarrow> bind_pc \<Rightarrow> sockets \<Rightarrow> bind_pc \<times> sockets" where
  "bind_call d ft pc s =
     (case pc of
        Binding \<Rightarrow>
          (case faulty ft CBind (listener_bind_at d) s of
             (Inr _, s') \<Rightarrow> (Serving, s')
           | (Inl e, s') \<Rightarrow> (if io_kind e = KAddrInUse then Probing else Gone, s'))
      | Probing \<Rightarrow>
          (case faulty ft CConnect connect_at s of
             (Inr _, s') \<Rightarrow> (Gone, s')
           | (Inl e, s') \<Rightarrow> (if io_kind e = KConnectionRefused \<or> io_kind e = KNotFound then Looking else Gone, s'))
      | Looking \<Rightarrow>
          (case faulty ft CStat stat_at s of
             (Inr is_socket, s') \<Rightarrow> (if is_socket then Removing else Gone, s')
           | (Inl e, s') \<Rightarrow> (if io_kind e = KNotFound then Rebinding else Gone, s'))
      | Removing \<Rightarrow>
          (case faulty ft CUnlink unlink_at s of
             (Inr _, s') \<Rightarrow> (Rebinding, s')
           | (Inl e, s') \<Rightarrow> (if io_kind e = KNotFound then Rebinding else Gone, s'))
      | Rebinding \<Rightarrow>
          (case faulty ft CRebind (listener_bind_at d) s of
             (Inr _, s') \<Rightarrow> (Serving, s')
           | (Inl _, s') \<Rightarrow> (Gone, s'))
      | _ \<Rightarrow> (pc, s))"

text \<open>A failure of \<open>connect\<close> for another reason does not look like a socket without a listener.\<close>

definition honest :: "socket_faults \<Rightarrow> bool" where
  "honest ft \<longleftrightarrow> (\<forall>e. ft CConnect = Some e \<longrightarrow> io_kind e \<notin> {KConnectionRefused, KNotFound})"

definition is_binding :: "bind_pc \<Rightarrow> bool" where
  "is_binding pc \<longleftrightarrow> pc \<in> {Binding, Probing, Looking, Removing, Rebinding}"

datatype actor = Daemon nat | Outsider

inductive socket_step :: "actor \<Rightarrow> socket_system \<Rightarrow> socket_system \<Rightarrow> bool" where
  take_lock: "sy_pc s d = Waiting \<Longrightarrow> sy_lock s = None \<Longrightarrow>
     socket_step (Daemon d) s (s\<lparr>sy_lock := Some d, sy_pc := (sy_pc s)(d := Binding)\<rparr>)"
| call: "is_binding (sy_pc s d) \<Longrightarrow> honest ft \<Longrightarrow> bind_call d ft (sy_pc s d) (sy_sockets s) = (pc, so) \<Longrightarrow>
     socket_step (Daemon d) s (s\<lparr>sy_sockets := so, sy_lock := (if is_binding pc then sy_lock s else None),
       sy_pc := (sy_pc s)(d := pc)\<rparr>)"
| shut_down: "sy_pc s d = Serving \<Longrightarrow> faulty ft CUnlink unlink_at (sy_sockets s) = (r, so) \<Longrightarrow>
     socket_step (Daemon d) s (s\<lparr>sy_sockets := so, sy_pc := (sy_pc s)(d := Unlinked)\<rparr>)"
| leave: "sy_lock' = (if sy_lock s = Some d then None else sy_lock s) \<Longrightarrow>
     socket_step (Daemon d) s (s\<lparr>sy_sockets := (sy_sockets s)\<lparr>so_listening := so_listening (sy_sockets s) - {d}\<rparr>,
       sy_lock := sy_lock', sy_pc := (sy_pc s)(d := Gone)\<rparr>)"
| obstruct: "so_entry (sy_sockets s) = NoEntry \<Longrightarrow>
     socket_step Outsider s (s\<lparr>sy_sockets := (sy_sockets s)\<lparr>so_entry := OtherEntry\<rparr>\<rparr>)"
| clear: "so_entry (sy_sockets s) = OtherEntry \<Longrightarrow>
     socket_step Outsider s (s\<lparr>sy_sockets := (sy_sockets s)\<lparr>so_entry := NoEntry\<rparr>\<rparr>)"

definition dead_socket :: "sockets \<Rightarrow> bool" where
  "dead_socket so \<longleftrightarrow> (case so_entry so of SocketOf o' \<Rightarrow> o' \<notin> so_listening so | _ \<Rightarrow> False)"

definition socket_inv :: "socket_system \<Rightarrow> bool" where
  "socket_inv s \<longleftrightarrow>
     (\<forall>d. is_binding (sy_pc s d) \<longleftrightarrow> sy_lock s = Some d)
     \<and> (\<forall>d. sy_pc s d = Serving \<longrightarrow> so_entry (sy_sockets s) = SocketOf d \<and> d \<in> so_listening (sy_sockets s))
     \<and> (\<forall>d. d \<in> so_listening (sy_sockets s) \<longrightarrow> sy_pc s d \<in> {Serving, Unlinked})
     \<and> (\<forall>d. sy_pc s d = Looking \<longrightarrow> dead_socket (sy_sockets s) \<or> so_entry (sy_sockets s) \<notin> range SocketOf)
     \<and> (\<forall>d. sy_pc s d = Removing \<longrightarrow> dead_socket (sy_sockets s))"

lemmas faulty_simps = faulty_def listener_bind_at_def connect_at_def stat_at_def unlink_at_def

lemma bind_call_simps [simp]:
  "bind_call d ft Binding s = (case faulty ft CBind (listener_bind_at d) s of
     (Inr _, s') \<Rightarrow> (Serving, s') | (Inl e, s') \<Rightarrow> (if io_kind e = KAddrInUse then Probing else Gone, s'))"
  "bind_call d ft Probing s = (case faulty ft CConnect connect_at s of
     (Inr _, s') \<Rightarrow> (Gone, s')
   | (Inl e, s') \<Rightarrow> (if io_kind e = KConnectionRefused \<or> io_kind e = KNotFound then Looking else Gone, s'))"
  "bind_call d ft Looking s = (case faulty ft CStat stat_at s of
     (Inr is_socket, s') \<Rightarrow> (if is_socket then Removing else Gone, s')
   | (Inl e, s') \<Rightarrow> (if io_kind e = KNotFound then Rebinding else Gone, s'))"
  "bind_call d ft Removing s = (case faulty ft CUnlink unlink_at s of
     (Inr _, s') \<Rightarrow> (Rebinding, s') | (Inl e, s') \<Rightarrow> (if io_kind e = KNotFound then Rebinding else Gone, s'))"
  "bind_call d ft Rebinding s = (case faulty ft CRebind (listener_bind_at d) s of
     (Inr _, s') \<Rightarrow> (Serving, s') | (Inl _, s') \<Rightarrow> (Gone, s'))"
  "bind_call d ft Serving s = (Serving, s)" "bind_call d ft Gone s = (Gone, s)"
  by (simp_all add: bind_call_def)

lemma stale_calls:
  assumes "remove_stale_socket p ft s = (r, s')"
  shows "((\<lambda>(pc, s). bind_call d ft pc s) ^^ 3) (Probing, s)
     = (if r = Inr True then bind_call d ft Rebinding s' else (Gone, s'))
   \<or> ((\<lambda>(pc, s). bind_call d ft pc s) ^^ 3) (Probing, s) = (Rebinding, s') \<and> r = Inr True"
proof -
  obtain r2 s2 where 2: "faulty ft CConnect connect_at s = (r2, s2)" by fastforce
  obtain r3 s3 where 3: "faulty ft CStat stat_at s2 = (r3, s3)" by fastforce
  obtain r4 s4 where 4: "faulty ft CUnlink unlink_at s3 = (r4, s4)" by fastforce
  show ?thesis
    using assms by (cases r2; cases r3; cases r4) (auto simp: numeral_eq_Suc remove_stale_socket_def 2 3 4 split: if_splits)
qed

lemma binding_calls:
  assumes lock: "acquire_socket_bind_lock p ft = Inr ()" and run: "bind_daemon_socket_at d p ft s = (r, s')"
  shows "((\<lambda>(pc, s). bind_call d ft pc s) ^^ 5) (Binding, s) = (if is_ok r then Serving else Gone, s')"
proof -
  let ?f = "\<lambda>(pc, s). bind_call d ft pc s"
  have five: "(?f ^^ 5) x = ?f ((?f ^^ 3) (?f x))" for x by (simp add: numeral_eq_Suc)
  have stay: "(?f ^^ n) (Serving, u) = (Serving, u)" "(?f ^^ n) (Gone, u) = (Gone, u)" for n u
    by (induction n) auto
  obtain r1 s1 where 1: "faulty ft CBind (listener_bind_at d) s = (r1, s1)" by fastforce
  obtain r2 s2 where 2: "remove_stale_socket p ft s1 = (r2, s2)" by fastforce
  obtain r3 s3 where 3: "faulty ft CRebind (listener_bind_at d) s2 = (r3, s3)" by fastforce
  note calls = stale_calls[OF 2, of d]
  show ?thesis
  proof (cases r1)
    case (Inl e)
    show ?thesis
    proof (cases "io_kind e = KAddrInUse")
      case True
      with Inl 1 have start: "(?f ^^ 5) (Binding, s) = ?f ((?f ^^ 3) (Probing, s1))" by (simp add: five)
      consider x where "r2 = Inl x" | "r2 = Inr False" | "r2 = Inr True" by (cases r2) auto
      then show ?thesis
        using calls True Inl 3 lock run start
        by cases (cases r3; auto simp: bind_daemon_socket_at_def 1 2)+
    qed (use Inl 1 lock run in \<open>auto simp: bind_daemon_socket_at_def five stay\<close>)
  qed (use 1 lock run in \<open>auto simp: bind_daemon_socket_at_def five stay\<close>)
qed

lemma binding_without_faults:
  assumes "acquire_socket_bind_lock p (\<lambda>_. None) = Inr ()"
  shows "bind_daemon_socket_at d p (\<lambda>_. None) s =
    (if so_entry s = OtherEntry \<or> (\<exists>old. so_entry s = SocketOf old \<and> old \<in> so_listening s)
     then (Inl [''daemon socket is already in use: '' @ p, io_text addr_in_use], s)
     else (Inr (d, p), s\<lparr>so_entry := SocketOf d, so_listening := insert d (so_listening s)\<rparr>))"
  using assms
  by (cases "so_entry s")
    (simp_all add: bind_daemon_socket_at_def remove_stale_socket_def faulty_simps addr_in_use_def refused_def)

text \<open>
  Starting a daemon is exactly the sequence of calls that the interleaved model takes one at a
  time; the daemon that starts alone gets the socket when nothing is there and when a dead daemon
  left its socket behind; a live daemon's socket and a file that is no socket stay untouched.
\<close>

lemma binding_recovers_stale_sockets:
  assumes "acquire_socket_bind_lock p ft = Inr ()" "bind_daemon_socket_at d p ft s = (r, s')"
  shows "((\<lambda>(pc, s). bind_call d ft pc s) ^^ 5) (Binding, s) = (if is_ok r then Serving else Gone, s')
    \<and> bind_daemon_socket_at d p (\<lambda>_. None) s =
      (if so_entry s = OtherEntry \<or> (\<exists>old. so_entry s = SocketOf old \<and> old \<in> so_listening s)
       then (Inl [''daemon socket is already in use: '' @ p, io_text addr_in_use], s)
       else (Inr (d, p), s\<lparr>so_entry := SocketOf d, so_listening := insert d (so_listening s)\<rparr>))"
proof -
  have "acquire_socket_bind_lock p (\<lambda>_. None) = Inr ()"
    using assms(1) by (auto simp: acquire_socket_bind_lock_def split: option.splits)
  then show ?thesis using binding_calls[OF assms] binding_without_faults by blast
qed

inductive_cases socket_stepE: "socket_step a s s'"

lemma socket_inv_init: "sy_init s \<Longrightarrow> socket_inv s"
  by (simp add: sy_init_def socket_inv_def is_binding_def)

text \<open>What one call of a daemon that holds the lock does to the sockets.\<close>

definition call_effect :: "nat \<Rightarrow> bind_pc \<Rightarrow> sockets \<Rightarrow> bind_pc \<Rightarrow> sockets \<Rightarrow> bool" where
  "call_effect d pc so pc' so' \<longleftrightarrow>
     (case pc' of
        Serving \<Rightarrow> so_entry so = NoEntry \<and> so' = so\<lparr>so_entry := SocketOf d, so_listening := insert d (so_listening so)\<rparr>
      | Rebinding \<Rightarrow> so' = so \<or> pc = Removing \<and> so' = so\<lparr>so_entry := NoEntry\<rparr>
      | Looking \<Rightarrow> so' = so \<and> (dead_socket so \<or> so_entry so \<notin> range SocketOf)
      | Removing \<Rightarrow> so' = so \<and> pc = Looking \<and> so_entry so \<in> range SocketOf
      | Probing \<Rightarrow> so' = so
      | Gone \<Rightarrow> so' = so
      | _ \<Rightarrow> False)"

lemma faulty_cases:
  obtains e where "ft c = Some e" "faulty ft c f s = (Inl e, s)" | "ft c = None" "faulty ft c f s = f s"
  by (cases "ft c") (simp_all add: faulty_def)

lemma bind_call_effect:
  assumes "is_binding pc" "honest ft" "bind_call d ft pc so = (pc', so')"
  shows "call_effect d pc so pc' so'"
proof -
  consider "pc = Binding" | "pc = Probing" | "pc = Looking" | "pc = Removing" | "pc = Rebinding"
    using assms(1) by (auto simp: is_binding_def)
  then show ?thesis
  proof cases
    case 1
    with assms(3) show ?thesis
      by (cases rule: faulty_cases[of ft CBind "listener_bind_at d" so])
        (auto simp: listener_bind_at_def addr_in_use_def call_effect_def split: if_splits)
  next
    case 2
    show ?thesis
    proof (cases rule: faulty_cases[of ft CConnect connect_at so])
      case 1
      with assms(2,3) 2 show ?thesis by (auto simp: honest_def call_effect_def)
    next
      case 2
      with assms(3) \<open>pc = Probing\<close> show ?thesis
        by (cases "so_entry so") (auto simp: connect_at_def call_effect_def dead_socket_def split: if_splits)
    qed
  next
    case 3
    with assms(3) show ?thesis
      by (cases rule: faulty_cases[of ft CStat stat_at so]; cases "so_entry so")
        (auto simp: stat_at_def call_effect_def split: if_splits)
  next
    case 4
    with assms(3) show ?thesis
      by (cases rule: faulty_cases[of ft CUnlink unlink_at so])
        (auto simp: unlink_at_def call_effect_def split: if_splits)
  next
    case 5
    with assms(3) show ?thesis
      by (cases rule: faulty_cases[of ft CRebind "listener_bind_at d" so])
        (auto simp: listener_bind_at_def call_effect_def split: if_splits)
  qed
qed

lemma serving_alone:
  assumes "socket_inv s" "sy_pc s d = Serving"
  shows "so_entry (sy_sockets s) = SocketOf d" "d \<in> so_listening (sy_sockets s)" "sy_pc s e \<noteq> Removing"
    "sy_pc s e = Serving \<Longrightarrow> e = d"
proof -
  show 1: "so_entry (sy_sockets s) = SocketOf d" "d \<in> so_listening (sy_sockets s)"
    using assms by (simp_all add: socket_inv_def)
  show "sy_pc s e \<noteq> Removing"
    using assms(1) 1 unfolding socket_inv_def dead_socket_def by fastforce
  show "e = d" if "sy_pc s e = Serving"
    using assms(1) 1 that unfolding socket_inv_def by fastforce
qed

lemma socket_invD:
  assumes "socket_inv s"
  shows "is_binding (sy_pc s d) \<longleftrightarrow> sy_lock s = Some d"
    and "d \<in> so_listening (sy_sockets s) \<Longrightarrow> sy_pc s d \<in> {Serving, Unlinked}"
    and "sy_pc s d = Looking \<Longrightarrow> dead_socket (sy_sockets s) \<or> so_entry (sy_sockets s) \<notin> range SocketOf"
    and "sy_pc s d = Removing \<Longrightarrow> dead_socket (sy_sockets s)"
  using assms unfolding socket_inv_def by blast+

lemma socket_invI:
  assumes "\<And>d. is_binding (sy_pc s d) \<longleftrightarrow> sy_lock s = Some d"
    and "\<And>d. sy_pc s d = Serving \<Longrightarrow> so_entry (sy_sockets s) = SocketOf d \<and> d \<in> so_listening (sy_sockets s)"
    and "\<And>d. d \<in> so_listening (sy_sockets s) \<Longrightarrow> sy_pc s d \<in> {Serving, Unlinked}"
    and "\<And>d. sy_pc s d = Looking \<Longrightarrow> dead_socket (sy_sockets s) \<or> so_entry (sy_sockets s) \<notin> range SocketOf"
    and "\<And>d. sy_pc s d = Removing \<Longrightarrow> dead_socket (sy_sockets s)"
  shows "socket_inv s"
  using assms by (simp add: socket_inv_def)

lemma is_binding_simps [simp]:
  "is_binding Binding" "is_binding Probing" "is_binding Looking" "is_binding Removing" "is_binding Rebinding"
  "\<not> is_binding Waiting" "\<not> is_binding Serving" "\<not> is_binding Unlinked" "\<not> is_binding Gone"
  by (simp_all add: is_binding_def)

lemma socket_inv_call:
  assumes inv: "socket_inv s" and "is_binding (sy_pc s d)" "call_effect d (sy_pc s d) (sy_sockets s) pc so"
  shows "socket_inv (s\<lparr>sy_sockets := so, sy_lock := (if is_binding pc then sy_lock s else None), sy_pc := (sy_pc s)(d := pc)\<rparr>)"
proof (rule socket_invI, goal_cases)
  note lock = socket_invD(1)[OF inv]
  have d: "sy_lock s = Some d" using lock assms(2) by blast
  have same: "so_listening so = so_listening (sy_sockets s) \<or> pc = Serving \<and> so_listening so = insert d (so_listening (sy_sockets s))"
    using assms(3) by (auto simp: call_effect_def split: bind_pc.splits)
  {
    case (1 e)
    show ?case using lock[of e] d by auto
  next
    case (2 e)
    show ?case
    proof (cases "e = d")
      case True
      with 2 assms(3) show ?thesis by (simp add: call_effect_def)
    next
      case False
      then have e: "so_entry (sy_sockets s) = SocketOf e" "e \<in> so_listening (sy_sockets s)" "sy_pc s d \<noteq> Removing"
        using 2 serving_alone(1-3)[OF inv, of e] by simp_all
      with assms(3) show ?thesis by (cases pc) (simp_all add: call_effect_def)
    qed
  next
    case (3 e)
    have "d \<notin> so_listening (sy_sockets s)" using socket_invD(2)[OF inv, of d] assms(2) by auto
    from same have "e \<in> so_listening (sy_sockets s) \<or> e = d \<and> pc = Serving" using 3 by auto
    then show ?case
      using socket_invD(2)[OF inv, of e] \<open>d \<notin> _\<close> by (cases "e = d") simp_all
  next
    case (4 e)
    then have "e = d" using lock[of e] d by (cases "e = d") auto
    with 4 show ?case using assms(3) by (auto simp: call_effect_def)
  next
    case (5 e)
    then have "e = d" using lock[of e] d by (cases "e = d") auto
    with 5 show ?case using assms(3) socket_invD(3)[OF inv, of d] by (auto simp: call_effect_def)
  }
qed

lemma socket_inv_step:
  assumes inv: "socket_inv s" and "socket_step a s s'"
  shows "socket_inv s'"
  using assms(2)
proof cases
  case (take_lock d)
  with inv show ?thesis by (auto simp: socket_inv_def)
next
  case (call d ft pc so)
  with socket_inv_call[OF inv call(3) bind_call_effect[OF call(3,4,5)]] show ?thesis by simp
next
  case (shut_down d ft r so)
  then have so: "so = sy_sockets s \<or> so = (sy_sockets s)\<lparr>so_entry := NoEntry\<rparr>"
    by (auto simp: faulty_def unlink_at_def split: option.splits if_splits)
  note alone = serving_alone[OF inv shut_down(3)]
  show ?thesis
    unfolding shut_down(2)
  proof (rule socket_invI, goal_cases)
    case (1 e) then show ?case using socket_invD(1)[OF inv] shut_down(3) by force
  next
    case (2 e) then show ?case using alone(4)[of e] by (auto split: if_splits)
  next
    case (3 e) then show ?case using so socket_invD(2)[OF inv, of e] by auto
  next
    case (4 e) then show ?case using so socket_invD(3)[OF inv, of e] by (auto simp: dead_socket_def split: if_splits)
  next
    case (5 e) then show ?case using alone(3)[of e] by (auto split: if_splits)
  qed
next
  case (leave l d)
  show ?thesis
    unfolding leave(2)
  proof (rule socket_invI, goal_cases)
    case (1 e)
    have "l = Some e \<longleftrightarrow> e \<noteq> d \<and> sy_lock s = Some e" using leave(3) by (metis option.distinct(1) option.inject)
    then show ?case
      using socket_invD(1)[OF inv, of e] by simp
  next
    case (2 e) then show ?case using serving_alone(1,2)[OF inv, of e] by (auto split: if_splits)
  next
    case (3 e) then show ?case using socket_invD(2)[OF inv, of e] by auto
  next
    case (4 e) then show ?case using socket_invD(3)[OF inv, of e] by (auto simp: dead_socket_def split: if_splits endpoint.splits)
  next
    case (5 e) then show ?case using socket_invD(4)[OF inv, of e] by (auto simp: dead_socket_def split: if_splits endpoint.splits)
  qed
next
  case obstruct
  with inv show ?thesis by (auto simp: socket_inv_def dead_socket_def)
next
  case clear
  with inv show ?thesis by (auto simp: socket_inv_def dead_socket_def)
qed

text \<open>Reachable states, over the steps of all actors.\<close>

interpretation control_socket: invariant_machine sy_init "\<lambda>s s'. \<exists>a. socket_step a s s'" socket_inv
  by unfold_locales (auto intro: socket_inv_init socket_inv_step)

abbreviation sockets_reachable :: "socket_system \<Rightarrow> bool" where
  "sockets_reachable \<equiv> reach sy_init (\<lambda>s s'. \<exists>a. socket_step a s s')"

lemma entry_changed_by:
  assumes inv: "socket_inv s" and step: "socket_step a s s'" and d: "sy_pc s d = Serving"
    and "so_entry (sy_sockets s') \<noteq> SocketOf d"
  shows "a = Daemon d"
  using step
proof cases
  case (call e ft pc so)
  then have "e \<noteq> d" using d by auto
  have "call_effect e (sy_pc s e) (sy_sockets s) pc so" using bind_call_effect call by blast
  with serving_alone[OF inv d] assms(4) call show ?thesis
    by (auto simp: call_effect_def split: bind_pc.splits)
next
  case (shut_down e ft r so)
  then show ?thesis using serving_alone[OF inv d] by metis
qed (use serving_alone[OF inv d] assms(4) in auto)


definition demo_system :: socket_system where
  "demo_system = \<lparr>sy_sockets = \<lparr>so_entry = SocketOf 1, so_listening = {1}\<rparr>, sy_lock = None, sy_pc = (\<lambda>_. Waiting)(1 := Serving)\<rparr>"

lemma demo_system_reachable: "sockets_reachable demo_system"
proof -
  let ?s0 = "\<lparr>sy_sockets = \<lparr>so_entry = NoEntry, so_listening = {}\<rparr>, sy_lock = None, sy_pc = (\<lambda>_. Waiting)\<rparr>"
  let ?s1 = "\<lparr>sy_sockets = \<lparr>so_entry = NoEntry, so_listening = {}\<rparr>, sy_lock = Some 1, sy_pc = (\<lambda>_. Waiting)(1 := Binding)\<rparr>"
  have "sockets_reachable ?s0" by (rule reach.intros) (simp add: sy_init_def)
  moreover have "socket_step (Daemon 1) ?s0 ?s1" using socket_step.take_lock[of ?s0 1] by simp
  ultimately have "sockets_reachable ?s1" by (blast intro: reach.intros)
  moreover have "socket_step (Daemon 1) ?s1 demo_system"
    using socket_step.call[of ?s1 1 "\<lambda>_. None" Serving "\<lparr>so_entry = SocketOf 1, so_listening = {1}\<rparr>"]
    by (simp add: demo_system_def honest_def faulty_simps)
  ultimately show ?thesis by (blast intro: reach.intros)
qed


theorem binding_recovers_stale_sockets_witness:
  "bind_daemon_socket_at 2 ''/r/acp-agent/daemon.sock'' (\<lambda>_. None) \<lparr>so_entry = SocketOf 1, so_listening = {}\<rparr>
     = (Inr (2, ''/r/acp-agent/daemon.sock''), \<lparr>so_entry = SocketOf 2, so_listening = {2}\<rparr>)"
proof -
  have lock: "acquire_socket_bind_lock ''/r/acp-agent/daemon.sock'' (\<lambda>_. None) = Inr ()" by code_simp
  obtain r s' where "bind_daemon_socket_at 2 ''/r/acp-agent/daemon.sock'' (\<lambda>_. None) \<lparr>so_entry = SocketOf 1, so_listening = {}\<rparr> = (r, s')"
    by fastforce
  from binding_recovers_stale_sockets[OF lock this] show ?thesis by simp
qed

section \<open>The directory is private\<close>

lemma check_private_mode_Inr:
  assumes "check_private_mode p w = (r, w')"
  shows "dw_node w' = dw_node w"
    and "r = Inr () \<Longrightarrow> \<exists>m. dw_node w = Some (Directory m) \<and> take_bit 9 m = private_mode"
  using assms
  by (auto simp: check_private_mode_def dir_metadata_def dir_call_def Let_def private_mode_def bail_def take_bit_eq_mod
      split: prod.splits sum.splits option.splits dir_node.splits if_splits)

lemma ensure_private_Inr:
  assumes "ensure_private_directory p w = (Inr (), w')"
  shows "\<exists>m. dw_node w' = Some (Directory m) \<and> take_bit 9 m = private_mode"
  using assms check_private_mode_Inr
  by (auto simp: ensure_private_directory_def bail_def split: prod.splits sum.splits dir_node.splits if_splits)

lemma ensure_private_existing:
  assumes "ensure_private_directory p w = (r, w')" "dw_node w \<noteq> None"
    and "\<forall>i e. dw_faults w i = Some e \<longrightarrow> io_kind e \<noteq> KNotFound"
  shows "dw_node w' = dw_node w"
proof -
  obtain r1 w1 where 1: "dir_metadata w = (r1, w1)" by fastforce
  then have "dw_node w1 = dw_node w" "\<And>e. r1 = Inl e \<Longrightarrow> io_kind e \<noteq> KNotFound"
    using assms(2,3) by (auto simp: dir_metadata_def dir_call_def Let_def split: option.splits)
  with 1 assms(1) show ?thesis
    by (auto simp: ensure_private_directory_def check_private_mode_Inr(1) split: sum.splits dir_node.splits)
qed

lemma validate_socket_path_Inr:
  "validate_socket_path p = Inr () \<longleftrightarrow>
     prefix ''/'' p \<and> path_file_name p \<noteq> None \<and> nul \<notin> set p \<and> length p \<le> MAX_SOCKET_PATH_BYTES"
  by (auto simp: validate_socket_path_def bail_def)


lemma demo_socket_path:
  "socket_path_from \<lparr>ud_runtime = Some ''/run/user/1'', ud_cache = None, ud_home = None\<rparr> None
     \<lparr>dw_node = None, dw_new_mode = 493, dw_calls = 0, dw_faults = (\<lambda>_. None)\<rparr>
   = (Inr ''/run/user/1/acp-agent/daemon/daemon.sock'',
      \<lparr>dw_node = Some (Directory 448), dw_new_mode = 493, dw_calls = 4, dw_faults = (\<lambda>_. None)\<rparr>)"
proof -
  have "default_socket_path \<lparr>ud_runtime = Some ''/run/user/1'', ud_cache = None, ud_home = None\<rparr>
      = Inr ''/run/user/1/acp-agent/daemon/daemon.sock''"
    "validate_socket_path ''/run/user/1/acp-agent/daemon/daemon.sock'' = Inr ()"
    "parent_of ''/run/user/1/acp-agent/daemon/daemon.sock'' = Some ''/run/user/1/acp-agent/daemon''"
    by code_simp+
  then show ?thesis
    by (simp add: socket_path_from_def ensure_private_directory_def check_private_mode_def dir_metadata_def dir_create_def
        dir_set_mode_def dir_call_def not_found_def private_mode_def take_bit_eq_mod)
qed


end
