(* ===== verification/Client.thy ===== *)
theory Client
  imports Daemon Control_Socket
begin

text \<open>
  \<open>src/src/server/client.rs\<close>: the command line's side of the control protocol. The socket, the JSON
  format and child processes are parameters; an error keeps the type that the code downcasts to.
\<close>

section \<open>Errors\<close>

datatype client_error =
    MissingDaemonEndpoint string io_error
  | DaemonEndpointError string io_error
  | DaemonClientError ErrorCode string
  | OtherError error
  | CleanupFailed error client_error

definition error_code_name :: "ErrorCode \<Rightarrow> string" where
  "error_code_name c =
     (case c of Unavailable \<Rightarrow> ''unavailable'' | InvalidInput \<Rightarrow> ''invalid_input'' | NotFound \<Rightarrow> ''not_found''
      | Conflict \<Rightarrow> ''conflict'' | Operation \<Rightarrow> ''operation'')"

text \<open>The chain that \<open>{:#}\<close> prints.\<close>

fun client_error_chain :: "client_error \<Rightarrow> error" where
  "client_error_chain (MissingDaemonEndpoint p e) = [''daemon endpoint '' @ p @ '' is missing: '' @ io_text e, io_text e]"
| "client_error_chain (DaemonEndpointError p e) = [''daemon endpoint '' @ p @ '' is unusable: '' @ io_text e, io_text e]"
| "client_error_chain (DaemonClientError c m) = [''daemon '' @ error_code_name c @ '' error: '' @ m]"
| "client_error_chain (OtherError e) = e"
| "client_error_chain (CleanupFailed cleanup e) =
     (''failed to clean up daemon after startup failure: '' @ error_chain cleanup) # client_error_chain e"

type_synonym 'a client_result = "client_error + 'a"

definition other :: "'a result \<Rightarrow> 'a client_result" where
  "other r = map_err OtherError r"

definition protocol_error :: "ProtocolError \<Rightarrow> client_error" where
  "protocol_error e = DaemonClientError (pe_code e) (pe_message e)"

definition response_result :: "ResponseEnvelope \<Rightarrow> Response client_result" where
  "response_result response =
     (case response of
        Success version result \<Rightarrow>
          if version \<noteq> PROTOCOL_VERSION
          then other (bail (''daemon response used protocol version '' @ show_nat (unat version)
            @ '', expected '' @ show_nat (unat PROTOCOL_VERSION)))
          else Inr result
      | Error version error \<Rightarrow>
          if version \<noteq> PROTOCOL_VERSION
          then other (bail (''daemon error response used protocol version '' @ show_nat (unat version)
            @ '', expected '' @ show_nat (unat PROTOCOL_VERSION)))
          else Inl (protocol_error error))"

section \<open>One request\<close>

text \<open>
  The host: the resolution of the endpoint, \<open>UnixStream::connect\<close>, \<open>write_frame\<close> and
  \<open>read_frame\<close> on the connection; the \<open>Debug\<close> text of a response; and the daemon process that
  a start spawns (\<open>sp_child\<close> below). \<open>cl_wait\<close> is what happens outside during one sleep.
\<close>

record 'w client_host =
  cl_path :: "'w \<Rightarrow> string result \<times> 'w"
  cl_connect :: "string \<Rightarrow> 'w \<Rightarrow> (io_error + unit) \<times> 'w"
  cl_write :: "RequestEnvelope \<Rightarrow> 'w \<Rightarrow> unit result \<times> 'w"
  cl_read :: "'w \<Rightarrow> ResponseEnvelope result \<times> 'w"
  cl_debug :: "Response \<Rightarrow> string"
  cl_current_exe :: "'w \<Rightarrow> unit result"
  cl_spawn :: "'w \<Rightarrow> (io_error + unit) \<times> 'w"
  cl_wait :: "'w \<Rightarrow> 'w"

definition request_existing :: "'w client_host \<Rightarrow> Request \<Rightarrow> 'w \<Rightarrow> Response client_result \<times> 'w" where
  "request_existing host command w =
     (case cl_path host w of
        (Inl e, w1) \<Rightarrow> (Inl (OtherError (''failed to resolve daemon endpoint'' # e)), w1)
      | (Inr path, w1) \<Rightarrow>
          (case cl_connect host path w1 of
             (Inl source, w2) \<Rightarrow>
               (if io_kind source = KNotFound \<or> io_kind source = KConnectionRefused
                then Inl (MissingDaemonEndpoint path source)
                else Inl (DaemonEndpointError path source), w2)
           | (Inr _, w2) \<Rightarrow>
               (case cl_write host \<lparr>re_version = PROTOCOL_VERSION, re_command = command\<rparr> w2 of
                  (Inl e, w3) \<Rightarrow> (Inl (OtherError e), w3)
                | (Inr _, w3) \<Rightarrow>
                    (case cl_read host w3 of
                       (Inl e, w4) \<Rightarrow> (Inl (OtherError e), w4)
                     | (Inr response, w4) \<Rightarrow> (response_result response, w4)))))"

section \<open>Starting the daemon\<close>

text \<open>
  The child of a start: running (until it exits by itself), exited but not collected, and
  collected. Killing and waiting collects it. Its exit is an event of the outside world.
\<close>

datatype child = NoChild | Running_child | Exited_child ExitStatus | Reaped

record 'w start_state =
  ss_world :: 'w
  ss_child :: child
  ss_guard :: bool

definition lift_start :: "('w \<Rightarrow> 'a \<times> 'w) \<Rightarrow> 'w start_state \<Rightarrow> 'a \<times> 'w start_state" where
  "lift_start f s = (case f (ss_world s) of (x, w) \<Rightarrow> (x, s\<lparr>ss_world := w\<rparr>))"

definition try_wait :: "'w start_state \<Rightarrow> ExitStatus option \<times> 'w start_state" where
  "try_wait s =
     (case ss_child s of
        Exited_child status \<Rightarrow> (Some status, s\<lparr>ss_child := Reaped\<rparr>)
      | _ \<Rightarrow> (None, s))"

text \<open>\<open>StartupChildGuard::cleanup\<close>, \<open>disarm\<close> and \<open>Drop\<close>.\<close>

definition guard_cleanup :: "'w start_state \<Rightarrow> 'w start_state" where
  "guard_cleanup s = (if ss_guard s then s\<lparr>ss_child := Reaped, ss_guard := False\<rparr> else s)"

definition guard_disarm :: "'w start_state \<Rightarrow> 'w start_state" where
  "guard_disarm s = s\<lparr>ss_guard := False\<rparr>"

text \<open>
  \<open>wait_for_health\<close>: one entry of \<open>exits\<close> per round that fits before the timeout says with which
  status, if any, the child exits before that round; the end of the list is the timeout. The error
  of \<open>try_wait\<close> itself is an entry \<open>Inl\<close>.
\<close>

type_synonym round = "io_error + ExitStatus option"

definition child_exits :: "round \<Rightarrow> 'w start_state \<Rightarrow> 'w start_state" where
  "child_exits r s =
     (case r of Inr (Some status) \<Rightarrow> if ss_child s = Running_child then s\<lparr>ss_child := Exited_child status\<rparr> else s
      | _ \<Rightarrow> s)"

definition EXITED :: error where
  "EXITED = [''acp-agent daemon exited before health succeeded'']"

fun wait_for_health ::
    "'w client_host \<Rightarrow> round list \<Rightarrow> bool \<Rightarrow> bool \<Rightarrow> 'w start_state \<Rightarrow> unit client_result \<times> 'w start_state" where
  "wait_for_health host [] child_exited waiting_for_winner s =
     (Inl (OtherError [''timed out waiting for the acp-agent daemon to become healthy'']), s)"
| "wait_for_health host (r # rounds) child_exited waiting_for_winner s =
     (let sleep = (\<lambda>s. s\<lparr>ss_world := cl_wait host (ss_world s)\<rparr>);
          look = (\<lambda>s.
            if \<not> child_exited
            then (case r of
                Inl e \<Rightarrow> (Inl (OtherError [''failed to inspect daemon startup process'', io_text e]), s)
              | Inr _ \<Rightarrow>
                  (case try_wait s of
                     (None, s) \<Rightarrow> wait_for_health host rounds False waiting_for_winner (sleep s)
                   | (Some status, s) \<Rightarrow>
                       if status_success status then (Inl (OtherError EXITED), s)
                       else wait_for_health host rounds True True (sleep s)))
            else if \<not> waiting_for_winner then (Inl (OtherError EXITED), s)
            else wait_for_health host rounds child_exited waiting_for_winner (sleep s))
      in case lift_start (request_existing host ReqHealth) (child_exits r s) of
           (Inr (RespHealth result), s) \<Rightarrow>
             (if hr_protocol_version result \<noteq> PROTOCOL_VERSION
              then other (bail (''daemon reported protocol version '' @ show_nat (unat (hr_protocol_version result))
                @ '', expected '' @ show_nat (unat PROTOCOL_VERSION)))
              else Inr (), s)
         | (Inr response, s) \<Rightarrow> (other (bail (''daemon returned '' @ cl_debug host response @ '' for Health'')), s)
         | (Inl (MissingDaemonEndpoint _ _), s) \<Rightarrow> look s
         | (Inl (DaemonEndpointError _ _), s) \<Rightarrow> look s
         | (Inl e, s) \<Rightarrow> (Inl e, s))"

text \<open>\<open>wait_fails\<close> is the error of \<open>wait\<close> after the kill, if it has one.\<close>

definition start_daemon ::
    "'w client_host \<Rightarrow> round list \<Rightarrow> io_error option \<Rightarrow> 'w start_state \<Rightarrow> unit client_result \<times> 'w start_state" where
  "start_daemon host rounds wait_fails s =
     (case cl_current_exe host (ss_world s) of
        Inl e \<Rightarrow> (Inl (OtherError (''failed to locate acp-agent executable'' # e)), s)
      | Inr _ \<Rightarrow>
          (case lift_start (cl_spawn host) s of
             (Inl e, s) \<Rightarrow> (Inl (OtherError [''failed to start acp-agent daemon'', io_text e]), s)
           | (Inr _, s) \<Rightarrow>
               (case wait_for_health host rounds False False (s\<lparr>ss_child := Running_child, ss_guard := True\<rparr>) of
                  (Inl error, s) \<Rightarrow>
                    (case wait_fails of
                       None \<Rightarrow> (Inl error, guard_cleanup s)
                     | Some e \<Rightarrow>
                         (Inl (CleanupFailed [''failed to wait for daemon child during startup cleanup'', io_text e] error),
                          s\<lparr>ss_guard := False\<rparr>))
                | (Inr _, s) \<Rightarrow> (Inr (), guard_disarm s))))"

fun is_missing_endpoint :: "client_error \<Rightarrow> bool" where
  "is_missing_endpoint (MissingDaemonEndpoint _ _) = True"
| "is_missing_endpoint _ = False"

definition request_or_start ::
    "'w client_host \<Rightarrow> round list \<Rightarrow> io_error option \<Rightarrow> Request \<Rightarrow> 'w start_state
     \<Rightarrow> Response client_result \<times> 'w start_state" where
  "request_or_start host rounds wait_fails command s =
     (case lift_start (request_existing host command) s of
        (Inr response, s) \<Rightarrow> (Inr response, s)
      | (Inl error, s) \<Rightarrow>
          if \<not> is_missing_endpoint error then (Inl error, s)
          else (case start_daemon host rounds wait_fails s of
            (Inl e, s) \<Rightarrow> (Inl e, s)
          | (Inr _, s) \<Rightarrow> lift_start (request_existing host command) s))"

section \<open>The operations\<close>

record StartOptions = sto_name :: string sto_host :: string sto_port :: u16

definition StartOptions_default :: StartOptions where
  "StartOptions_default = \<lparr>sto_name = ''default'', sto_host = ''127.0.0.1'', sto_port = 8010\<rparr>"

record RegisterOptions =
  ro_name :: string
  ro_route :: "string option"
  ro_config :: RouteConfig
  ro_yolo :: bool
  ro_args :: "string list"

record ServerRecord =
  sv_name :: string
  sv_state :: string
  sv_host :: string
  sv_port :: u16
  sv_address :: string

record RegistrationRecord =
  rc_id :: string
  rc_route :: string
  rc_readiness :: string
  rc_detail :: "string option"

record StartResult = st_name :: string st_address :: string
record RegisterResult = rt_agent_id :: string rt_route :: string rt_address :: string
record UnregisterResult_client = ut_agent_id :: string ut_server_name :: string

definition instance_state_name :: "InstanceState \<Rightarrow> string" where
  "instance_state_name s = (case s of Running \<Rightarrow> ''running'' | Stopping \<Rightarrow> ''stopping'')"

definition readiness_status_name :: "ReadinessStatus \<Rightarrow> string" where
  "readiness_status_name s = (case s of Disabled \<Rightarrow> ''disabled'' | Ready \<Rightarrow> ''ready'' | NotReady \<Rightarrow> ''not_ready'')"

definition server_record :: "InstanceResult \<Rightarrow> ServerRecord" where
  "server_record i = \<lparr>sv_name = ir_name i, sv_state = instance_state_name (ir_state i), sv_host = ir_host i,
     sv_port = ir_port i, sv_address = ir_address i\<rparr>"

definition registration_record :: "RegistrationResult \<Rightarrow> RegistrationRecord" where
  "registration_record r = \<lparr>rc_id = rg_id r, rc_route = rg_route r,
     rc_readiness = readiness_status_name (rd_status (rg_readiness r)), rc_detail = rd_detail (rg_readiness r)\<rparr>"

definition unexpected :: "'w client_host \<Rightarrow> Response \<Rightarrow> string \<Rightarrow> 'a client_result" where
  "unexpected host response what = other (bail (''daemon returned '' @ cl_debug host response @ '' for '' @ what))"

definition expect_create_instance :: "'w client_host \<Rightarrow> Response \<Rightarrow> InstanceResult client_result" where
  "expect_create_instance host r = (case r of RespCreateInstance i \<Rightarrow> Inr i | _ \<Rightarrow> unexpected host r ''CreateInstance'')"

definition expect_stop :: "'w client_host \<Rightarrow> Response \<Rightarrow> StopInstanceResult client_result" where
  "expect_stop host r = (case r of RespStopInstance i \<Rightarrow> Inr i | _ \<Rightarrow> unexpected host r ''StopInstance'')"

definition expect_register :: "'w client_host \<Rightarrow> Response \<Rightarrow> RegistrationResult client_result" where
  "expect_register host r = (case r of RespRegister i \<Rightarrow> Inr i | _ \<Rightarrow> unexpected host r ''Register'')"

definition expect_unregister :: "'w client_host \<Rightarrow> Response \<Rightarrow> UnregisterResult client_result" where
  "expect_unregister host r = (case r of RespUnregister i \<Rightarrow> Inr i | _ \<Rightarrow> unexpected host r ''Unregister'')"

definition expect_list :: "'w client_host \<Rightarrow> Response \<Rightarrow> ListResult client_result" where
  "expect_list host r = (case r of RespList i \<Rightarrow> Inr i | _ \<Rightarrow> unexpected host r ''List'')"

definition expect_status_instance :: "'w client_host \<Rightarrow> Response \<Rightarrow> InstanceResult client_result" where
  "expect_status_instance host r = (case r of RespStatus i \<Rightarrow> Inr i | _ \<Rightarrow> unexpected host r ''Status'')"

definition expect_registrations :: "'w client_host \<Rightarrow> Response \<Rightarrow> RegistrationsResult client_result" where
  "expect_registrations host r = (case r of RespRegistrations i \<Rightarrow> Inr i | _ \<Rightarrow> unexpected host r ''Registrations'')"

text \<open>A validated request, its answer, and what is made of it.\<close>

definition client_call ::
    "unit result \<Rightarrow> ('s \<Rightarrow> Response client_result \<times> 's) \<Rightarrow> (Response \<Rightarrow> 'a client_result) \<Rightarrow> ('a \<Rightarrow> 'b) \<Rightarrow> 's
     \<Rightarrow> 'b client_result \<times> 's" where
  "client_call valid request expect result s =
     (case valid of
        Inl e \<Rightarrow> (Inl (OtherError e), s)
      | Inr _ \<Rightarrow>
          (case request s of
             (Inl e, s) \<Rightarrow> (Inl e, s)
           | (Inr response, s) \<Rightarrow> (map_sum id result (expect response), s)))"

definition client_start ::
    "'w client_host \<Rightarrow> round list \<Rightarrow> io_error option \<Rightarrow> StartOptions \<Rightarrow> 'w start_state \<Rightarrow> StartResult client_result \<times> 'w start_state" where
  "client_start host rounds wait_fails options =
     client_call (validate_name (sto_name options))
       (request_or_start host rounds wait_fails
         (ReqCreateInstance \<lparr>ci_name = sto_name options, ci_host = sto_host options, ci_port = sto_port options\<rparr>))
       (expect_create_instance host) (\<lambda>i. \<lparr>st_name = ir_name i, st_address = ir_address i\<rparr>)"

definition client_stop :: "'w client_host \<Rightarrow> string \<Rightarrow> 'w \<Rightarrow> string client_result \<times> 'w" where
  "client_stop host name =
     client_call (validate_name name) (request_existing host (ReqStopInstance \<lparr>si_name = name\<rparr>)) (expect_stop host) sp_name"

definition client_register ::
    "(string \<Rightarrow> string + uri) \<Rightarrow> 'w client_host \<Rightarrow> string \<Rightarrow> RegisterOptions \<Rightarrow> 'w \<Rightarrow> RegisterResult client_result \<times> 'w" where
  "client_register parse host agent_id options =
     (let route = (case ro_route options of None \<Rightarrow> ''/'' @ agent_id | Some r \<Rightarrow> r)
      in client_call (and_then (validate_name (ro_name options)) (\<lambda>_. validate_route parse route))
           (request_existing host (ReqRegister \<lparr>rq_name = ro_name options, rq_id = agent_id, rq_route = route,
              rq_config = ro_config options, rq_yolo = ro_yolo options, rq_args = ro_args options\<rparr>))
           (expect_register host) (\<lambda>r. \<lparr>rt_agent_id = rg_id r, rt_route = rg_route r, rt_address = rg_address r\<rparr>))"

definition client_unregister :: "'w client_host \<Rightarrow> string \<Rightarrow> string \<Rightarrow> 'w \<Rightarrow> UnregisterResult_client client_result \<times> 'w" where
  "client_unregister host agent_id name =
     client_call (validate_name name) (request_existing host (ReqUnregister \<lparr>ur_name = name, ur_id = agent_id\<rparr>))
       (expect_unregister host) (\<lambda>r. \<lparr>ut_agent_id = un_id r, ut_server_name = un_name r\<rparr>)"

definition client_list :: "'w client_host \<Rightarrow> 'w \<Rightarrow> ServerRecord list client_result \<times> 'w" where
  "client_list host =
     client_call (Inr ()) (request_existing host ReqList) (expect_list host) (\<lambda>r. map server_record (ls_instances r))"

definition client_status :: "'w client_host \<Rightarrow> string \<Rightarrow> 'w \<Rightarrow> ServerRecord client_result \<times> 'w" where
  "client_status host name =
     client_call (validate_name name) (request_existing host (ReqStatus \<lparr>sr_name = name\<rparr>)) (expect_status_instance host) server_record"

definition client_registrations :: "'w client_host \<Rightarrow> string \<Rightarrow> 'w \<Rightarrow> RegistrationRecord list client_result \<times> 'w" where
  "client_registrations host name =
     client_call (validate_name name) (request_existing host (ReqRegistrations \<lparr>rr_name = name\<rparr>)) (expect_registrations host)
       (\<lambda>r. map registration_record (rs_registrations r))"

section \<open>A start leaves no child behind\<close>

definition healthy :: "'w client_host \<Rightarrow> 'w \<Rightarrow> bool" where
  "healthy host w \<longleftrightarrow> fst (request_existing host ReqHealth w) = Inr (RespHealth \<lparr>hr_protocol_version = PROTOCOL_VERSION\<rparr>)"

lemma lift_start_eq:
  "lift_start f s = (x, s') \<longleftrightarrow> (\<exists>w. f (ss_world s) = (x, w) \<and> s' = s\<lparr>ss_world := w\<rparr>)"
  by (auto simp: lift_start_def split: prod.splits)

lemma child_exits_kept:
  "ss_guard (child_exits r s) = ss_guard s" "ss_world (child_exits r s) = ss_world s"
  "ss_child (child_exits r s) = NoChild \<longleftrightarrow> ss_child s = NoChild"
  by (auto simp: child_exits_def split: sum.splits option.splits)

lemma try_wait_kept:
  "try_wait s = (x, s') \<Longrightarrow> ss_guard s' = ss_guard s \<and> ss_world s' = ss_world s"
  by (auto simp: try_wait_def split: child.splits)

lemma wait_for_health_outcome:
  assumes "wait_for_health host rounds exited winner s = (r, s')" "ss_guard s"
  shows "ss_guard s' \<and> (r = Inr () \<longrightarrow> (\<exists>w. healthy host w \<and> ss_world s' = snd (request_existing host ReqHealth w)))"
  using assms
proof (induction rounds arbitrary: exited winner s)
  case (Cons round rounds)
  let ?goal = "ss_guard s' \<and> (r = Inr () \<longrightarrow> (\<exists>w. healthy host w \<and> ss_world s' = snd (request_existing host ReqHealth w)))"
  obtain a w where req: "request_existing host ReqHealth (ss_world s) = (a, w)" by fastforce
  let ?s = "child_exits round s\<lparr>ss_world := w\<rparr>"
  have lift: "lift_start (request_existing host ReqHealth) (child_exits round s) = (a, ?s)"
    by (simp add: lift_start_eq child_exits_kept req)
  obtain x s2 where tried: "try_wait ?s = (x, s2)" by fastforce
  have g: "ss_guard ?s" "ss_guard s2"
    using Cons.prems(2) try_wait_kept[OF tried] by (simp_all add: child_exits_kept)
  show ?case
  proof (cases a)
    case (Inr response)
    then show ?thesis
      using Cons.prems(1) lift req g(1)
      by (cases response) (auto simp: other_def bail_def healthy_def Let_def split: if_splits intro!: exI[of _ "ss_world s"])
  next
    case (Inl e)
    have look: ?goal if "is_missing_endpoint e \<or> (\<exists>p io. e = DaemonEndpointError p io)"
    proof (cases exited)
      case True
      then show ?thesis
        using Cons.prems(1) lift Inl that g Cons.IH[of exited winner "?s\<lparr>ss_world := cl_wait host w\<rparr>"]
        by (cases e) (auto simp: Let_def split: if_splits)
    next
      case False
      show ?thesis
      proof (cases round)
        case (Inl err)
        then show ?thesis
          using Cons.prems(1) lift \<open>a = Inl e\<close> that g False by (cases e) (auto simp: Let_def)
      next
        case (Inr ok)
        then show ?thesis
          using Cons.prems(1) lift \<open>a = Inl e\<close> that g False tried Cons.IH[of _ _ "s2\<lparr>ss_world := cl_wait host (ss_world s2)\<rparr>"]
          by (cases e; cases x) (auto simp: Let_def split: if_splits)
      qed
    qed
    show ?thesis
      using look Cons.prems(1) lift Inl g(1) by (cases e) (auto simp: Let_def)
  qed
qed auto

lemma start_daemon_outcome:
  assumes run: "start_daemon host rounds None s = (r, s')" and "ss_child s = NoChild" "\<not> ss_guard s"
  shows "\<not> ss_guard s' \<and> (ss_child s' \<in> {NoChild, Reaped}
      \<or> r = Inr () \<and> (\<exists>w. healthy host w \<and> ss_world s' = snd (request_existing host ReqHealth w)))"
proof -
  let ?goal = "\<not> ss_guard s' \<and> (ss_child s' \<in> {NoChild, Reaped}
      \<or> r = Inr () \<and> (\<exists>w. healthy host w \<and> ss_world s' = snd (request_existing host ReqHealth w)))"
  obtain spawned w where spawn: "cl_spawn host (ss_world s) = (spawned, w)" by fastforce
  show ?thesis
  proof (cases "cl_current_exe host (ss_world s)")
    case (Inl e)
    with assms show ?thesis by (auto simp: start_daemon_def)
  next
    case exe: (Inr u)
    show ?thesis
    proof (cases spawned)
      case (Inl e)
      with exe assms spawn show ?thesis by (auto simp: start_daemon_def lift_start_def)
    next
      case (Inr v)
      let ?s = "s\<lparr>ss_world := w, ss_child := Running_child, ss_guard := True\<rparr>"
      obtain x s2 where wait: "wait_for_health host rounds False False ?s = (x, s2)" by fastforce
      have out: "(r, s') = (case x of Inl e \<Rightarrow> (Inl e, guard_cleanup s2) | Inr _ \<Rightarrow> (Inr (), guard_disarm s2))"
        using exe Inr run spawn wait by (cases x; force simp: start_daemon_def lift_start_def)
      have "ss_guard ?s" by simp
      note ended = wait_for_health_outcome[OF wait this]
      show ?thesis
        using out ended by (cases x) (auto simp: guard_cleanup_def guard_disarm_def)
    qed
  qed
qed

lemma is_missing_endpoint_iff: "is_missing_endpoint e \<longleftrightarrow> (\<exists>p io. e = MissingDaemonEndpoint p io)"
  by (cases e) auto


definition demo_client :: "bool client_host" where
  "demo_client =
     \<lparr>cl_path = (\<lambda>up. (Inr ''/run/d.sock'', up)),
      cl_connect = (\<lambda>_ up. (if up then Inr () else Inl refused, up)),
      cl_write = (\<lambda>_ up. (Inr (), up)),
      cl_read = (\<lambda>up. (Inr (success (RespHealth \<lparr>hr_protocol_version = PROTOCOL_VERSION\<rparr>)), up)),
      cl_debug = (\<lambda>_. []), cl_current_exe = (\<lambda>_. Inr ()), cl_spawn = (\<lambda>up. (Inr (), up)), cl_wait = (\<lambda>_. True)\<rparr>"


section \<open>A call to a live daemon\<close>

text \<open>
  The client connected to the model of the daemon: the request is framed, read and handled by
  \<open>handle_protocol_connection\<close>, and the framed response is read back. \<open>wire\<close> holds the bytes
  under way. The formats of the two messages and the codec are the parameters of \<open>Protocol\<close>.
\<close>

record wire_format =
  wf_request :: "RequestEnvelope \<Rightarrow> string + string"
  wf_request_from :: "string \<Rightarrow> string + RequestEnvelope"
  wf_response :: "ResponseEnvelope \<Rightarrow> string + string"
  wf_response_from :: "string \<Rightarrow> string + ResponseEnvelope"
  wf_send :: "string \<Rightarrow> string \<Rightarrow> io_error + string"
  wf_first :: "string \<Rightarrow> frame_item"

definition live_read ::
    "wire_format \<Rightarrow> ('v, 'w, 'l, 'r) daemon_host \<Rightarrow> ('r SupervisorState \<times> 'w) \<times> string
     \<Rightarrow> ResponseEnvelope result \<times> ('r SupervisorState \<times> 'w) \<times> string" where
  "live_read fmt dh = (\<lambda>(sw, wire).
     let write = (\<lambda>r. write_frame (wf_response fmt) (wf_send fmt) [] r)
     in case handle_protocol_connection dh (read_frame (wf_request_from fmt) (wf_first fmt wire))
               (\<lambda>r. map_ok (\<lambda>_. ()) (write r)) sw of
          None \<Rightarrow> (read_frame (wf_response_from fmt) (EndOfStream []), (sw, []))
        | Some (response, _, _, sw') \<Rightarrow>
            (case write response of
               Inl e \<Rightarrow> (read_frame (wf_response_from fmt) (EndOfStream []), (sw', []))
             | Inr bytes \<Rightarrow> (read_frame (wf_response_from fmt) (wf_first fmt bytes), (sw', bytes))))"

definition live_client ::
    "wire_format \<Rightarrow> ('v, 'w, 'l, 'r) daemon_host \<Rightarrow> (Response \<Rightarrow> string) \<Rightarrow> (('r SupervisorState \<times> 'w) \<times> string) client_host" where
  "live_client fmt dh debug =
     \<lparr>cl_path = (\<lambda>w. (Inr ''/run/acp-agent/daemon/daemon.sock'', w)), cl_connect = (\<lambda>_ w. (Inr (), w)),
      cl_write = (\<lambda>req (sw, wire). case write_frame (wf_request fmt) (wf_send fmt) [] req of
        Inl e \<Rightarrow> (Inl e, (sw, wire)) | Inr bytes \<Rightarrow> (Inr (), (sw, bytes))),
      cl_read = live_read fmt dh, cl_debug = debug,
      cl_current_exe = (\<lambda>_. Inr ()), cl_spawn = (\<lambda>w. (Inr (), w)), cl_wait = (\<lambda>w. w)\<rparr>"

text \<open>A message that the format carries: it can be encoded and decoded, and fits into a frame.\<close>

definition carries :: "('a \<Rightarrow> string + string) \<Rightarrow> (string \<Rightarrow> string + 'a) \<Rightarrow> 'a \<Rightarrow> bool" where
  "carries to_vec decode v \<longleftrightarrow>
     (\<exists>payload. to_vec v = Inr payload \<and> decode payload = Inr v \<and> payload \<noteq> [] \<and> length payload \<le> MAX_FRAME_SIZE)"

lemma carried:
  assumes "codec_delivers send first_item" "carries to_vec decode v"
  shows "\<exists>bytes. write_frame to_vec send [] v = Inr bytes \<and> read_frame decode (first_item bytes) = Inr v"
proof -
  obtain payload where p: "to_vec v = Inr payload" "decode payload = Inr v" "payload \<noteq> []" "length payload \<le> MAX_FRAME_SIZE"
    using assms(2) by (auto simp: carries_def)
  then obtain bytes where "send [] payload = Inr bytes" "first_item bytes = Frame payload"
    using assms(1) unfolding codec_delivers_def by blast
  with p show ?thesis by (simp add: write_frame_def read_frame_def Let_def)
qed

definition local_answer :: "ResponseEnvelope \<Rightarrow> Response client_result" where
  "local_answer response = (case response of Success _ result \<Rightarrow> Inr result | Error _ e \<Rightarrow> Inl (DaemonClientError (pe_code e) (pe_message e)))"

lemma local_answers:
  "response_result (success r) = local_answer (success r)"
  "response_result (error_response c m) = local_answer (error_response c m)"
  "response_result (respond f x) = local_answer (respond f x)"
  by (simp_all add: success_def error_response_def respond_def response_result_def local_answer_def protocol_error_def
      split: sum.split)

lemma handle_request_version:
  assumes "handle_request dh command (s, w) = Some (response, s', w')"
  shows "response_result response = local_answer response"
  using assms by (auto simp: handle_request_def local_answers split: if_splits Request.splits prod.splits)


text \<open>A format for the two messages of one exchange.\<close>

definition demo_format :: wire_format where
  "demo_format =
     \<lparr>wf_request = (\<lambda>_. Inr ''q''), wf_request_from = (\<lambda>_. Inr \<lparr>re_version = PROTOCOL_VERSION, re_command = ReqList\<rparr>),
      wf_response = (\<lambda>_. Inr ''a''), wf_response_from = (\<lambda>_. Inr (success (RespList \<lparr>ls_instances = []\<rparr>))),
      wf_send = length_delimited_send, wf_first = length_delimited_first\<rparr>"


end
