(* ===== verification/Commands.thy ===== *)
theory Commands imports Lifecycle Client begin

text \<open>
  The command line (\<open>src/src/commands/\<close> and \<open>src/src/main.rs\<close>): what each command calls and what it prints. The parsing of
  arguments (clap) is generated code: the model starts from the parsed command. Every write to the
  output may fail and ends the command with its error.
\<close>

section \<open>Output\<close>

type_synonym 'w writer = "string \<Rightarrow> ('w, unit) io"

fun write_all :: "'w writer \<Rightarrow> string list \<Rightarrow> ('w, unit) io" where
  "write_all out [] = io_return ()"
| "write_all out (x # xs) = io_then (out x) (\<lambda>_. write_all out xs)"

definition writeln :: "'w writer \<Rightarrow> string list \<Rightarrow> ('w, unit) io" where
  "writeln out lines = write_all out (map (\<lambda>l. l @ nl) lines)"

definition tab :: string where "tab = [CHR 0x09]"

text \<open>\<open>{:<n}\<close> pads on the right, counting characters; names, hosts and states are ASCII.\<close>

definition padded :: "nat \<Rightarrow> string \<Rightarrow> string" where
  "padded n s = s @ replicate (n - length s) (CHR '' '')"

datatype AgentOutputFormat = Tsv | Json

text \<open>What is printed with \<open>serde_json::to_writer_pretty\<close>, which is a parameter of the commands.\<close>

datatype json_value =
    JInstalled "InstalledAgent list"
  | JAgents "RegistryAgent list"
  | JServers "ServerRecord list"
  | JServer ServerRecord
  | JRegistrations "RegistrationRecord list"

type_synonym 'w json_writer = "json_value \<Rightarrow> ('w, unit) io"

definition installed_le :: "InstalledAgent \<Rightarrow> InstalledAgent \<Rightarrow> bool" where
  "installed_le l r \<longleftrightarrow>
     ia_agent_id l < ia_agent_id r \<or> ia_agent_id l = ia_agent_id r \<and>
       (ia_agent_version l < ia_agent_version r \<or> ia_agent_version l = ia_agent_version r \<and> ia_platform l \<le> ia_platform r)"

definition write_installed_agents ::
    "'w writer \<Rightarrow> 'w json_writer \<Rightarrow> InstalledAgent list \<Rightarrow> AgentOutputFormat \<Rightarrow> ('w, unit) io" where
  "write_installed_agents out json agents format =
     (let agents = sort_by installed_le agents
      in case format of
        Tsv \<Rightarrow> writeln out (map (\<lambda>a. ia_agent_id a @ tab @ ia_agent_version a @ tab @ ia_platform a @ tab
                 @ path_display (ia_cache_dir a)) agents)
      | Json \<Rightarrow> io_then (io_context ''failed to serialize installed agent list'' (json (JInstalled agents)))
                  (\<lambda>_. writeln out [[]]))"

definition agent_le :: "RegistryAgent \<Rightarrow> RegistryAgent \<Rightarrow> bool" where
  "agent_le l r \<longleftrightarrow>
     to_ascii_lowercase (ra_name l) < to_ascii_lowercase (ra_name r)
     \<or> to_ascii_lowercase (ra_name l) = to_ascii_lowercase (ra_name r) \<and> ra_id l \<le> ra_id r"

definition write_registry_agents ::
    "'w writer \<Rightarrow> 'w json_writer \<Rightarrow> RegistryAgent list \<Rightarrow> AgentOutputFormat \<Rightarrow> ('w, unit) io" where
  "write_registry_agents out json agents format =
     (let agents = sort_by agent_le agents
      in case format of
        Tsv \<Rightarrow> writeln out (map (\<lambda>a. ra_name a @ tab @ ra_id a @ tab @ ra_description a) agents)
      | Json \<Rightarrow> io_then (io_context ''failed to serialize registry agents'' (json (JAgents agents)))
                  (\<lambda>_. writeln out [[]]))"

definition install_message :: "InstallOutcome \<Rightarrow> string" where
  "install_message outcome =
     (case outcome of
        BinaryInstalled agent_id executable_path cache_dir \<Rightarrow>
          ''Installed '' @ agent_id @ '' binary at '' @ path_display executable_path
            @ '' (cache: '' @ path_display cache_dir @ '')''
      | PackageInstalled agent_id runner package \<Rightarrow>
          (case runner of
             Npm \<Rightarrow> ''Installed '' @ agent_id @ '' via npm: '' @ package
           | DenoRunner \<Rightarrow> ''Prepared '' @ agent_id @ '' via deno cache: '' @ package
           | Uvx \<Rightarrow> ''Installed '' @ agent_id @ '' via uv: '' @ package))"

definition uninstall_message :: "UninstallOutcome \<Rightarrow> string" where
  "uninstall_message outcome =
     (case outcome of
        CacheRemoved agent_id _ \<Rightarrow> ''Uninstalled '' @ agent_id @ '' from the local cache''
      | PackageRemoved agent_id runner package \<Rightarrow>
          ''Uninstalled '' @ agent_id @ '' via '' @ install_name runner @ '': '' @ package
      | RunnerManaged agent_id runner \<Rightarrow>
          ''Nothing to uninstall for '' @ agent_id @ '': its package is cached by '' @ runner_program runner
            @ '', which manages its own cache'')"

definition uninstall_warnings :: "UninstallOutcome \<Rightarrow> string list" where
  "uninstall_warnings outcome =
     (case outcome of
        CacheRemoved agent_id (Some error) \<Rightarrow>
          [''warning: could not reach the registry; removed cached binaries for '' @ quoted agent_id
             @ '' without checking package-manager distributions ('' @ error @ '')'']
      | _ \<Rightarrow> [])"

definition write_json :: "'w writer \<Rightarrow> 'w json_writer \<Rightarrow> json_value \<Rightarrow> string \<Rightarrow> ('w, unit) io" where
  "write_json out json v subject =
     io_then (io_context (''failed to serialize '' @ subject) (json v)) (\<lambda>_. writeln out [[]])"

definition server_row :: "string \<Rightarrow> string \<Rightarrow> string \<Rightarrow> string \<Rightarrow> string \<Rightarrow> string" where
  "server_row name state host port address =
     padded 20 name @ '' '' @ padded 9 state @ '' '' @ padded 16 host @ '' '' @ padded 6 port @ '' '' @ address"

definition write_server_list :: "'w writer \<Rightarrow> 'w json_writer \<Rightarrow> ServerRecord list \<Rightarrow> bool \<Rightarrow> ('w, unit) io" where
  "write_server_list out json records as_json =
     (if as_json then write_json out json (JServers records) ''server list''
      else if records = [] then writeln out [''no named servers found'']
      else writeln out (server_row ''NAME'' ''STATE'' ''HOST'' ''PORT'' ''ADDRESS''
        # map (\<lambda>r. server_row (sv_name r) (sv_state r) (sv_host r) (show_nat (unat (sv_port r))) (sv_address r)) records))"

definition write_status :: "'w writer \<Rightarrow> 'w json_writer \<Rightarrow> ServerRecord \<Rightarrow> bool \<Rightarrow> ('w, unit) io" where
  "write_status out json r as_json =
     (if as_json then write_json out json (JServer r) ''server status''
      else writeln out [''name:    '' @ sv_name r, ''state:   '' @ sv_state r, ''host:    '' @ sv_host r,
        ''port:    '' @ show_nat (unat (sv_port r)), ''address: '' @ sv_address r])"

definition registration_row :: "string \<Rightarrow> string \<Rightarrow> string \<Rightarrow> string" where
  "registration_row agent route readiness = padded 24 agent @ '' '' @ padded 28 route @ '' '' @ readiness"

definition write_registrations ::
    "'w writer \<Rightarrow> 'w json_writer \<Rightarrow> string \<Rightarrow> RegistrationRecord list \<Rightarrow> bool \<Rightarrow> ('w, unit) io" where
  "write_registrations out json name records as_json =
     (if as_json then write_json out json (JRegistrations records) ''registrations''
      else if records = [] then writeln out [''server '' @ quoted name @ '' has no registered agents'']
      else writeln out (registration_row ''AGENT'' ''ROUTE'' ''READINESS''
        # map (\<lambda>r. registration_row (rc_id r) (rc_route r)
            (case rc_detail r of None \<Rightarrow> rc_readiness r | Some detail \<Rightarrow> rc_readiness r @ '': '' @ detail)) records))"

section \<open>The environment installer's dialogue\<close>

definition tool_lines :: "ToolAvailability list \<Rightarrow> string list" where
  "tool_lines tools = map (\<lambda>t. case ta_path t of
     Some p \<Rightarrow> ta_name t @ '': available ('' @ p @ '')'' | None \<Rightarrow> ta_name t @ '': missing'') tools"

definition write_detection_report :: "'w writer \<Rightarrow> EnvironmentReport \<Rightarrow> ('w, unit) io" where
  "write_detection_report out report =
     writeln out ([''Environment detection results:'', ''JavaScript tools:''] @ tool_lines (er_js report)
       @ [''Python tools:''] @ tool_lines (er_python report))"

definition write_installation_plan :: "'w writer \<Rightarrow> InstallTarget list \<Rightarrow> ('w, unit) io" where
  "write_installation_plan out targets =
     writeln out ([[], ''Planned installation:''] @ map (\<lambda>t. target_label t @ '': '' @ official_command_display t) targets)"

definition write_cancelled :: "'w writer \<Rightarrow> ('w, unit) io" where
  "write_cancelled out = writeln out [''Installation cancelled.'']"

definition write_nothing_to_install :: "'w writer \<Rightarrow> ('w, unit) io" where
  "write_nothing_to_install out =
     writeln out [[], ''Environment already satisfies the requirements. No installation is needed.'']"

definition write_installation_start :: "'w writer \<Rightarrow> ('w, unit) io" where
  "write_installation_start out = writeln out [[], ''Starting installation...'']"

definition installed_lines :: "InstalledTool \<Rightarrow> string list" where
  "installed_lines r =
     (target_label (it_target r) @ '' installed and verified at '' @ it_path r)
     # (if it_on_path r then []
        else [''Note: '' @ target_program (it_target r)
          @ '' was installed outside the current PATH. Open a new shell if the command is not yet recognized.''])"

definition write_installation_complete :: "'w writer \<Rightarrow> InstalledTool list \<Rightarrow> ('w, unit) io" where
  "write_installation_complete out results =
     writeln out ([[]] @ concat (map installed_lines results) @ [''Environment installation complete.''])"

text \<open>The lines of standard input, each read or failed; after the last one the input is at its end.\<close>

fun prompt_for_installation :: "'w writer \<Rightarrow> string result list \<Rightarrow> ('w, bool) io" where
  "prompt_for_installation out [] =
     io_then (out ''Proceed with installation? [Y/n]: '') (\<lambda>_. io_return True)"
| "prompt_for_installation out (line # input) =
     io_then (out ''Proceed with installation? [Y/n]: '') (\<lambda>_.
       case line of
         Inl e \<Rightarrow> io_result (Inl e)
       | Inr text \<Rightarrow>
           let answer = to_ascii_lowercase (trim text)
           in if answer \<in> {[], ''y'', ''yes''} then io_return True
              else if answer \<in> {''n'', ''no''} then io_return False
              else io_then (writeln out [''Please answer with y or n.'']) (\<lambda>_. prompt_for_installation out input))"

section \<open>Exit codes and batch reports\<close>

datatype CliExit = CliSuccess | CliCode nat

definition exit_from_status :: "ExitStatus \<Rightarrow> CliExit" where
  "exit_from_status status =
     (if status_success status then CliSuccess
      else case status of
        Exited c \<Rightarrow> CliCode c
      | Signalled n \<Rightarrow> CliCode (128 + n)
      | UnknownStatus \<Rightarrow> CliCode 1)"

definition resolve_mount_path :: "string \<Rightarrow> string option \<Rightarrow> bool \<Rightarrow> string option" where
  "resolve_mount_path agent_id mount_path agent_mount_path =
     (if agent_mount_path then Some (''/'' @ agent_id) else mount_path)"

definition failure_line :: "string \<Rightarrow> string \<times> error \<Rightarrow> string" where
  "failure_line action f = ''failed to '' @ action @ '' agent '' @ quoted (fst f) @ '': '' @ error_chain (snd f)"

definition failures :: "(string \<times> 't result) list \<Rightarrow> (string \<times> error) list" where
  "failures outcomes = concat (map (\<lambda>(agent, r). case r of Inl e \<Rightarrow> [(agent, e)] | Inr _ \<Rightarrow> []) outcomes)"

definition successes :: "(string \<times> 't result) list \<Rightarrow> 't list" where
  "successes outcomes = concat (map (\<lambda>(_, r). case r of Inl _ \<Rightarrow> [] | Inr x \<Rightarrow> [x]) outcomes)"

definition report_batch_outcome ::
    "'w writer \<Rightarrow> (string \<times> 't result) list \<Rightarrow> string \<Rightarrow> ('t \<Rightarrow> string) \<Rightarrow> ('w, CliExit) io" where
  "report_batch_outcome out outcomes action render =
     (if list_all (\<lambda>(_, r). is_ok r) outcomes
      then io_then (writeln out (map render (successes outcomes))) (\<lambda>_. io_return CliSuccess)
      else io_then (writeln out (map (failure_line action) (failures outcomes))) (\<lambda>_. io_return (CliCode 1)))"

section \<open>The commands\<close>

record route_flags =
  rf_path :: string
  rf_cors_origins :: "string list"
  rf_allow_any_origin :: bool
  rf_no_health :: bool
  rf_no_readyz :: bool
  rf_max_processes :: u64

definition route_config :: "route_flags \<Rightarrow> RouteConfig" where
  "route_config f = \<lparr>rc_path = rf_path f, rc_cors_origins = rf_cors_origins f, rc_allow_any_origin = rf_allow_any_origin f,
     rc_health_endpoint = (\<not> rf_no_health f), rc_readyz_endpoint = (\<not> rf_no_readyz f), rc_max_processes = rf_max_processes f\<rparr>"

datatype ServerCommands =
    ServerStart string string u16
  | ServerStop string
  | ServerRegister string string "string option" route_flags bool "string list"
  | ServerUnregister string string
  | ServerList bool
  | ServerStatus string bool
  | ServerRegistrations string bool

datatype Commands =
    CmdDaemon
  | CmdList bool bool
  | CmdInstall "string list"
  | CmdUninstall "string list"
  | CmdUpdate "string list"
  | CmdInstallEnv bool
  | CmdRun string bool "string list"
  | CmdServe string string u16 "string option" bool route_flags bool "string list"
  | CmdServer ServerCommands
  | CmdSearch string bool

text \<open>The operations that the commands call, the models of which the other theories hold.\<close>

record ('w, 'r) cli_services =
  cv_out :: "'w writer"
  cv_json :: "'w json_writer"
  cv_warn :: "string \<Rightarrow> 'w \<Rightarrow> 'w"
  cv_input :: "'w \<Rightarrow> string result list"
  cv_daemon :: "('w, unit) io"
  cv_registry :: "('w, 'r Registry) io"
  cv_installed :: "('w, InstalledAgent list) io"
  cv_install :: "string list \<Rightarrow> 'w \<Rightarrow> (string \<times> InstallOutcome result) list \<times> 'w"
  cv_update :: "string list \<Rightarrow> 'w \<Rightarrow> (string \<times> InstallOutcome result) list \<times> 'w"
  cv_uninstall :: "string list \<Rightarrow> 'w \<Rightarrow> (string \<times> UninstallOutcome result) list \<times> 'w"
  cv_detect :: "('w, EnvironmentReport) io"
  cv_install_plan :: "InstallTarget list \<Rightarrow> ('w, InstalledTool list) io"
  cv_resolve_args :: "string \<Rightarrow> bool \<Rightarrow> string list \<Rightarrow> ('w, string list) io"
  cv_run_agent :: "string \<Rightarrow> string list \<Rightarrow> ('w, ExitStatus) io"
  cv_serve_agent :: "string \<Rightarrow> ServeOptions \<Rightarrow> string list \<Rightarrow> ('w, unit) io"
  cv_start :: "StartOptions \<Rightarrow> ('w, StartResult) io"
  cv_stop :: "string \<Rightarrow> ('w, string) io"
  cv_register :: "string \<Rightarrow> RegisterOptions \<Rightarrow> ('w, RegisterResult) io"
  cv_unregister :: "string \<Rightarrow> string \<Rightarrow> ('w, UnregisterResult_client) io"
  cv_list :: "('w, ServerRecord list) io"
  cv_status :: "string \<Rightarrow> ('w, ServerRecord) io"
  cv_registrations :: "string \<Rightarrow> ('w, RegistrationRecord list) io"

definition succeed :: "('w, unit) io \<Rightarrow> ('w, CliExit) io" where
  "succeed m = io_then m (\<lambda>_. io_return CliSuccess)"

definition output_format :: "bool \<Rightarrow> AgentOutputFormat" where
  "output_format json = (if json then Json else Tsv)"

definition warn_all :: "('w, 'r) cli_services \<Rightarrow> string list \<Rightarrow> 'w \<Rightarrow> 'w" where
  "warn_all sv warnings w = foldl (\<lambda>w line. cv_warn sv line w) w warnings"

definition cmd_install_env :: "('w, 'r) cli_services \<Rightarrow> bool \<Rightarrow> ('w, CliExit) io" where
  "cmd_install_env sv yes =
     io_then (io_context ''failed to detect environment dependencies'' (cv_detect sv)) (\<lambda>report.
     io_then (write_detection_report (cv_out sv) report) (\<lambda>_.
     let plan = plan_installation report in
     if plan = [] then succeed (write_nothing_to_install (cv_out sv))
     else
       io_then (write_installation_plan (cv_out sv) plan) (\<lambda>_.
       io_then (if yes then io_return True else (\<lambda>w. prompt_for_installation (cv_out sv) (cv_input sv w) w)) (\<lambda>go.
       if \<not> go then succeed (write_cancelled (cv_out sv))
       else
         io_then (write_installation_start (cv_out sv)) (\<lambda>_.
         io_then (io_context ''failed to install environment dependencies'' (cv_install_plan sv plan)) (\<lambda>results.
           succeed (write_installation_complete (cv_out sv) results)))))))"

definition execute_server :: "('w, 'r) cli_services \<Rightarrow> ServerCommands \<Rightarrow> ('w, CliExit) io" where
  "execute_server sv command =
     (case command of
        ServerStart name host port \<Rightarrow>
          io_then (cv_start sv \<lparr>sto_name = name, sto_host = host, sto_port = port\<rparr>) (\<lambda>r.
            succeed (writeln (cv_out sv) [''started server '' @ quoted (st_name r) @ '' at '' @ st_address r]))
      | ServerStop name \<Rightarrow>
          io_then (cv_stop sv name) (\<lambda>n. succeed (writeln (cv_out sv) [''stopped server '' @ quoted n]))
      | ServerRegister agent_id name route flags yolo args \<Rightarrow>
          io_then (cv_register sv agent_id \<lparr>ro_name = name, ro_route = route, ro_config = route_config flags,
                     ro_yolo = yolo, ro_args = args\<rparr>) (\<lambda>r.
            succeed (writeln (cv_out sv) [''registered agent '' @ quoted (rt_agent_id r) @ '' at '' @ rt_address r @ rt_route r]))
      | ServerUnregister agent_id name \<Rightarrow>
          io_then (cv_unregister sv agent_id name) (\<lambda>r.
            succeed (writeln (cv_out sv) [''unregistered agent '' @ quoted (ut_agent_id r) @ '' from server '' @ quoted (ut_server_name r)]))
      | ServerList json \<Rightarrow>
          io_context ''failed to list named servers'' (io_then (cv_list sv) (\<lambda>records.
            succeed (write_server_list (cv_out sv) (cv_json sv) records json)))
      | ServerStatus name json \<Rightarrow>
          io_context (''failed to inspect server '' @ quoted name) (io_then (cv_status sv name) (\<lambda>r.
            succeed (write_status (cv_out sv) (cv_json sv) r json)))
      | ServerRegistrations name json \<Rightarrow>
          io_context (''failed to list registrations for server '' @ quoted name) (io_then (cv_registrations sv name) (\<lambda>records.
            succeed (write_registrations (cv_out sv) (cv_json sv) name records json))))"

definition execute_cli :: "('w, 'r) cli_services \<Rightarrow> Commands \<Rightarrow> ('w, CliExit) io" where
  "execute_cli sv command =
     (case command of
        CmdDaemon \<Rightarrow> succeed (cv_daemon sv)
      | CmdList installed json \<Rightarrow>
          if installed
          then io_context ''failed to list installed agents'' (io_then (cv_installed sv) (\<lambda>agents.
                 succeed (write_installed_agents (cv_out sv) (cv_json sv) agents (output_format json))))
          else io_context ''failed to list registry agents'' (io_then (cv_registry sv) (\<lambda>registry.
                 succeed (write_registry_agents (cv_out sv) (cv_json sv) (rg_agents registry) (output_format json))))
      | CmdInstall agent_ids \<Rightarrow>
          (\<lambda>w. case cv_install sv agent_ids w of (outcomes, w) \<Rightarrow>
             report_batch_outcome (cv_out sv) outcomes ''install'' install_message w)
      | CmdUninstall agent_ids \<Rightarrow>
          (\<lambda>w. case cv_uninstall sv agent_ids w of (outcomes, w) \<Rightarrow>
             report_batch_outcome (cv_out sv) outcomes ''uninstall'' uninstall_message
               (warn_all sv (concat (map uninstall_warnings (successes outcomes))) w))
      | CmdUpdate agent_ids \<Rightarrow>
          (\<lambda>w. case cv_update sv agent_ids w of (outcomes, w) \<Rightarrow>
             report_batch_outcome (cv_out sv) outcomes ''update'' install_message w)
      | CmdInstallEnv yes \<Rightarrow> cmd_install_env sv yes
      | CmdRun agent_id yolo args \<Rightarrow>
          io_then (cv_resolve_args sv agent_id yolo args) (\<lambda>args.
          io_then (io_context (''failed to run agent '' @ quoted agent_id) (cv_run_agent sv agent_id args)) (\<lambda>status.
            io_return (exit_from_status status)))
      | CmdServe agent_id host port mount_path agent_mount_path flags yolo args \<Rightarrow>
          io_then (cv_resolve_args sv agent_id yolo args) (\<lambda>args.
          io_context (''failed to serve agent '' @ quoted agent_id)
            (succeed (cv_serve_agent sv agent_id
               \<lparr>so_host = host, so_port = port, so_mount_path = resolve_mount_path agent_id mount_path agent_mount_path,
                so_route = route_config flags\<rparr> args)))
      | CmdServer command \<Rightarrow> execute_server sv command
      | CmdSearch query json \<Rightarrow>
          io_context (''failed to search registry agents for '' @ quoted query) (io_then (cv_registry sv) (\<lambda>registry.
            succeed (write_registry_agents (cv_out sv) (cv_json sv) (search_agents registry query) (output_format json)))))"

section \<open>The program\<close>

text \<open>
  \<open>main\<close> (\<open>src/src/main.rs\<close>): the start-up sweep, whose outcome is ignored, then the command; an error
  of the command is printed (\<open>debug\<close> is the error library's rendering of a chain) and the exit code is 1.
\<close>

definition acp_agent_main :: "(error \<Rightarrow> string) \<Rightarrow> ('w, 'n) io \<Rightarrow> ('w, 'r) cli_services \<Rightarrow> Commands \<Rightarrow> 'w \<Rightarrow> nat \<times> 'w" where
  "acp_agent_main debug sweep sv command w =
     (case sweep w of
        (_, w) \<Rightarrow>
          (case execute_cli sv command w of
             (Inl e, w) \<Rightarrow> (1, cv_warn sv (''Error: '' @ debug e) w)
           | (Inr CliSuccess, w) \<Rightarrow> (0, w)
           | (Inr (CliCode c), w) \<Rightarrow> (c, w)))"

section \<open>What a batch command reports\<close>

text \<open>A writer that keeps what it is given.\<close>

definition buffer :: "string writer" where
  "buffer s w = (Inr (), w @ s)"

lemma writeln_buffer: "writeln buffer lines w = (Inr (), w @ concat (map (\<lambda>l. l @ nl) lines))"
proof -
  have "write_all buffer xs w = (Inr (), w @ concat xs)" for xs
    by (induction xs arbitrary: w) (simp_all add: io_then_def buffer_def)
  then show ?thesis by (simp add: writeln_def)
qed

lemma failures_iff: "(agent, e) \<in> set (failures outcomes) \<longleftrightarrow> (agent, Inl e) \<in> set outcomes"
  by (force simp: failures_def split: sum.splits)

lemma failures_agents: "distinct (map fst outcomes) \<Longrightarrow> distinct (map fst (failures outcomes))"
proof (induction outcomes)
  case (Cons o' outcomes)
  obtain agent r where o': "o' = (agent, r)" by fastforce
  have sub: "agent \<notin> fst ` set (failures outcomes)"
    using Cons.prems o' by (force simp: failures_iff)
  have "distinct (map fst (failures outcomes))" using Cons by simp
  then show ?case
  proof (cases r)
    case (Inl e)
    then have "failures (o' # outcomes) = (agent, e) # failures outcomes" by (simp add: failures_def o')
    with sub \<open>distinct (map fst (failures outcomes))\<close> show ?thesis by simp
  next
    case (Inr x)
    then have "failures (o' # outcomes) = failures outcomes" by (simp add: failures_def o')
    with \<open>distinct (map fst (failures outcomes))\<close> show ?thesis by simp
  qed
qed (simp add: failures_def)

lemma batch_report:
  assumes ids: "map fst outcomes = distinct_ids {} agent_ids"
    and "report_batch_outcome buffer outcomes action render before = (exit, after)"
  shows "(exit = Inr CliSuccess \<longleftrightarrow> (\<forall>agent \<in> set agent_ids. \<exists>x. (agent, Inr x) \<in> set outcomes))
    \<and> (exit \<noteq> Inr CliSuccess \<longrightarrow> exit = Inr (CliCode 1)
        \<and> (\<exists>failed. after = before @ concat (map (\<lambda>f. failure_line action f @ nl) failed) \<and> distinct (map fst failed)
             \<and> (\<forall>agent e. (agent, e) \<in> set failed \<longleftrightarrow> agent \<in> set agent_ids \<and> (agent, Inl e) \<in> set outcomes)))"
proof -
  from ids have dist: "distinct (map fst outcomes)" and set: "fst ` set outcomes = set agent_ids"
    using distinct_ids_distinct[of "{}" agent_ids] distinct_ids_set[of "{}" agent_ids] by (simp_all flip: list.set_map)
  have all: "list_all (\<lambda>(_, r). is_ok r) outcomes \<longleftrightarrow> (\<forall>agent \<in> set agent_ids. \<exists>x. (agent, Inr x) \<in> set outcomes)"
  proof
    assume ok: "list_all (\<lambda>(_, r). is_ok r) outcomes"
    show "\<forall>agent \<in> set agent_ids. \<exists>x. (agent, Inr x) \<in> set outcomes"
    proof
      fix agent assume "agent \<in> set agent_ids"
      then obtain r where r: "(agent, r) \<in> set outcomes" using set by fastforce
      with ok have "is_ok r" by (auto simp: list_all_iff)
      with r show "\<exists>x. (agent, Inr x) \<in> set outcomes" by (auto simp: is_ok_iff)
    qed
  next
    assume have_ok: "\<forall>agent \<in> set agent_ids. \<exists>x. (agent, Inr x) \<in> set outcomes"
    have "is_ok r" if "(agent, r) \<in> set outcomes" for agent r
    proof -
      from that set have "agent \<in> set agent_ids" by (metis fst_conv image_eqI)
      then obtain x where "(agent, Inr x) \<in> set outcomes" using have_ok by blast
      with that dist have "r = Inr x" by (metis eq_key_imp_eq_value)
      then show ?thesis by simp
    qed
    then show "list_all (\<lambda>(_, r). is_ok r) outcomes" by (auto simp: list_all_iff)
  qed
  show ?thesis
  proof (cases "list_all (\<lambda>(_, r). is_ok r) outcomes")
    case True
    with assms(2) all show ?thesis by (simp add: report_batch_outcome_def io_then_def writeln_buffer)
  next
    case False
    then have out: "exit = Inr (CliCode 1)" "after = before @ concat (map (\<lambda>f. failure_line action f @ nl) (failures outcomes))"
      using assms(2) by (auto simp: report_batch_outcome_def io_then_def writeln_buffer comp_def)
    have "agent \<in> set agent_ids" if "(agent, Inl e) \<in> set outcomes" for agent e
      using that set by force
    with out False all show ?thesis
      by (intro conjI) (use failures_agents[OF dist] in \<open>auto simp: failures_iff intro!: exI[of _ "failures outcomes"]\<close>)
  qed
qed

text \<open>
  Property C28: the exit code and the output of \<open>install\<close> and \<open>update\<close> tell the truth about every agent that was
  asked for: the program exits with 0 exactly when the operation of every requested id, run
  among the others, returned a result; otherwise it exits with 1 and its output consists of one line for
  each failed id, with its error, and of nothing else: no success line is printed beside a failure.
\<close>

theorem batch_exit_reflects_every_agent:
  assumes "(pool_step operation)\<^sup>*\<^sup>* (pool_init agent_ids w) p" "pool_finished p"
    and "run_concurrently_results agent_ids p = Some outcomes"
    and "cv_out sv = buffer" "snd (sweep start) = swept"
    and "command = CmdInstall agent_ids \<and> action = ''install'' \<and> cv_install sv agent_ids swept = (outcomes, before)
      \<or> command = CmdUpdate agent_ids \<and> action = ''update'' \<and> cv_update sv agent_ids swept = (outcomes, before)"
    and "acp_agent_main debug sweep sv command start = (status, after)"
  shows "(status = 0 \<longleftrightarrow> (\<forall>agent \<in> set agent_ids. \<exists>x. (agent, Inr x) \<in> set outcomes))
    \<and> (status \<noteq> 0 \<longrightarrow> status = 1
        \<and> (\<exists>failed. after = before @ concat (map (\<lambda>f. failure_line action f @ nl) failed) \<and> distinct (map fst failed)
             \<and> (\<forall>agent e. (agent, e) \<in> set failed \<longleftrightarrow> agent \<in> set agent_ids \<and> (agent, Inl e) \<in> set outcomes)))"
proof -
  have ids: "map fst outcomes = distinct_ids {} agent_ids"
    using finished_batch[OF assms(1,2)] assms(3) by auto
  obtain exit printed where report: "report_batch_outcome buffer outcomes action install_message before = (exit, printed)"
    by fastforce
  then have "execute_cli sv command swept = (exit, printed)"
    using assms(4,6) by (auto simp: execute_cli_def)
  then have "(status, after) = (case exit of Inl e \<Rightarrow> (1, cv_warn sv (''Error: '' @ debug e) printed)
      | Inr CliSuccess \<Rightarrow> (0, printed) | Inr (CliCode c) \<Rightarrow> (c, printed))"
    using assms(5,7) by (auto simp: acp_agent_main_def split: prod.splits sum.splits CliExit.splits)
  with batch_report[OF ids report] show ?thesis
    by (cases "exit = Inr CliSuccess") auto
qed

text \<open>A program whose only operation is an installation that fails.\<close>

definition failing_task :: "string \<Rightarrow> (unit, InstallOutcome) task" where
  "failing_task agent = Returned (Inl [''not in the registry''])"

definition no_service :: "'a \<Rightarrow> (string, 'b) io" where
  "no_service x = io_result (Inl [''no such service''])"

definition demo_services :: "(string, unit) cli_services" where
  "demo_services =
     \<lparr>cv_out = buffer, cv_json = no_service, cv_warn = (\<lambda>line w. w), cv_input = (\<lambda>w. []), cv_daemon = no_service (),
      cv_registry = no_service (), cv_installed = no_service (),
      cv_install = (\<lambda>ids w. (map (\<lambda>agent. (agent, Inl [''not in the registry''])) ids, w)),
      cv_update = (\<lambda>ids w. ([], w)), cv_uninstall = (\<lambda>ids w. ([], w)), cv_detect = no_service (),
      cv_install_plan = no_service, cv_resolve_args = (\<lambda>_ _. no_service), cv_run_agent = (\<lambda>_. no_service),
      cv_serve_agent = (\<lambda>_ _. no_service), cv_start = no_service, cv_stop = no_service, cv_register = (\<lambda>_. no_service),
      cv_unregister = (\<lambda>_. no_service), cv_list = no_service (), cv_status = no_service, cv_registrations = no_service\<rparr>"

definition failed_pool :: "(unit, InstallOutcome) pool" where
  "failed_pool = \<lparr>po_waiting = [], po_running = [], po_results = [(''a'', Inl [''not in the registry''])], po_world = ()\<rparr>"

lemma failed_pool_run: "(pool_step failing_task)\<^sup>*\<^sup>* (pool_init [''a''] ()) failed_pool"
proof -
  let ?p = "\<lambda>ws rs out. \<lparr>po_waiting = ws, po_running = rs, po_results = out, po_world = ()\<rparr>"
  have "pool_step failing_task (?p [''a''] [] []) (?p [] [(''a'', failing_task ''a'')] [])"
    using pool_step.start[of "?p [''a''] [] []" "''a''" "[]" failing_task] by (simp add: OPERATION_CONCURRENCY_def)
  moreover have "pool_step failing_task (?p [] [(''a'', failing_task ''a'')] []) failed_pool"
    using pool_step.yield_result[of "?p [] [(''a'', failing_task ''a'')] []" "[]" "''a''"
        "Inl [''not in the registry'']" "[]" failing_task] by (simp add: failing_task_def failed_pool_def)
  ultimately show ?thesis by (simp add: pool_init_def converse_rtranclp_into_rtranclp)
qed

theorem batch_exit_reflects_every_agent_witness:
  "\<exists>failed. acp_agent_main error_chain (io_return ()) demo_services (CmdInstall [''a'']) []
       = (1, concat (map (\<lambda>f. failure_line ''install'' f @ nl) failed))
     \<and> (''a'', [''not in the registry'']) \<in> set failed"
proof -
  have fin: "pool_finished failed_pool" by (simp add: pool_finished_def failed_pool_def)
  have results: "run_concurrently_results [''a''] failed_pool = Some [(''a'', Inl [''not in the registry''])]"
    by (simp add: failed_pool_def run_concurrently_results_def)
  obtain status after where run: "acp_agent_main error_chain (io_return ()) demo_services (CmdInstall [''a'']) [] = (status, after)"
    by fastforce
  have services: "cv_out demo_services = buffer" "snd (io_return () []) = ([] :: string)"
    "CmdInstall [''a''] = CmdInstall [''a''] \<and> ''install'' = ''install''
       \<and> cv_install demo_services [''a''] [] = ([(''a'', Inl [''not in the registry''])], [])
     \<or> CmdInstall [''a''] = CmdUpdate [''a''] \<and> ''install'' = ''update''
       \<and> cv_update demo_services [''a''] [] = ([(''a'', Inl [''not in the registry''])], [])"
    by (simp_all add: demo_services_def)
  from batch_exit_reflects_every_agent[OF failed_pool_run fin results services run] run
  show ?thesis by auto
qed

section \<open>Listings\<close>

interpretation agents: listing_order agent_le
  by unfold_locales (auto simp: agent_le_def)

interpretation installed: listing_order installed_le
  by unfold_locales (auto simp: installed_le_def)

text \<open>
  A listing does not depend on the order in which the registry names its agents: two
  registries with the same agents print the same, byte for byte, as long as no two agents share both
  their id and (but for case) their name; and it lists every agent exactly once.
\<close>

lemma listing_is_canonical:
  assumes "mset agents = mset agents'"
    and "distinct (map (\<lambda>a. (to_ascii_lowercase (ra_name a), ra_id a)) agents)"
  shows "write_registry_agents out json agents format = write_registry_agents out json agents' format
    \<and> mset (sort_by agent_le agents) = mset agents"
proof -
  have "x = y" if "x \<in> set agents" "y \<in> set agents" "agent_le x y" "agent_le y x" for x y
    using that assms(2) unfolding distinct_map by (auto simp: agent_le_def inj_on_def)
  then have same: "sort_by agent_le agents = sort_by agent_le agents'"
    by (rule agents.sort_by_canonical[OF assms(1)])
  show ?thesis by (simp add: write_registry_agents_def same assms(1))
qed

lemma listing_is_canonical_witness:
  "write_registry_agents buffer (\<lambda>_. io_return ()) [demo_agent, demo_agent\<lparr>ra_id := ''b''\<rparr>] Tsv
     = write_registry_agents buffer (\<lambda>_. io_return ()) [demo_agent\<lparr>ra_id := ''b''\<rparr>, demo_agent] Tsv"
  by (rule conjunct1[OF listing_is_canonical]) (simp_all add: demo_agent_def)

end
