(* ===== verification/Daemon_Life.thy ===== *)
theory Daemon_Life
  imports Daemon Control_Socket
begin

text \<open>
  The whole life of a daemon process: \<open>run_supervisor\<close> (\<open>src/src/server/daemon.rs\<close>) binds the control
  socket, \<open>run_supervisor_loop\<close> (\<open>src/src/server/control.rs\<close>) serves connections until it is told to stop
  or cannot accept any more, and everything is taken down. Connections are served one after the
  other here; \<open>Daemon_Concurrency\<close> interleaves them.
\<close>

section \<open>The supervisor's loop\<close>

text \<open>
  What \<open>select!\<close> finds next: a connection (with the frame it sends), an error of \<open>accept\<close>, or the
  shutdown channel, which a shutdown request and the termination signals set.
\<close>

datatype loop_event = Accepted "RequestEnvelope result" | AcceptFailed io_error | ShutdownSeen

text \<open>\<open>None\<close>: the loop waits for the next event.\<close>

fun supervisor_loop ::
    "('v, 'w, 'l, 'r) daemon_host \<Rightarrow> (ResponseEnvelope \<Rightarrow> unit result) \<Rightarrow> loop_event list \<Rightarrow> 'r SupervisorState \<times> 'w
     \<Rightarrow> unit result option \<times> 'r SupervisorState \<times> 'w" where
  "supervisor_loop host send [] (s, w) = (None, s, w)"
| "supervisor_loop host send (Accepted frame # events) (s, w) =
     (case handle_protocol_connection host frame send (s, w) of
        None \<Rightarrow> (None, s, w)
      | Some (response, sent, shutdown, s', w') \<Rightarrow> supervisor_loop host send events (s', w'))"
| "supervisor_loop host send (AcceptFailed e # events) (s, w) =
     (Some (Inl [''failed to accept daemon connection'', io_text e]), s, w)"
| "supervisor_loop host send (ShutdownSeen # events) (s, w) = (Some (Inr ()), s\<lparr>sv_phase := ShuttingDown\<rparr>, w)"

record ('v, 'w, 'l, 'r) daemon_process =
  dp_number :: nat
  dp_dirs :: user_dirs
  dp_env :: "string \<Rightarrow> string option"
  dp_host :: "('v, 'w, 'l, 'r) daemon_host"
  dp_write :: "ResponseEnvelope \<Rightarrow> unit result"
  dp_bind_faults :: socket_faults
  dp_stop_faults :: socket_faults

text \<open>The listener is closed when the loop's function returns, after the socket file was removed.\<close>

definition close_listener :: "nat \<Rightarrow> sockets \<Rightarrow> sockets" where
  "close_listener d so = so\<lparr>so_listening := so_listening so - {d}\<rparr>"

definition run_supervisor ::
    "('v, 'w, 'l, 'r) daemon_process \<Rightarrow> loop_event list \<Rightarrow> 'w \<Rightarrow> dir_world \<times> sockets
     \<Rightarrow> unit result option \<times> ('r SupervisorState \<times> 'w) \<times> dir_world \<times> sockets" where
  "run_supervisor dp events w ws =
     (case bind_daemon_socket (dp_number dp) (dp_dirs dp) (dp_env dp) (dp_bind_faults dp) ws of
        (Inl e, dw, so) \<Rightarrow> (Some (Inl e), (SupervisorState_shared, w), dw, so)
      | (Inr (listener, socket_path), dw, so) \<Rightarrow>
          (case supervisor_loop (dp_host dp) (dp_write dp) events (SupervisorState_shared, w) of
             (None, s, w) \<Rightarrow> (None, (s, w), dw, so)
           | (Some result, s, w) \<Rightarrow>
               (case faulty (dp_stop_faults dp) CUnlink unlink_at so of
                  (removed, so) \<Rightarrow>
                    (case supervisor_shutdown (dh_join (dp_host dp)) socket_path removed result s of
                       (r, s) \<Rightarrow> (Some r, (s, w), dw, close_listener listener so)))))"

section \<open>What a daemon leaves behind\<close>

lemma connection_keeps_ok:
  assumes "daemon_ok s" "handle_protocol_connection host frame send (s, w) = Some (response, sent, shutdown, s', w')"
  shows "daemon_ok s'"
proof (cases frame)
  case (Inr req)
  show ?thesis
    using requests_keep_supervisor_consistent[OF assms(1), of host "re_command req" w] assms Inr
    by (auto simp: handle_protocol_connection_def Let_def split: if_splits)
qed (use assms in \<open>simp add: handle_protocol_connection_def\<close>)

lemma loop_keeps_ok: "supervisor_loop host send events (s, w) = (r, s', w') \<Longrightarrow> daemon_ok s \<Longrightarrow> daemon_ok s'"
proof (induction events arbitrary: s w)
  case (Cons event events)
  show ?case
  proof (cases event)
    case (Accepted frame)
    show ?thesis
    proof (cases "handle_protocol_connection host frame send (s, w)")
      case (Some x)
      obtain response sent shutdown s1 w1 where x: "x = (response, sent, shutdown, s1, w1)" by (cases x) auto
      with Some Accepted Cons.prems Cons.IH[of s1 w1] connection_keeps_ok[of s host frame send w] show ?thesis by simp
    qed (use Accepted Cons.prems in simp)
  qed (use Cons.prems in \<open>auto simp: daemon_ok_phase\<close>)
qed simp

text \<open>A live socket: \<open>bind\<close> finds the address in use, the probe connects (or fails dishonestly).\<close>

lemma live_socket_not_stale:
  assumes "so_entry so = SocketOf old" "old \<in> so_listening so" "honest ft"
  shows "remove_stale_socket p ft so = (Inr False, so)"
  using assms by (cases "ft CConnect") (auto simp: remove_stale_socket_def faulty_def connect_at_def honest_def)

lemma live_socket_kept:
  assumes "bind_daemon_socket_at d p ft so = (r, so')" "so_entry so = SocketOf old" "old \<in> so_listening so" "honest ft"
  shows "so' = so \<and> (\<exists>e. r = Inl e)"
proof -
  obtain e where "faulty ft CBind (listener_bind_at d) so = (Inl e, so)"
    using assms(2) by (cases "ft CBind") (auto simp: faulty_def listener_bind_at_def)
  with live_socket_not_stale[OF assms(2-4)] assms(1) show ?thesis
    by (auto simp: bind_daemon_socket_at_def split: sum.splits if_splits)
qed

lemma stale_listens:
  assumes "remove_stale_socket p ft so = (r, so')"
  shows "so_listening so' = so_listening so"
proof -
  obtain r1 where 1: "faulty ft CConnect connect_at so = (r1, so)"
    by (cases "ft CConnect") (auto simp: faulty_def connect_at_def)
  obtain r2 where 2: "faulty ft CStat stat_at so = (r2, so)"
    by (cases "ft CStat") (auto simp: faulty_def stat_at_def)
  obtain r3 so3 where 3: "faulty ft CUnlink unlink_at so = (r3, so3)" "so_listening so3 = so_listening so"
    by (cases "ft CUnlink"; cases "so_entry so = NoEntry") (auto simp: faulty_def unlink_at_def)
  show ?thesis using assms 3(2) by (auto simp: remove_stale_socket_def 1 2 3(1) split: sum.splits if_splits)
qed

lemma listener_outcome:
  assumes "faulty ft c (listener_bind_at d) so = (x, so')"
  shows "(\<exists>e. x = Inl e) \<and> so' = so
    \<or> x = Inr d \<and> so_entry so' = SocketOf d \<and> so_listening so' = insert d (so_listening so)"
  using assms by (cases "ft c") (auto simp: faulty_def listener_bind_at_def split: if_splits)

lemma bind_outcome:
  assumes "bind_daemon_socket_at d p ft so = (r, so')"
  shows "(\<exists>e. r = Inl e) \<and> so_listening so' = so_listening so
    \<or> r = Inr (d, p) \<and> so_entry so' = SocketOf d \<and> so_listening so' = insert d (so_listening so)"
proof (cases "acquire_socket_bind_lock p ft")
  case (Inr u)
  obtain r1 so1 where 1: "faulty ft CBind (listener_bind_at d) so = (r1, so1)" by fastforce
  show ?thesis
  proof (cases r1)
    case (Inl e)
    with listener_outcome[OF 1] have "so1 = so" by auto
    obtain r2 so2 where 2: "remove_stale_socket p ft so = (r2, so2)" by fastforce
    obtain r3 so3 where 3: "faulty ft CRebind (listener_bind_at d) so2 = (r3, so3)" by fastforce
    note outcome = listener_outcome[OF 3] stale_listens[OF 2] assms
    note run = bind_daemon_socket_at_def \<open>acquire_socket_bind_lock p ft = Inr u\<close> 1 Inl \<open>so1 = so\<close> 2 3
    consider "io_kind e \<noteq> KAddrInUse" | e' where "io_kind e = KAddrInUse" "r2 = Inl e'"
      | "io_kind e = KAddrInUse" "r2 = Inr False" | "io_kind e = KAddrInUse" "r2 = Inr True"
      by (cases r2) auto
    then show ?thesis
    proof cases
      case 4
      with outcome show ?thesis by (cases r3) (auto simp: run)
    qed (use outcome in \<open>auto simp: run\<close>)
  next
    case (Inr x)
    with assms \<open>acquire_socket_bind_lock p ft = Inr u\<close> listener_outcome[OF 1] show ?thesis
      by (auto simp: bind_daemon_socket_at_def 1)
  qed
qed (use assms in \<open>auto simp: bind_daemon_socket_at_def\<close>)

text \<open>How \<open>run_supervisor\<close> may return: nothing was bound, or the loop ended.\<close>

lemma run_supervisor_returns:
  assumes "run_supervisor dp events w (dw, so) = (Some r, (s, w'), dw', so')"
  obtains (failed) e where "r = Inl e" "s = SupervisorState_shared"
      "so' = so \<or> (\<exists>p. bind_daemon_socket_at (dp_number dp) p (dp_bind_faults dp) so = (Inl e, so'))"
  | (served) p q so1 so2 removed result s1 w1 where
      "bind_daemon_socket_at (dp_number dp) p (dp_bind_faults dp) so = (Inr (dp_number dp, q), so1)"
      "supervisor_loop (dp_host dp) (dp_write dp) events (SupervisorState_shared, w) = (Some result, s1, w1)"
      "faulty (dp_stop_faults dp) CUnlink unlink_at so1 = (removed, so2)"
      "supervisor_shutdown (dh_join (dp_host dp)) q removed result s1 = (r, s)"
      "so' = close_listener (dp_number dp) so2"
proof -
  obtain p0 dw1 where dir: "daemon_socket_path (dp_dirs dp) (dp_env dp) dw = (p0, dw1)" by fastforce
  show thesis
  proof (cases p0)
    case (Inl e)
    with assms dir show thesis by (intro failed[of e]) (simp_all add: run_supervisor_def bind_daemon_socket_def)
  next
    case (Inr p)
    obtain b so1 where bind: "bind_daemon_socket_at (dp_number dp) p (dp_bind_faults dp) so = (b, so1)" by fastforce
    show thesis
    proof (cases b)
      case (Inl e)
      with assms dir \<open>p0 = Inr p\<close> bind show thesis
        by (intro failed[of e]) (auto simp: run_supervisor_def bind_daemon_socket_def)
    next
      case (Inr x)
      obtain listener q where x: "x = (listener, q)" by fastforce
      with bind_outcome[OF bind] Inr have "listener = dp_number dp" by simp
      with assms dir \<open>p0 = Inr p\<close> bind Inr x show thesis
        by (auto simp: run_supervisor_def bind_daemon_socket_def split: prod.splits option.splits intro: served)
    qed
  qed
qed

text \<open>
  Property C20: a daemon takes down what it set up: when \<open>run_supervisor\<close> returns, no instance runs and none is
  left in its table, its listener is closed, and its socket file is gone unless it reports an error;
  a daemon that starts beside a live one returns an error and leaves the other's socket alone.
\<close>

theorem daemon_takes_down_what_it_set_up:
  assumes "run_supervisor dp events w (dw, so) = (Some r, (s, w'), dw', so')" "dp_number dp \<notin> so_listening so"
    and "\<And>e. dp_stop_faults dp CUnlink = Some e \<Longrightarrow> io_kind e \<noteq> KNotFound"
  shows "sv_instances s = [] \<and> (\<forall>x \<in> set (sv_heap s). di_state x = Stopping)
    \<and> so_listening so' = so_listening so \<and> (r = Inr () \<longrightarrow> so_entry so' = NoEntry)
    \<and> (\<forall>old. so_entry so = SocketOf old \<and> old \<in> so_listening so \<and> honest (dp_bind_faults dp) \<longrightarrow>
          r \<noteq> Inr () \<and> so_entry so' = SocketOf old)"
  using assms(1)
proof (cases rule: run_supervisor_returns)
  case (failed e)
  then show ?thesis
    using bind_outcome live_socket_kept by (fastforce simp: SupervisorState_shared_def)
next
  case (served p q so1 so2 removed result s1 w1)
  have "daemon_ok s1" using loop_keeps_ok[OF served(2)] daemon_ok_shared .
  from supervisor_shutdown_stops_everything[OF this served(4)]
  have stopped: "sv_instances s = []" "\<forall>x \<in> set (sv_heap s). di_state x = Stopping" by auto
  have bound: "so_entry so1 = SocketOf (dp_number dp)" "so_listening so1 = insert (dp_number dp) (so_listening so)"
    using bind_outcome[OF served(1)] by auto
  have so2: "so_listening so2 = so_listening so1" "so_entry so2 = NoEntry \<or> (\<exists>e. removed = Inl e \<and> io_kind e \<noteq> KNotFound)"
    using served(3) bound(1) assms(3) by (auto simp: faulty_def unlink_at_def split: option.splits)
  have "r = Inr () \<Longrightarrow> so_entry so2 = NoEntry"
    using served(4) so2(2) by (auto simp: supervisor_shutdown_def Let_def split: sum.splits)
  moreover have "\<not> (so_entry so = SocketOf old \<and> old \<in> so_listening so \<and> honest (dp_bind_faults dp))" for old
    using live_socket_kept[OF served(1)] by auto
  ultimately show ?thesis
    using stopped bound so2(1) assms(2) served(5) by (auto simp: close_listener_def)
qed

definition demo_process :: "(unit, unit, unit, unit) daemon_process" where
  "demo_process = \<lparr>dp_number = 7, dp_dirs = \<lparr>ud_runtime = Some ''/run/user/1'', ud_cache = None, ud_home = None\<rparr>,
     dp_env = (\<lambda>_. None), dp_host = sample_daemon_host, dp_write = (\<lambda>_. Inr ()),
     dp_bind_faults = (\<lambda>_. None), dp_stop_faults = (\<lambda>_. None)\<rparr>"

theorem daemon_takes_down_what_it_set_up_witness:
  "\<exists>s w' dw' so'. run_supervisor demo_process [ShutdownSeen] ()
       (\<lparr>dw_node = None, dw_new_mode = 493, dw_calls = 0, dw_faults = (\<lambda>_. None)\<rparr>, \<lparr>so_entry = SocketOf 3, so_listening = {5}\<rparr>)
     = (Some (Inr ()), (s, w'), dw', so') \<and> so_entry so' = NoEntry \<and> so_listening so' = {5}"
proof -
  let ?dw = "\<lparr>dw_node = None, dw_new_mode = 493, dw_calls = 0, dw_faults = (\<lambda>_. None)\<rparr>"
  let ?so = "\<lparr>so_entry = SocketOf 3, so_listening = {5}\<rparr>"
  have "acquire_socket_bind_lock ''/run/user/1/acp-agent/daemon/daemon.sock'' (\<lambda>_. None) = Inr ()" by code_simp
  from binding_without_faults[OF this, of 7 ?so] obtain s w' dw' so'
    where run: "run_supervisor demo_process [ShutdownSeen] () (?dw, ?so) = (Some (Inr ()), (s, w'), dw', so')"
    using demo_socket_path
    by (simp add: run_supervisor_def demo_process_def bind_daemon_socket_def daemon_socket_path_def faulty_def unlink_at_def
        supervisor_shutdown_def Let_def)
  from daemon_takes_down_what_it_set_up[OF run] run show ?thesis
    by (simp add: demo_process_def)
qed

end
