(* ===== verification/Staging.thy ===== *)
theory Staging
  imports Prelude
begin

text \<open>
  Who owns the staging directory of an installation, and what happens to it when the install future
  is dropped at an await: the guards and blocking tasks of \<open>prepare_staging_directory\<close>,
  \<open>PostExtractionValidation\<close>, \<open>PreparedStaging\<close> (\<open>src/src/installer/binary/staging.rs\<close>),
  \<open>CancellableExtraction\<close> (\<open>archive.rs\<close>) and the publisher (\<open>publication.rs\<close>). What the blocking
  tasks compute is in \<open>Archive\<close>, \<open>Install\<close> and \<open>Publication\<close>; here a task checks the cancellation
  flag, writes, and ends.
\<close>

section \<open>The owners of the staging directory\<close>

text \<open>Where the install future is suspended; \<open>Ended\<close>: it returned, failed or was dropped.\<close>

datatype staging_phase =
  Downloading | CreatingExtracted | Extracting | CleaningUp | Validating | Prepared | Promoting | Ended

text \<open>The blocking task: \<open>Failing\<close> is an extraction that ended with an error and has not cleaned up yet.\<close>

datatype job = Extractor | Validator
datatype work = Idle | Checking | Writing | Failing | Finished bool

text \<open>
  What goes on without the future. \<open>AwaitTask\<close>: the task spawned by the \<open>Drop\<close> of an extraction or
  validation, which waits for the blocking task; \<open>RemoveLocked\<close>: a removal that keeps the cache
  lock; \<open>Publisher\<close>: the promotion transaction. A \<open>tokio::fs\<close> call is a detached operation that
  runs to its end even when the future that awaits it is dropped; it holds no lock.
\<close>

datatype cleaner = NoCleaner | AwaitTask | RemoveLocked | Publisher
datatype fs_call = NoCall | CreateDirAll | RemoveDirAll

record staging_system =
  sg_phase :: staging_phase
  sg_job :: job
  sg_work :: work
  sg_left :: nat
  sg_cancel :: bool
  sg_dir :: bool
  sg_cleaner :: cleaner
  sg_detached :: fs_call

text \<open>\<open>sg_left\<close> is how much the task has still to write: an archive and a tree are finite.\<close>

definition staging_start :: staging_system where
  "staging_start = \<lparr>sg_phase = Downloading, sg_job = Extractor, sg_work = Idle, sg_left = 0, sg_cancel = False,
     sg_dir = True, sg_cleaner = NoCleaner, sg_detached = NoCall\<rparr>"

text \<open>The clones of the \<open>Arc\<close> of the cache lock: one of the future, one of each guard.\<close>

definition locked :: "staging_system \<Rightarrow> bool" where
  "locked s \<longleftrightarrow> sg_phase s \<noteq> Ended \<or> sg_cleaner s \<noteq> NoCleaner"

definition busy :: "staging_system \<Rightarrow> bool" where
  "busy s \<longleftrightarrow> sg_work s \<in> {Checking, Writing, Failing}"

section \<open>Steps\<close>

text \<open>The flag of an event says that a removal it contains failed; errors of removals are ignored.\<close>

datatype staging_event = Act bool | Drop staging_phase bool

fun removal_failed :: "staging_event \<Rightarrow> bool" where
  "removal_failed (Act b) = b"
| "removal_failed (Drop p b) = b"

definition remove_dir :: "bool \<Rightarrow> staging_system \<Rightarrow> staging_system" where
  "remove_dir failed s = (if failed then s else s\<lparr>sg_dir := False\<rparr>)"

definition spawn_work :: "job \<Rightarrow> nat \<Rightarrow> staging_system \<Rightarrow> staging_system" where
  "spawn_work j n s = s\<lparr>sg_job := j, sg_work := Checking, sg_left := n, sg_cancel := False\<rparr>"

inductive task_step :: "bool \<Rightarrow> staging_system \<Rightarrow> staging_system \<Rightarrow> bool" where
  check: "sg_work s = Checking \<Longrightarrow> \<not> sg_cancel s \<Longrightarrow> sg_left s = Suc n \<Longrightarrow>
    task_step False s (s\<lparr>sg_work := Writing, sg_left := n\<rparr>)"
| all_written: "sg_work s = Checking \<Longrightarrow> sg_left s = 0 \<Longrightarrow> task_step False s (s\<lparr>sg_work := Finished True\<rparr>)"
| writes: "sg_work s = Writing \<Longrightarrow> task_step False s (s\<lparr>sg_work := Checking, sg_dir := True\<rparr>)"
| fails: "sg_work s \<in> {Checking, Writing} \<Longrightarrow>
    task_step False s (s\<lparr>sg_work := (if sg_job s = Extractor then Failing else Finished False)\<rparr>)"
| panics: "sg_work s \<in> {Checking, Writing, Failing} \<Longrightarrow> task_step False s (s\<lparr>sg_work := Finished False\<rparr>)"
| cleans_up: "sg_work s = Failing \<Longrightarrow> task_step b s (remove_dir b (s\<lparr>sg_work := Finished False\<rparr>))"

inductive future_step :: "bool \<Rightarrow> staging_system \<Rightarrow> staging_system \<Rightarrow> bool" where
  downloaded: "sg_phase s = Downloading \<Longrightarrow>
    future_step False s (s\<lparr>sg_phase := CreatingExtracted, sg_detached := CreateDirAll\<rparr>)"
| tempdir_drops: "sg_phase s = Downloading \<or> sg_phase s = CreatingExtracted \<and> sg_detached s = NoCall \<Longrightarrow>
    future_step b s (remove_dir b (s\<lparr>sg_phase := Ended\<rparr>))"
| extracts: "sg_phase s = CreatingExtracted \<Longrightarrow> sg_detached s = NoCall \<Longrightarrow>
    future_step False s (spawn_work Extractor n (s\<lparr>sg_phase := Extracting\<rparr>))"
| extracted: "sg_phase s = Extracting \<Longrightarrow> sg_work s = Finished True \<Longrightarrow>
    future_step False s (spawn_work Validator n (s\<lparr>sg_phase := Validating\<rparr>))"
| no_command: "sg_phase s = Extracting \<Longrightarrow> sg_work s = Finished True \<Longrightarrow>
    future_step False s (s\<lparr>sg_phase := CleaningUp, sg_detached := RemoveDirAll\<rparr>)"
| extraction_failed: "sg_phase s = Extracting \<Longrightarrow> sg_work s = Finished False \<Longrightarrow>
    future_step b s (remove_dir b (s\<lparr>sg_phase := CleaningUp, sg_detached := RemoveDirAll\<rparr>))"
| cleaned: "sg_phase s = CleaningUp \<Longrightarrow> sg_detached s = NoCall \<Longrightarrow> future_step False s (s\<lparr>sg_phase := Ended\<rparr>)"
| validated: "sg_phase s = Validating \<Longrightarrow> sg_work s = Finished True \<Longrightarrow> future_step False s (s\<lparr>sg_phase := Prepared\<rparr>)"
| validation_failed: "sg_phase s = Validating \<Longrightarrow> sg_work s = Finished False \<Longrightarrow>
    future_step b s (remove_dir b (s\<lparr>sg_phase := Ended\<rparr>))"
| no_lease: "sg_phase s = Prepared \<Longrightarrow> future_step False s (s\<lparr>sg_phase := Ended, sg_cleaner := RemoveLocked\<rparr>)"
| promotes: "sg_phase s = Prepared \<Longrightarrow> future_step False s (s\<lparr>sg_phase := Promoting, sg_cleaner := Publisher\<rparr>)"
| promoted: "sg_phase s = Promoting \<Longrightarrow> sg_cleaner s \<noteq> Publisher \<Longrightarrow> future_step False s (s\<lparr>sg_phase := Ended\<rparr>)"

inductive background_step :: "bool \<Rightarrow> staging_system \<Rightarrow> staging_system \<Rightarrow> bool" where
  created: "sg_detached s = CreateDirAll \<Longrightarrow> background_step False s (s\<lparr>sg_detached := NoCall, sg_dir := True\<rparr>)"
| not_created: "sg_detached s = CreateDirAll \<Longrightarrow> background_step False s (s\<lparr>sg_detached := NoCall\<rparr>)"
| removed: "sg_detached s = RemoveDirAll \<Longrightarrow> background_step b s (remove_dir b (s\<lparr>sg_detached := NoCall\<rparr>))"
| joined: "sg_cleaner s = AwaitTask \<Longrightarrow> sg_work s = Finished r \<Longrightarrow> background_step False s (s\<lparr>sg_cleaner := RemoveLocked\<rparr>)"
| cleaned_up: "sg_cleaner s = RemoveLocked \<Longrightarrow> background_step b s (remove_dir b (s\<lparr>sg_cleaner := NoCleaner\<rparr>))"
| moved_in_place: "sg_cleaner s = Publisher \<Longrightarrow> background_step False s (s\<lparr>sg_cleaner := NoCleaner, sg_dir := False\<rparr>)"
| not_promoted: "sg_cleaner s = Publisher \<Longrightarrow> background_step False s (s\<lparr>sg_cleaner := RemoveLocked\<rparr>)"

text \<open>What the destructors do when the future is dropped where it is suspended.\<close>

fun drop_future :: "bool \<Rightarrow> staging_phase \<Rightarrow> staging_system \<Rightarrow> staging_system" where
  "drop_future b Downloading s = remove_dir b s"
| "drop_future b CreatingExtracted s = remove_dir b s"
| "drop_future b Extracting s = s\<lparr>sg_cancel := True, sg_cleaner := AwaitTask\<rparr>"
| "drop_future b Validating s = s\<lparr>sg_cancel := True, sg_cleaner := AwaitTask\<rparr>"
| "drop_future b Prepared s = s\<lparr>sg_cleaner := RemoveLocked\<rparr>"
| "drop_future b _ s = s"

inductive staging_step :: "staging_event \<Rightarrow> staging_system \<Rightarrow> staging_system \<Rightarrow> bool" where
  task: "task_step b s s' \<Longrightarrow> staging_step (Act b) s s'"
| future: "future_step b s s' \<Longrightarrow> staging_step (Act b) s s'"
| background: "background_step b s s' \<Longrightarrow> staging_step (Act b) s s'"
| dropped: "sg_phase s \<noteq> Ended \<Longrightarrow> staging_step (Drop (sg_phase s) b) s ((drop_future b (sg_phase s) s)\<lparr>sg_phase := Ended\<rparr>)"

inductive staging_run :: "staging_event list \<Rightarrow> staging_system \<Rightarrow> bool" where
  start: "staging_run [] staging_start"
| step: "staging_run es s \<Longrightarrow> staging_step e s s' \<Longrightarrow> staging_run (es @ [e]) s'"

inductive_cases task_stepE: "task_step b s s'"
inductive_cases future_stepE: "future_step b s s'"
inductive_cases background_stepE: "background_step b s s'"
inductive_cases staging_stepE: "staging_step e s s'"

section \<open>The invariant\<close>

definition dropped_at :: "staging_phase \<Rightarrow> staging_event list \<Rightarrow> bool" where
  "dropped_at p es \<longleftrightarrow> (\<exists>b. Drop p b \<in> set es)"

text \<open>Why a directory may stay: a removal failed, or the future was dropped while a directory was made.\<close>

definition excused :: "staging_event list \<Rightarrow> bool" where
  "excused es \<longleftrightarrow> dropped_at CreatingExtracted es \<or> list_ex removal_failed es"

lemma events_snoc [simp]:
  "dropped_at p (es @ [e]) \<longleftrightarrow> dropped_at p es \<or> (\<exists>b. e = Drop p b)"
  "excused (es @ [e]) \<longleftrightarrow> excused es \<or> (\<exists>b. e = Drop CreatingExtracted b) \<or> removal_failed e"
  by (auto simp: dropped_at_def excused_def)

lemma dropped_excused: "dropped_at CreatingExtracted es \<Longrightarrow> excused es"
  by (simp add: excused_def)

text \<open>What a blocking task may be while nobody but its owner touches the directory.\<close>

definition work_ok :: "staging_system \<Rightarrow> bool" where
  "work_ok s \<longleftrightarrow> sg_work s \<noteq> Idle \<and> (sg_work s \<noteq> Finished False \<longrightarrow> sg_dir s)"

definition staging_inv :: "staging_event list \<Rightarrow> staging_system \<Rightarrow> bool" where
  "staging_inv es s \<longleftrightarrow>
     (case sg_phase s of
        Downloading \<Rightarrow> sg_cleaner s = NoCleaner \<and> sg_detached s = NoCall \<and> \<not> busy s \<and> sg_dir s
      | CreatingExtracted \<Rightarrow> sg_cleaner s = NoCleaner \<and> sg_detached s \<noteq> RemoveDirAll \<and> \<not> busy s \<and> sg_dir s
      | Extracting \<Rightarrow> sg_cleaner s = NoCleaner \<and> sg_detached s = NoCall \<and> work_ok s
      | CleaningUp \<Rightarrow> sg_cleaner s = NoCleaner \<and> sg_detached s \<noteq> CreateDirAll \<and> \<not> busy s
          \<and> (sg_detached s = NoCall \<longrightarrow> sg_dir s \<longrightarrow> excused es)
      | Validating \<Rightarrow> sg_cleaner s = NoCleaner \<and> sg_detached s = NoCall \<and> work_ok s
      | Prepared \<Rightarrow> sg_cleaner s = NoCleaner \<and> sg_detached s = NoCall \<and> \<not> busy s
      | Promoting \<Rightarrow> sg_cleaner s \<noteq> AwaitTask \<and> sg_detached s = NoCall \<and> \<not> busy s
          \<and> (sg_cleaner s = NoCleaner \<longrightarrow> sg_dir s \<longrightarrow> excused es)
      | Ended \<Rightarrow>
          (case sg_cleaner s of
             AwaitTask \<Rightarrow> sg_detached s = NoCall \<and> sg_work s \<noteq> Idle \<and> (busy s \<longrightarrow> sg_dir s)
           | NoCleaner \<Rightarrow> \<not> busy s
               \<and> (case sg_detached s of
                    CreateDirAll \<Rightarrow> dropped_at CreatingExtracted es
                  | RemoveDirAll \<Rightarrow> dropped_at CleaningUp es
                  | NoCall \<Rightarrow> sg_dir s \<longrightarrow> excused es)
           | _ \<Rightarrow> sg_detached s = NoCall \<and> \<not> busy s))"

lemmas staging_inv_defs = staging_inv_def work_ok_def busy_def

lemma remove_dir_simps [simp]:
  "sg_phase (remove_dir b s) = sg_phase s" "sg_job (remove_dir b s) = sg_job s" "sg_work (remove_dir b s) = sg_work s"
  "sg_left (remove_dir b s) = sg_left s" "sg_cancel (remove_dir b s) = sg_cancel s"
  "sg_cleaner (remove_dir b s) = sg_cleaner s" "sg_detached (remove_dir b s) = sg_detached s"
  "sg_dir (remove_dir b s) \<longleftrightarrow> b \<and> sg_dir s"
  by (simp_all add: remove_dir_def)

lemma spawn_work_simps [simp]:
  "sg_phase (spawn_work j n s) = sg_phase s" "sg_work (spawn_work j n s) = Checking" "sg_left (spawn_work j n s) = n"
  "sg_cleaner (spawn_work j n s) = sg_cleaner s" "sg_detached (spawn_work j n s) = sg_detached s"
  "sg_dir (spawn_work j n s) = sg_dir s" "sg_cancel (spawn_work j n s) = False" "sg_job (spawn_work j n s) = j"
  by (simp_all add: spawn_work_def)

lemma task_step_inv: "task_step b s s' \<Longrightarrow> staging_inv es s \<Longrightarrow> staging_inv (es @ [Act b]) s'"
  by (erule task_stepE; cases "sg_phase s"; cases "sg_cleaner s"; auto simp: staging_inv_defs dropped_excused split: fs_call.splits)

lemma future_step_inv: "future_step b s s' \<Longrightarrow> staging_inv es s \<Longrightarrow> staging_inv (es @ [Act b]) s'"
  by (erule future_stepE; cases "sg_phase s"; cases "sg_cleaner s"; auto simp: staging_inv_defs dropped_excused split: fs_call.splits)

lemma background_step_inv: "background_step b s s' \<Longrightarrow> staging_inv es s \<Longrightarrow> staging_inv (es @ [Act b]) s'"
  by (erule background_stepE; cases "sg_phase s"; cases "sg_cleaner s"; auto simp: staging_inv_defs dropped_excused split: fs_call.splits)

lemma drop_inv:
  assumes "sg_phase s \<noteq> Ended" "staging_inv es s"
  shows "staging_inv (es @ [Drop (sg_phase s) b]) ((drop_future b (sg_phase s) s)\<lparr>sg_phase := Ended\<rparr>)"
  using assms by (cases "sg_phase s"; cases "sg_cleaner s"; auto simp: staging_inv_defs split: fs_call.splits)

lemma staging_step_inv:
  assumes "staging_step e s s'" "staging_inv es s"
  shows "staging_inv (es @ [e]) s'"
  using assms by (auto elim!: staging_stepE intro: task_step_inv future_step_inv background_step_inv drop_inv)

lemma staging_run_inv: "staging_run es s \<Longrightarrow> staging_inv es s"
proof (induction rule: staging_run.induct)
  case start
  show ?case by (simp add: staging_inv_defs staging_start_def)
qed (rule staging_step_inv)

section \<open>Who may touch the directory\<close>

text \<open>
  Property C8: while a blocking task may write into the staging directory nobody else removes it, and a
  removed directory never comes back; whatever happens to the directory happens under the cache
  lock. The exceptions are the two calls that go on alone when the future is dropped while it
  awaits them: the creation of the \<open>extracted\<close> directory and \<open>cleanup_dir\<close>.
\<close>

theorem staging_work_is_owned:
  assumes "staging_run es s" "staging_step e s s'"
  shows "(busy s \<longrightarrow> sg_dir s \<and> locked s)
    \<and> (sg_dir s \<and> \<not> sg_dir s' \<longrightarrow> \<not> busy s')
    \<and> (\<not> sg_dir s \<and> sg_dir s' \<longrightarrow> dropped_at CreatingExtracted es)
    \<and> (\<not> locked s \<longrightarrow> dropped_at CreatingExtracted es \<or> dropped_at CleaningUp es)"
proof -
  have inv: "staging_inv es s" "staging_inv (es @ [e]) s'"
    using staging_run_inv assms staging_step_inv by blast+
  have 1: "busy s \<longrightarrow> sg_dir s \<and> locked s"
    using inv(1) by (cases "sg_phase s"; cases "sg_cleaner s") (auto simp: staging_inv_defs locked_def)
  have 2: "busy s' \<longrightarrow> sg_dir s'"
    using inv(2) by (cases "sg_phase s'"; cases "sg_cleaner s'") (auto simp: staging_inv_defs)
  have 3: "\<not> sg_dir s \<and> sg_dir s' \<longrightarrow> dropped_at CreatingExtracted es"
  proof
    assume again: "\<not> sg_dir s \<and> sg_dir s'"
    from assms(2) have "sg_work s = Writing \<or> sg_detached s = CreateDirAll"
      using again
    proof cases
      case (dropped b)
      with again show ?thesis by (cases "sg_phase s") auto
    qed (auto elim!: task_stepE future_stepE background_stepE)
    with again inv(1) show "dropped_at CreatingExtracted es"
      by (cases "sg_phase s"; cases "sg_cleaner s") (auto simp: staging_inv_defs)
  qed
  have 4: "dropped_at CreatingExtracted es \<or> dropped_at CleaningUp es" if "\<not> locked s"
  proof -
    from that have at: "sg_phase s = Ended" "sg_cleaner s = NoCleaner" by (auto simp: locked_def)
    with inv(1) have "\<not> busy s" by (simp add: staging_inv_def)
    with assms(2) at have "sg_detached s \<noteq> NoCall"
      by (auto simp: busy_def elim!: staging_stepE task_stepE future_stepE background_stepE)
    with at inv(1) show ?thesis by (cases "sg_detached s") (auto simp: staging_inv_def)
  qed
  from 1 2 3 4 show ?thesis by blast
qed

lemma download_run:
  "staging_run ([] @ [Act False]) (staging_start\<lparr>sg_phase := CreatingExtracted, sg_detached := CreateDirAll\<rparr>)"
  by (rule staging_run.step[OF staging_run.start staging_step.future[OF future_step.downloaded]])
    (simp add: staging_start_def)

theorem staging_work_is_owned_witness:
  "\<exists>s e s'. staging_run [Act False, Act False, Act False] s \<and> busy s \<and> staging_step e s s' \<and> busy s' \<and> sg_dir s'"
proof -
  let ?s1 = "staging_start\<lparr>sg_phase := CreatingExtracted, sg_detached := CreateDirAll\<rparr>"
  let ?s2 = "?s1\<lparr>sg_detached := NoCall, sg_dir := True\<rparr>"
  let ?s3 = "spawn_work Extractor 1 (?s2\<lparr>sg_phase := Extracting\<rparr>)"
  let ?s4 = "?s3\<lparr>sg_work := Writing, sg_left := 0\<rparr>"
  have 1: "staging_run ([] @ [Act False]) ?s1" by (rule download_run)
  have 2: "staging_run (([] @ [Act False]) @ [Act False]) ?s2"
    by (rule staging_run.step[OF 1 staging_step.background[OF background_step.created]]) simp
  have 3: "staging_run ((([] @ [Act False]) @ [Act False]) @ [Act False]) ?s3"
    by (rule staging_run.step[OF 2 staging_step.future[OF future_step.extracts]]) simp_all
  have 4: "staging_step (Act False) ?s3 ?s4"
    by (rule staging_step.task) (rule task_step.check, simp_all)
  from staging_work_is_owned[OF 3 4] 3 4 show ?thesis
    by (intro exI[of _ ?s3] exI[of _ "Act False"] exI[of _ ?s4]) (auto simp: busy_def)
qed

section \<open>Every installation ends\<close>

definition phase_rank :: "staging_phase \<Rightarrow> nat" where
  "phase_rank p = (case p of Downloading \<Rightarrow> 6 | CreatingExtracted \<Rightarrow> 5 | Extracting \<Rightarrow> 4 | Validating \<Rightarrow> 3
     | Prepared \<Rightarrow> 2 | Promoting \<Rightarrow> 1 | CleaningUp \<Rightarrow> 1 | Ended \<Rightarrow> 0)"

definition work_rank :: "work \<Rightarrow> nat" where
  "work_rank w = (case w of Writing \<Rightarrow> 3 | Checking \<Rightarrow> 2 | Failing \<Rightarrow> 1 | _ \<Rightarrow> 0)"

definition cleaner_rank :: "cleaner \<Rightarrow> nat" where
  "cleaner_rank c = (case c of AwaitTask \<Rightarrow> 2 | Publisher \<Rightarrow> 2 | RemoveLocked \<Rightarrow> 1 | NoCleaner \<Rightarrow> 0)"

definition staging_rank :: "(staging_system \<times> staging_system) set" where
  "staging_rank = inv_image (less_than <*lex*> less_than <*lex*> less_than <*lex*> less_than <*lex*> less_than)
     (\<lambda>s. (phase_rank (sg_phase s), sg_left s, work_rank (sg_work s), cleaner_rank (sg_cleaner s),
           if sg_detached s = NoCall then 0 else (1 :: nat)))"

lemma wf_staging_rank: "wf staging_rank"
  by (auto simp: staging_rank_def)

lemma staging_step_descends: "staging_step e s s' \<Longrightarrow> (s', s) \<in> staging_rank"
proof (erule staging_stepE)
  fix b assume "task_step b s s'"
  then show ?thesis by cases (auto simp: staging_rank_def work_rank_def)
next
  fix b assume "future_step b s s'"
  then show ?thesis by cases (auto simp: staging_rank_def phase_rank_def)
next
  fix b assume "background_step b s s'"
  then show ?thesis by cases (auto simp: staging_rank_def cleaner_rank_def)
next
  fix b assume "sg_phase s \<noteq> Ended" "s' = drop_future b (sg_phase s) s\<lparr>sg_phase := Ended\<rparr>"
  then show ?thesis by (cases "sg_phase s") (simp_all add: staging_rank_def phase_rank_def)
qed

lemma task_goes_on: "busy s \<Longrightarrow> \<exists>s'. staging_step (Act False) s s'"
  unfolding busy_def by (blast intro: staging_step.task task_step.panics)

definition installation_over :: "staging_system \<Rightarrow> bool" where
  "installation_over s \<longleftrightarrow> sg_phase s = Ended \<and> sg_cleaner s = NoCleaner \<and> sg_detached s = NoCall"

lemma installation_progress:
  assumes "staging_inv es s" "\<And>e s'. \<not> staging_step e s s'"
  shows "installation_over s"
proof -
  have ended: "sg_phase s = Ended" using assms(2) staging_step.dropped by blast
  have idle: "\<not> busy s" using assms(2) task_goes_on by blast
  have "\<not> background_step b s s'" for b s' using assms(2) staging_step.background by blast
  then have quiet: "sg_detached s \<noteq> CreateDirAll" "sg_detached s \<noteq> RemoveDirAll" "sg_cleaner s \<noteq> RemoveLocked"
      "sg_cleaner s \<noteq> Publisher" "sg_cleaner s = AwaitTask \<longrightarrow> (\<forall>r. sg_work s \<noteq> Finished r)"
    by (blast intro: background_step.intros)+
  moreover have "sg_cleaner s \<noteq> AwaitTask"
    using quiet(5) ended idle assms(1) by (cases "sg_work s") (auto simp: staging_inv_defs)
  ultimately show ?thesis
    unfolding installation_over_def using ended by (cases "sg_cleaner s"; cases "sg_detached s") auto
qed

interpretation installation: terminating_machine "\<lambda>s. s = staging_start" "\<lambda>s s'. \<exists>e. staging_step e s s'"
    "\<lambda>s. \<exists>es. staging_inv es s" staging_rank installation_over
proof
  show "s = staging_start \<Longrightarrow> \<exists>es. staging_inv es s" for s
    using staging_run_inv staging_run.start by blast
  show "\<exists>es. staging_inv es s \<Longrightarrow> \<exists>e. staging_step e s t \<Longrightarrow> \<exists>es. staging_inv es t" for s t
    using staging_step_inv by blast
  show "\<exists>es. staging_inv es s \<Longrightarrow> \<not> installation_over s \<Longrightarrow> \<exists>t e. staging_step e s t" for s
    using installation_progress by blast
qed (auto simp: wf_staging_rank intro: staging_step_descends)

text \<open>
  Property C17: however an installation goes, and wherever its future is dropped, it comes to an end: no
  schedule of its tasks goes on for ever, and when nothing is left to do the cache lock is released and
  the staging directory is gone (moved in place or removed), unless a removal failed or the future
  was dropped while the \<open>extracted\<close> directory was being created.
\<close>

theorem staging_comes_to_an_end:
  "\<not> (\<exists>f es. \<forall>i. staging_step (es i) (f i) (f (Suc i)))
   \<and> (\<forall>es s. staging_run es s \<longrightarrow> (\<forall>e s'. \<not> staging_step e s s') \<longrightarrow>
        \<not> locked s \<and> (sg_dir s \<longrightarrow> dropped_at CreatingExtracted es \<or> list_ex removal_failed es))"
proof (intro conjI allI impI)
  show "\<not> (\<exists>f es. \<forall>i. staging_step (es i) (f i) (f (Suc i)))"
    using installation.no_infinite_run by blast
next
  fix es s assume run: "staging_run es s" "\<forall>e s'. \<not> staging_step e s s'"
  note inv = staging_run_inv[OF run(1)]
  from inv run(2) have "installation_over s" by (blast intro: installation.stuck_finished)
  with inv show "\<not> locked s" "sg_dir s \<Longrightarrow> dropped_at CreatingExtracted es \<or> list_ex removal_failed es"
    by (simp_all add: locked_def staging_inv_def excused_def installation_over_def)
qed

theorem staging_comes_to_an_end_witness:
  "\<exists>s. staging_run [Act False] s \<and> (\<forall>e s'. \<not> staging_step e s s') \<and> \<not> locked s \<and> \<not> sg_dir s"
proof -
  let ?s = "remove_dir False (staging_start\<lparr>sg_phase := Ended\<rparr>)"
  have "staging_run ([] @ [Act False]) ?s"
    by (intro staging_run.step[OF staging_run.start] staging_step.future future_step.tempdir_drops)
      (simp add: staging_start_def)
  then have run: "staging_run [Act False] ?s" by simp
  have stuck: "\<forall>e s'. \<not> staging_step e ?s s'"
    by (auto simp: staging_start_def remove_dir_def elim!: staging_stepE task_stepE future_stepE background_stepE)
  from staging_comes_to_an_end[THEN conjunct2, rule_format, OF run] stuck
  have "\<not> locked ?s \<and> (sg_dir ?s \<longrightarrow> dropped_at CreatingExtracted [Act False] \<or> list_ex removal_failed [Act False])"
    by blast
  with run stuck show ?thesis by (intro exI[of _ ?s]) (simp add: dropped_at_def)
qed

text \<open>
  Property C24: that exception is real: an install future that is dropped while it awaits
  \<open>tokio::fs::create_dir_all\<close> removes its staging directory first and has it created again
  afterwards; no removal failed, nothing is left to do, and the directory stays, unpublished and
  without the lock.
\<close>

theorem dropped_creation_leaves_the_directory:
  "\<exists>s. staging_run [Act False, Drop CreatingExtracted False, Act False] s
     \<and> sg_dir s \<and> \<not> locked s \<and> (\<forall>e s'. \<not> staging_step e s s')"
proof -
  let ?s1 = "staging_start\<lparr>sg_phase := CreatingExtracted, sg_detached := CreateDirAll\<rparr>"
  let ?s2 = "(drop_future False CreatingExtracted ?s1)\<lparr>sg_phase := Ended\<rparr>"
  let ?s3 = "?s2\<lparr>sg_detached := NoCall, sg_dir := True\<rparr>"
  have 1: "staging_run ([] @ [Act False]) ?s1" by (rule download_run)
  have 2: "staging_run (([] @ [Act False]) @ [Drop CreatingExtracted False]) ?s2"
    using staging_run.step[OF 1 staging_step.dropped[of ?s1 False]] by simp
  have "background_step False ?s2 ?s3"
    by (rule background_step.created) (simp add: remove_dir_def)
  from staging_run.step[OF 2 staging_step.background[OF this]]
  have 3: "staging_run [Act False, Drop CreatingExtracted False, Act False] ?s3" by simp
  have "\<not> staging_step e ?s3 s'" for e s'
    by (auto simp: staging_start_def remove_dir_def elim!: staging_stepE task_stepE future_stepE background_stepE)
  with 3 show ?thesis
    by (intro exI[of _ ?s3]) (simp add: locked_def staging_start_def remove_dir_def)
qed

end
