(* ===== verification/Launching.thy ===== *)
theory Launching imports Lifecycle Daemon_Concurrency Route_Runtime begin

text \<open>
  The installer, the runner, the routes and the daemon put together: \<open>resolve_agent_command\<close>
  (\<open>src/src/runner.rs\<close>) on the binary cache of \<open>Install\<close>, \<open>RouteRuntime::new\<close> with the agent
  factory of its router (\<open>src/src/serve/runtime.rs\<close>), and the daemon whose registrations use both. What
  a component took as a parameter is here the definition of the component that provides it.
\<close>

section \<open>The services of a process\<close>

record ('v, 'c) launch_env =
  le_inst :: installer
  le_cache_dir :: "path option"
  le_platform :: "Platform result"
  le_available :: "world \<Rightarrow> string \<Rightarrow> bool result"
  le_registry :: "'v Registry result"
  le_yolo :: "YoloModes result"
  le_parse_uri :: "string \<Rightarrow> string + uri"
  le_max_permits :: u64
  le_cors :: "'c cors_library"

text \<open>The host of the runner: a binary target is resolved by \<open>cache_binary_target\<close>.\<close>

definition cache_host :: "('v, 'c) launch_env \<Rightarrow> (world, BinaryCacheLock) run_host" where
  "cache_host env =
     \<lparr>rn_platform = le_platform env, rn_available = le_available env,
      rn_cache_binary_target = cache_binary_target (le_inst env) (le_cache_dir env)\<rparr>"

section \<open>Routes\<close>

text \<open>
  What the router of a route holds: the assembled runtime and what its agent factory captured. Each
  connection's agent is made from clones of the captured values, with a generation of its own.
\<close>

record 'c route_router =
  ro_runtime :: "'c Route_Runtime.RouteRuntime"
  ro_config :: AcpAgentConfig
  ro_cancel :: bool
  ro_cache_use_lease :: "BinaryCacheLock option"

record ObservedAgent =
  oa_inner :: AcpAgentConfig
  oa_generation :: u64
  oa_cancelled :: bool
  oa_cache_use_lease :: "BinaryCacheLock option"

definition agent_factory :: "'c route_router \<Rightarrow> AgentHealth \<Rightarrow> ObservedAgent \<times> AgentHealth" where
  "agent_factory router health =
     (let (generation, health') = next_generation health in
      (\<lparr>oa_inner = ro_config router, oa_generation = generation, oa_cancelled = ro_cancel router,
        oa_cache_use_lease = ro_cache_use_lease router\<rparr>, health'))"

definition RouteRuntime_new ::
    "('v, 'c) launch_env \<Rightarrow> BinaryCacheLock ResolvedAgentConfig \<Rightarrow> RouteConfig \<Rightarrow> bool
     \<Rightarrow> 'c route_router Routes.RouteRuntime result" where
  "RouteRuntime_new env resolved options cancel =
     map_ok (\<lambda>runtime.
       \<lparr>rt_router = \<lparr>ro_runtime = runtime, ro_config = rc_config resolved, ro_cancel = cancel,
          ro_cache_use_lease = rc_cache_use_lease resolved\<rparr>,
        rt_health = health_state (Route_Runtime.rt_health runtime)\<rparr>)
       (route_runtime (le_max_permits env) (le_cors env) options)"

definition route_host ::
    "('v, 'c) launch_env \<Rightarrow> ('v, world, BinaryCacheLock, 'c route_router) register_host" where
  "route_host env =
     \<lparr>rh_parse_uri = le_parse_uri env, rh_max_permits = le_max_permits env, rh_registry = le_registry env,
      rh_yolo = le_yolo env, rh_run = cache_host env, rh_runtime = RouteRuntime_new env\<rparr>"

section \<open>The program of a command\<close>

text \<open>
  A program that came from the cache: the agent's distribution for this platform has an entry that
  validation accepted with the tree it has in \<open>fs\<close>, the program is the executable below it, and
  \<open>lease\<close> is the shared lock of that entry.
\<close>

definition leased_binary ::
    "('v, 'c) launch_env \<Rightarrow> RegistryAgent \<Rightarrow> files \<Rightarrow> string \<Rightarrow> BinaryCacheLock \<Rightarrow> bool" where
  "leased_binary env agent fs program lease \<longleftrightarrow>
     (\<exists>root platform target digest paths (c :: BinaryCacheLock CachedBinary).
        cache_root_dir (le_cache_dir env) = Inr root \<and> le_platform env = Inr platform
        \<and> Option.bind (ad_binary (ra_distribution agent)) (\<lambda>b. for_platform b platform) = Some target
        \<and> bt_sha256 target = Some digest
        \<and> paths = binary_cache_paths_with_digest (in_sha256 (le_inst env)) root (ra_id agent) (ra_version agent) platform digest
        \<and> was_validated (\<lambda>p. validate_cached_binary_blocking (in_sha256 (le_inst env)) (in_decode (le_inst env)) p
              (BinaryCacheMetadata_new (ra_id agent) (ra_version agent) platform (bt_archive target) (bt_cmd target) (Some digest)))
            paths c fs
        \<and> prefix (bp_extracted_dir paths) (cb_executable_path c)
        \<and> program = path_display (cb_executable_path c)
        \<and> lease = \<lparr>bl_path = binary_cache_use_lock_path (in_sha256 (le_inst env)) paths, bl_mode = Read\<rparr>)"

definition package_runners :: "string set" where
  "package_runners = {''npm'', ''deno'', ''uvx''}"

definition trusted_program ::
    "('v, 'c) launch_env \<Rightarrow> RegistryAgent \<Rightarrow> files \<Rightarrow> string \<Rightarrow> BinaryCacheLock option \<Rightarrow> bool" where
  "trusted_program env agent fs program lease =
     (case lease of
        None \<Rightarrow> program \<in> package_runners
      | Some l \<Rightarrow> leased_binary env agent fs program l)"

lemma validated_executable:
  assumes "validate_cached_binary_blocking sha256 decode paths expected w = (Inr (Some c), w')"
  shows "prefix (bp_extracted_dir paths) (cb_executable_path c)"
proof -
  have "prefix d exe" if "resolve_cmd_path d cmd = Inr exe" for d cmd exe
    using resolve_cmd_path_contained[where extracted_dir = d and cmd = cmd] that by auto
  then have "hands_out (\<lambda>r. \<forall>c. r = Some c \<longrightarrow> prefix (bp_extracted_dir paths) (cb_executable_path c))
      (validate_cached_binary_blocking sha256 decode paths expected)"
    unfolding validate_cached_binary_blocking_def
    by (auto split: option.split sum.split intro!: hands_out_then hands_out_try hands_out_return)
  with assms show ?thesis by (auto simp: hands_out_def)
qed

lemma cached_binary_leased:
  assumes run: "cache_binary_target (le_inst env) (le_cache_dir env) agent platform target w = (Inr c, w')"
    and platform: "le_platform env = Inr platform"
    and target: "Option.bind (ad_binary (ra_distribution agent)) (\<lambda>b. for_platform b platform) = Some target"
  shows "\<exists>l. cb_cache_use_lease c = Some l
     \<and> leased_binary env agent (w_files w') (path_display (cb_executable_path c)) l"
proof -
  let ?inst = "le_inst env"
  obtain root w0 where root: "cache_root_dir (le_cache_dir env) = Inr root"
    and hit: "cache_binary_target_in_mode ?inst never root agent platform target False w = (Inr c, w0)"
    and w': "w' = snd (record_install_log_in (in_locks ?inst) (in_now ?inst) root agent platform (Inr c) w0)"
    using run by (auto simp: cache_binary_target_def cache_binary_target_in_def io_try_def io_then_def io_result_def
        record_install_log_def split: prod.splits sum.splits)
  from installation_validates[OF hit] obtain digest paths c0 where digest: "bt_sha256 target = Some digest"
    and paths: "paths = binary_cache_paths_with_digest (in_sha256 ?inst) root (ra_id agent) (ra_version agent) platform digest"
    and val: "was_validated (\<lambda>p. validate_cached_binary_blocking (in_sha256 ?inst) (in_decode ?inst) p
           (BinaryCacheMetadata_new (ra_id agent) (ra_version agent) platform (bt_archive target) (bt_cmd target) (Some digest)))
         paths c0 (w_files w0)"
    and c: "c = c0\<lparr>cb_cache_use_lease := Some \<lparr>bl_path = binary_cache_use_lock_path (in_sha256 ?inst) paths, bl_mode = Read\<rparr>\<rparr>"
    by blast
  have "spares_dir (bp_cache_dir paths) w0 w'"
    unfolding w' by (rule record_spares_dir)
      (simp add: paths binary_cache_paths_with_digest_def binary_cache_paths_def Let_def)
  with val have "was_validated (\<lambda>p. validate_cached_binary_blocking (in_sha256 ?inst) (in_decode ?inst) p
           (BinaryCacheMetadata_new (ra_id agent) (ra_version agent) platform (bt_archive target) (bt_cmd target) (Some digest)))
         paths c0 (w_files w')"
    by (simp add: was_validated_def spares_dir_def)
  moreover have "prefix (bp_extracted_dir paths) (cb_executable_path c0)"
    using val validated_executable unfolding was_validated_def by blast
  ultimately show ?thesis
    unfolding leased_binary_def using root platform target digest paths c by (auto intro!: exI[of _ c0])
qed

lemma npm_program:
  "npm_command_spec runner package d e u = Some spec \<Longrightarrow>
     cs_program spec \<in> package_runners \<and> cs_cache_use_lease spec = None \<and> cs_current_dir spec = None"
  by (auto simp: npm_command_spec_def package_command_spec_def package_runners_def split: PackageRunner.splits)

lemma resolve_trusted:
  assumes "resolve_agent_command (cache_host env) agent user_args w = Some (Inr spec, w')"
  shows "trusted_program env agent (w_files w') (cs_program spec) (cs_cache_use_lease spec)
    \<and> (cs_current_dir spec = None \<longleftrightarrow> cs_cache_use_lease spec = None)"
proof -
  obtain d where d: "resolve_distribution (le_platform env) (le_available env w) agent = Inr (Some d)"
    using assms by (auto simp: resolve_agent_command_def cache_host_def split: sum.splits option.splits)
  show ?thesis
  proof (cases d)
    case (RBinary platform target)
    from d RBinary have p: "le_platform env = Inr platform"
      "Option.bind (ad_binary (ra_distribution agent)) (\<lambda>b. for_platform b platform) = Some target"
      by (auto simp: resolve_distribution_def and_then_eq_Inr map_ok_eq_Inr split: option.splits)
    from assms d RBinary obtain c where
        c: "cache_binary_target (le_inst env) (le_cache_dir env) agent platform target w = (Inr c, w')"
      and spec: "spec = binary_command_spec c target user_args"
      by (auto simp: resolve_agent_command_def cache_host_def split: prod.splits sum.splits)
    from cached_binary_leased[OF c p] spec show ?thesis
      by (auto simp: trusted_program_def binary_command_spec_def)
  next
    case (RNpm n runner)
    with assms d have "npm_command_spec runner (pd_package n) (pd_args n) (pd_env n) user_args = Some spec"
      by (auto simp: resolve_agent_command_def cache_host_def split: option.splits)
    from npm_program[OF this] show ?thesis by (simp add: trusted_program_def)
  next
    case (RUvx u)
    with assms d have "spec = package_command_spec ''uvx'' [] (pd_package u) (pd_args u) (pd_env u) user_args"
      by (auto simp: resolve_agent_command_def cache_host_def)
    then show ?thesis by (simp add: trusted_program_def package_runners_def package_command_spec_def)
  qed
qed

section \<open>What run starts\<close>


section \<open>What the daemon launches\<close>

text \<open>
  The interleaved daemon of \<open>Daemon_Concurrency\<close> on these services. Between any two of its steps the
  registry, the clock, the file system and the locks may have become others.
\<close>

abbreviation launching_step ::
    "listener_bind \<Rightarrow> 'c route_router daemon_system \<Rightarrow> 'c route_router daemon_system \<Rightarrow> bool" where
  "launching_step bind s t \<equiv> \<exists>env :: (string, 'c) launch_env. daemon_step bind (route_host env) s t"

definition built_route ::
    "(string, 'c) launch_env \<Rightarrow> RouteKey \<Rightarrow> 'c route_router Routes.RouteRuntime \<Rightarrow> world \<Rightarrow> bool" where
  "built_route env k rt w' \<longleftrightarrow>
     (\<exists>req cancel w. request_key req = k \<and> register_runtime (route_host env) req cancel w = Some (Inr rt, w'))"

fun pc_runtime :: "'r pc \<Rightarrow> (RouteKey \<times> 'r Routes.RouteRuntime) option" where
  "pc_runtime (RegLock k runtime i) = Some (k, runtime)"
| "pc_runtime (RegRecheck k runtime i) = Some (k, runtime)"
| "pc_runtime (RegCommit k runtime i) = Some (k, runtime)"
| "pc_runtime _ = None"

definition routes_in :: "'r SupervisorState \<Rightarrow> (RouteKey \<times> 'r Routes.RouteRuntime) set" where
  "routes_in s = (\<Union>x\<in>set (sv_heap s). set (di_routes x))"

definition runtimes_in :: "'r daemon_system \<Rightarrow> (RouteKey \<times> 'r Routes.RouteRuntime) set" where
  "runtimes_in s = routes_in (ds_sup s) \<union> {e. \<exists>(t, pc)\<in>set (ds_tasks s). pc_runtime pc = Some e}"

lemma routes_in_update:
  assumes "set (di_routes (f (sv_heap s ! i))) \<subseteq> set (di_routes (sv_heap s ! i)) \<union> E"
  shows "routes_in (update_instance i f s) \<subseteq> routes_in s \<union> E"
proof (cases "i < length (sv_heap s)")
  case True
  have "set ((sv_heap s)[i := f (sv_heap s ! i)]) \<subseteq> insert (f (sv_heap s ! i)) (set (sv_heap s))"
    by (rule set_update_subset_insert)
  with assms True show ?thesis
    unfolding routes_in_def update_instance_def by fastforce
next
  case False
  then show ?thesis by (simp add: routes_in_def update_instance_def list_update_beyond)
qed

lemma routes_in_create: "routes_in (snd (create_locked bind req s)) = routes_in s"
  by (cases rule: create_locked_cases[of bind req s]) (auto simp: add_instance_def routes_in_def new_instance_def)

lemma routes_in_register:
  "routes_in (snd (register_locked k runtime i s)) \<subseteq> routes_in s \<union> {(k, runtime)}"
  by (auto simp: register_locked_def and_then_eq_Inr commit_registration_Inr
      dest!: subsetD[OF routes_in_update[where E = "{(k, runtime)}"], rotated] split: sum.split)

lemma routes_in_unregister: "routes_in (snd (unregister_locked ureq i s)) \<subseteq> routes_in s"
proof (cases "and_then (ensure_phase s) (\<lambda>_. commit_unregistration (ur_id ureq) (di_routes (sv_heap s ! i)))")
  case (Inr routes)
  then have "set routes \<subseteq> set (di_routes (sv_heap s ! i))"
    by (auto simp: and_then_eq_Inr commit_unregistration_def routes_remove_def split: option.splits)
  with Inr routes_in_update[of "\<lambda>x. x\<lparr>di_routes := routes\<rparr>" s i "{}"] show ?thesis
    by (simp add: unregister_locked_def)
qed (simp add: unregister_locked_def)

lemma routes_in_field:
  assumes "\<And>x. di_routes (f x) = di_routes x"
  shows "routes_in (update_instance i f s) = routes_in s"
proof -
  have all: "routes_in s = \<Union> (set (map (\<lambda>x. set (di_routes x)) (sv_heap s)))" for s :: "'r SupervisorState"
    by (simp add: routes_in_def)
  have "map (\<lambda>x. set (di_routes x)) ((sv_heap s)[i := f (sv_heap s ! i)]) = map (\<lambda>x. set (di_routes x)) (sv_heap s)"
    by (cases "i < length (sv_heap s)") (simp_all add: map_update assms list_update_beyond list_update_same_conv)
  then show ?thesis by (simp add: all update_instance_def del: set_map)
qed

lemma routes_in_sections [simp]:
  "routes_in (lock_instance t i s) = routes_in s" "routes_in (unlock_instance i s) = routes_in s"
  "routes_in (update_instance i mark_stopping s) = routes_in s"
  "routes_in (update_instance i (\<lambda>x. snd (take_listener x)) s) = routes_in s"
  "routes_in (remove_same name i s) = routes_in s" "routes_in (s\<lparr>sv_phase := p\<rparr>) = routes_in s"
  unfolding lock_instance_def unlock_instance_def
  by (auto simp: routes_in_field mark_stopping_def take_listener_def) (simp_all add: routes_in_def)

text \<open>A step adds no runtime but the one that its registration has just built.\<close>

lemma pc_step_runtimes:
  assumes "pc_step bind host t pc s pc' s'"
  shows "routes_in s' \<subseteq> routes_in s \<union> set_option (pc_runtime pc)"
    and "pc_runtime pc' = Some (k, rt) \<Longrightarrow> pc_runtime pc = Some (k, rt)
        \<or> (\<exists>req cancel w w'. request_key req = k \<and> register_runtime host req cancel w = Some (Inr rt, w'))"
proof -
  show "routes_in s' \<subseteq> routes_in s \<union> set_option (pc_runtime pc)"
    using assms routes_in_register routes_in_unregister
    by cases (simp_all add: routes_in_create, fastforce+)
  show "pc_runtime pc' = Some (k, rt) \<Longrightarrow> pc_runtime pc = Some (k, rt)
        \<or> (\<exists>req cancel w w'. request_key req = k \<and> register_runtime host req cancel w = Some (Inr rt, w'))"
    using assms by cases (auto split: sum.splits)
qed

lemma built_runtime:
  assumes "register_runtime (route_host env) req cancel w = Some (Inr rt, w')"
  shows "\<exists>registry agent. le_registry env = Inr registry \<and> find_agent registry (rq_id req) = Some agent
     \<and> trusted_program env agent (w_files w') (ac_program (ro_config (rt_router rt))) (ro_cache_use_lease (rt_router rt))
     \<and> route_runtime (le_max_permits env) (le_cors env) (rq_config req) = Inr (ro_runtime (rt_router rt))"
proof -
  obtain registry agent args resolved where
      registry: "le_registry env = Inr registry" "find_agent registry (rq_id req) = Some agent"
    and resolved: "resolve_agent_config_from_registry_agent (cache_host env) agent args w = Some (Inr resolved, w')"
    and rt: "RouteRuntime_new env resolved (rq_config req) cancel = Inr rt"
    using assms
    by (auto simp: register_runtime_def Let_def route_host_def and_then_eq_Inr op_map_def ok_or_eq_Inr map_err_eq_Inr
        split: sum.splits)
  then obtain spec where spec: "resolve_agent_command (cache_host env) agent args w = Some (Inr spec, w')"
      "resolved = into_resolved_config spec"
    by (auto simp: resolve_agent_config_from_registry_agent_def map_ok_eq_Inr)
  from resolve_trusted[OF spec(1)] registry rt spec(2) show ?thesis
    by (auto simp: RouteRuntime_new_def map_ok_eq_Inr into_resolved_config_def)
qed

lemma route_runtime_admission:
  "route_runtime max_permits lib options = Inr rt \<Longrightarrow>
     rt_admission rt = adm (admission_init (unat (rc_max_processes options)))"
  by (auto simp: route_runtime_def and_then_eq_Inr admission_init_def)

definition launches_ok :: "'c route_router daemon_system \<Rightarrow> bool" where
  "launches_ok s \<longleftrightarrow> (\<forall>(k, rt) \<in> runtimes_in s. \<exists>env w'. built_route env k rt w')"

lemma launches_ok_step:
  fixes env :: "(string, 'c) launch_env"
  assumes ok: "launches_ok s" and step: "daemon_step bind (route_host env) s t"
  shows "launches_ok t"
proof -
  have "\<exists>env w'. built_route env k rt w'" if e: "(k, rt) \<in> runtimes_in t" for k rt
    using step
  proof cases
    case (spawn n pc)
    then have "pc_runtime pc = None" by (cases pc) auto
    with spawn e ok show ?thesis by (fastforce simp: launches_ok_def runtimes_in_def)
  next
    case (run n pc pc' s')
    note r = pc_step_runtimes[OF run(3)]
    have mem: "(n, pc) \<in> set (ds_tasks s)" using run(2) by (rule map_of_SomeD)
    have "(k, rt) \<in> runtimes_in s \<or> pc_runtime pc' = Some (k, rt)"
      using e r(1) mem unfolding run(1) runtimes_in_def
      by (auto simp: alist_put_def alist_del_def)
    moreover have "(k, rt) \<in> runtimes_in s" if "pc_runtime pc = Some (k, rt)"
      using that mem by (auto simp: runtimes_in_def)
    ultimately show ?thesis
      using r(2)[of k rt] ok unfolding launches_ok_def built_route_def by blast
  qed
  then show ?thesis by (auto simp: launches_ok_def)
qed

interpretation launching: invariant_machine "\<lambda>s. s = daemon_init" "launching_step bind" launches_ok for bind
proof
  show "s = daemon_init \<Longrightarrow> launches_ok s" for s :: "'c route_router daemon_system"
    by (simp add: launches_ok_def runtimes_in_def routes_in_def daemon_init_def SupervisorState_shared_def)
qed (auto intro: launches_ok_step)


section \<open>A demonstration\<close>

definition demo_env :: "(string, unit) launch_env" where
  "demo_env =
     \<lparr>le_inst = demo_installer, le_cache_dir = Some [], le_platform = Inr LinuxX86_64, le_available = (\<lambda>_ _. Inr False),
      le_registry = Inr \<lparr>rg_version = ''1'', rg_agents = [demo_agent], rg_extensions = None\<rparr>, le_yolo = Inl [''offline''],
      le_parse_uri = sample_build, le_max_permits = 1000,
      le_cors = \<lparr>lib_allow_any_origin = (), lib_disabled = (), lib_allow_origins = (\<lambda>_. Inr ())\<rparr>\<rparr>"

lemma demo_command:
  "\<exists>spec w'. resolve_agent_command (cache_host demo_env) demo_agent args (calm_world demo_installed) = Some (Inr spec, w')
     \<and> cs_cache_use_lease spec \<noteq> None"
proof -
  let ?w = "calm_world demo_installed"
  obtain c w0 where hit: "cache_binary_target_in_mode demo_installer never demo_root demo_agent LinuxX86_64 demo_target False ?w = (Inr c, w0)"
    using demo_install_hit by blast
  have root: "cache_root_dir (Some []) = Inr demo_root"
    by (simp add: cache_root_dir_def CACHE_NAMESPACE_def demo_root_def)
  obtain w' where run: "cache_binary_target (le_inst demo_env) (le_cache_dir demo_env) demo_agent LinuxX86_64 demo_target ?w = (Inr c, w')"
    using hit root by (simp add: cache_binary_target_def cache_binary_target_in_def io_try_def io_then_def io_result_def demo_env_def)
  have dist: "resolve_distribution (Inr LinuxX86_64) available demo_agent = Inr (Some (RBinary LinuxX86_64 demo_target))" for available
    by (simp add: resolve_distribution_def demo_agent_def demo_binaries_def for_platform_def)
  have target: "Option.bind (ad_binary (ra_distribution demo_agent)) (\<lambda>b. for_platform b LinuxX86_64) = Some demo_target"
    by (simp add: demo_agent_def demo_binaries_def for_platform_def)
  have platform: "le_platform demo_env = Inr LinuxX86_64" by (simp add: demo_env_def)
  from cached_binary_leased[OF run platform target] obtain l where "cb_cache_use_lease c = Some l" by blast
  with run platform dist show ?thesis
    by (simp add: resolve_agent_command_def cache_host_def binary_command_spec_def)
qed


definition demo_request :: RegisterRequest where
  "demo_request = \<lparr>rq_name = ''default'', rq_id = ''a'', rq_route = ''/my-agent'', rq_config = RouteConfig_default,
     rq_yolo = False, rq_args = []\<rparr>"

lemma demo_registration:
  "\<exists>rt w'. register_runtime (route_host demo_env) demo_request cancel (calm_world demo_installed) = Some (Inr rt, w')
     \<and> ro_cache_use_lease (rt_router rt) \<noteq> None"
proof -
  obtain spec w' where "cs_cache_use_lease spec \<noteq> None" "resolve_agent_command (cache_host demo_env) demo_agent [] (calm_world demo_installed) = Some (Inr spec, w')"
    using demo_command by blast
  moreover have "validate_route_config 1000 RouteConfig_default = Inr ()"
    by (simp add: validate_route_config_def RouteConfig_default_def DEFAULT_MAX_PROCESSES_def)
  moreover have "\<exists>so. http_server_options 1000 (le_cors demo_env) RouteConfig_default = Inr so"
    using calculation(3) by (simp add: http_server_options_def RouteConfig_default_def cors_options_def and_then_def demo_env_def)
  ultimately show ?thesis
    by (auto simp: register_runtime_def route_host_def demo_request_def demo_env_def find_agent_def demo_agent_def resolve_args_def
        resolve_agent_config_from_registry_agent_def RouteRuntime_new_def route_runtime_def validate_process_limit_def
        RouteConfig_default_def DEFAULT_MAX_PROCESSES_def op_map_def into_resolved_config_def)
qed

abbreviation launching_reachable :: "'c route_router SupervisorState \<Rightarrow> (nat \<times> 'c route_router pc) list \<Rightarrow> bool" where
  "launching_reachable sv tasks \<equiv> reach (\<lambda>s. s = daemon_init) (launching_step sample_bind) \<lparr>ds_sup = sv, ds_tasks = tasks\<rparr>"

lemma launching_spawn:
  fixes env :: "(string, 'c) launch_env"
  assumes "launching_reachable sv tasks" "map_of tasks t = None" "can_start (route_host env) pc sv"
  shows "launching_reachable sv ((t, pc) # tasks)"
  using reach_step[OF assms(1)] daemon_step.spawn[of "\<lparr>ds_sup = sv, ds_tasks = tasks\<rparr>" t "route_host env" pc sample_bind] assms(2,3)
  by auto

lemma launching_run:
  fixes env :: "(string, 'c) launch_env"
  assumes "launching_reachable sv ((t, pc) # tasks)" "pc_step sample_bind (route_host env) t pc sv pc' sv'"
    and "map_of tasks t = None"
  shows "launching_reachable sv' ((t, pc') # tasks)"
proof -
  have "alist_put t pc' ((t, pc) # tasks) = (t, pc') # tasks"
    using alist_del_notin[OF assms(3)] by (simp add: alist_put_def alist_del_def)
  then show ?thesis
    using reach_step[OF assms(1)] daemon_step.run[of "\<lparr>ds_sup = sv, ds_tasks = (t, pc) # tasks\<rparr>" t pc sample_bind "route_host env" pc' sv'] assms(2)
    by auto
qed

lemma demo_requests_valid:
  "validate_create sample_create = Inr ()" "validate_register (route_host demo_env) demo_request = Inr ()"
proof -
  have "trim ''127.0.0.1'' \<noteq> []" "trim ''a'' \<noteq> []" "validate_route sample_build ''/my-agent'' = Inr ()"
    by code_simp+
  then show "validate_create sample_create = Inr ()" "validate_register (route_host demo_env) demo_request = Inr ()"
    by (simp_all add: validate_create_def validate_name_def sample_create_def is_ascii_alphanumeric_def code_def
        validate_register_def demo_request_def validate_agent_id_def route_host_def demo_env_def op_map_def)
qed

lemma demo_daemon:
  "\<exists>rt sv tasks (x :: unit route_router DaemonInstance). launching_reachable sv tasks \<and> x \<in> set (sv_heap sv)
     \<and> (request_key demo_request, rt) \<in> set (di_routes x) \<and> ro_cache_use_lease (rt_router rt) \<noteq> None"
proof -
  let ?sv = "add_instance sample_create \<lparr>sa_ip = V4 127 0 0 1, sa_port = 8010\<rparr>
    (SupervisorState_shared :: unit route_router SupervisorState)"
  let ?k = "request_key demo_request" and ?locked = "lock_instance 1 0 ?sv"
  have created: "snd (create_locked sample_bind sample_create SupervisorState_shared) = ?sv"
    by (simp add: create_locked_def SupervisorState_shared_def sample_bind_def sample_create_def)
  have inst: "map_of (sv_instances ?sv) (rq_name demo_request) = Some 0" "sv_phase ?sv = PhaseRunning"
    "ensure_running (sv_heap ?sv ! 0) = Inr ()" "di_stop_lock (sv_heap ?sv ! 0) = None" "ensure_running (sv_heap ?locked ! 0) = Inr ()"
    "sv_phase ?locked = PhaseRunning" "sv_heap ?locked = [sv_heap ?locked ! 0]" "di_routes (sv_heap ?locked ! 0) = []"
    by (simp_all add: add_instance_def SupervisorState_shared_def sample_create_def demo_request_def new_instance_def
        ensure_running_def lock_instance_def update_instance_def)
  obtain rt w' where built: "register_runtime (route_host demo_env) demo_request (di_cancel (sv_heap ?sv ! 0))
        (calm_world demo_installed) = Some (Inr rt, w')" "ro_cache_use_lease (rt_router rt) \<noteq> None"
    using demo_registration by blast
  have "launching_reachable (SupervisorState_shared :: unit route_router SupervisorState) []" by (rule reach_init) (simp add: daemon_init_def)
  from launching_spawn[OF this, of 0 demo_env "CreateLocked sample_create"] demo_requests_valid(1)
  have "launching_reachable (SupervisorState_shared :: unit route_router SupervisorState) [(0, CreateLocked sample_create)]"
    by (simp add: SupervisorState_shared_def)
  from launching_run[OF this pc_step.create] have "launching_reachable ?sv [(0, Done)]" by (simp only: created map_of.simps simp_thms)
  from launching_spawn[OF this, of 1 demo_env "RegLookup demo_request"] demo_requests_valid(2) inst(2)
  have "launching_reachable ?sv [(1, RegLookup demo_request), (0, Done)]" by simp
  from launching_run[OF this pc_step.reg_lookup[OF inst(1)]]
  have "launching_reachable ?sv [(1, RegCheck demo_request 0), (0, Done)]" by simp
  from launching_run[OF this pc_step.reg_check] inst(3)
  have "launching_reachable ?sv [(1, RegResolve demo_request 0), (0, Done)]" by simp
  from launching_run[OF this pc_step.reg_resolve[OF built(1)]]
  have "launching_reachable ?sv [(1, RegLock ?k rt 0), (0, Done)]" by simp
  from launching_run[OF this pc_step.reg_lock[OF inst(4)]]
  have "launching_reachable ?locked [(1, RegRecheck ?k rt 0), (0, Done)]" by simp
  from launching_run[OF this pc_step.reg_recheck[OF inst(5)]]
  have "launching_reachable ?locked [(1, RegCommit ?k rt 0), (0, Done)]" by simp
  from launching_run[OF this pc_step.reg_commit]
  have reached: "launching_reachable (unlock_instance 0 (snd (register_locked ?k rt 0 ?locked))) [(1, Done), (0, Done)]" by simp
  have reg: "snd (register_locked ?k rt 0 ?locked) = update_instance 0 (\<lambda>x. x\<lparr>di_routes := [(?k, rt)]\<rparr>) ?locked"
    using inst(6,8) by (simp add: register_locked_def commit_registration_def routes_insert_def)
  have heap: "sv_heap (unlock_instance 0 (snd (register_locked ?k rt 0 ?locked)))
      = [(sv_heap ?locked ! 0)\<lparr>di_routes := [(?k, rt)], di_stop_lock := None\<rparr>]"
  proof -
    obtain x where "sv_heap ?locked = [x]" using inst(7) by blast
    with reg show ?thesis by (simp add: unlock_instance_def update_instance_def)
  qed
  have "(sv_heap ?locked ! 0)\<lparr>di_routes := [(?k, rt)], di_stop_lock := None\<rparr>
      \<in> set (sv_heap (unlock_instance 0 (snd (register_locked ?k rt 0 ?locked))))"
    unfolding heap by (rule list.set_intros)
  with reached built(2) show ?thesis by (intro exI conjI) (assumption, assumption, simp_all)
qed


end
