(* ===== verification/Signals.thy ===== *)
theory Signals
  imports Transport
begin

text \<open>
  The standalone server (\<open>serve_listener\<close>, \<open>await_termination_signal\<close> and \<open>wait_for_termination\<close> of
  \<open>src/src/serve/transport.rs\<close>): the task that waits for SIGINT or SIGTERM beside the server whose
  shutdown channel it feeds, and the accept loop of its listener (\<open>ForceCloseListener::accept\<close>). The
  operating system is a parameter: whether the two handlers can be installed, and which signals arrive.
\<close>

section \<open>The signal task\<close>

datatype SignalKind = SIGTERM | SIGINT

text \<open>\<open>Parked\<close> is \<open>pending()\<close>: the task never ends, so that its sender is never dropped.\<close>

datatype signal_task = Spawned | Waiting | Parked "SignalKind option"

text \<open>The part of \<open>wait_for_termination\<close> before its \<open>select!\<close>.\<close>

definition install_handlers :: "(SignalKind \<Rightarrow> io_error + unit) \<Rightarrow> io_error + unit" where
  "install_handlers os = (case os SIGTERM of Inl e \<Rightarrow> Inl e | Inr _ \<Rightarrow> os SIGINT)"

record standalone =
  sl_server :: serving
  sl_task :: signal_task
  sl_delivered :: "SignalKind set"

definition send_shutdown :: "serving \<Rightarrow> serving" where
  "send_shutdown s = s\<lparr>tr_shutdown := (tr_shutdown s)\<lparr>wc_value := True\<rparr>\<rparr>"

text \<open>The task is not runnable: it has been polled and no signal waits for it.\<close>

definition task_settled :: "standalone \<Rightarrow> bool" where
  "task_settled l \<longleftrightarrow>
     (case sl_task l of Spawned \<Rightarrow> False | Waiting \<Rightarrow> sl_delivered l = {} | Parked _ \<Rightarrow> True)"

text \<open>
  The server takes its own steps, except the two of its shutdown channel: the only sender is the
  task's. As in \<open>Transport\<close>, time does not pass while somebody is runnable. A signal before the
  handlers are installed kills the process and a later one is ignored: neither is a step.
\<close>

inductive standalone_step :: "(SignalKind \<Rightarrow> io_error + unit) \<Rightarrow> standalone \<Rightarrow> standalone \<Rightarrow> bool" for os where
  serves: "serve_step SHUTDOWN_GRACE (sl_server l) s \<Longrightarrow> tr_shutdown s = tr_shutdown (sl_server l) \<Longrightarrow>
    tr_now s = tr_now (sl_server l) \<or> task_settled l \<Longrightarrow>
    standalone_step os l (l\<lparr>sl_server := s\<rparr>)"
| installed: "sl_task l = Spawned \<Longrightarrow> install_handlers os = Inr () \<Longrightarrow>
    standalone_step os l (l\<lparr>sl_task := Waiting\<rparr>)"
| not_installed: "sl_task l = Spawned \<Longrightarrow> install_handlers os = Inl e \<Longrightarrow>
    standalone_step os l (l\<lparr>sl_task := Parked None\<rparr>)"
| delivered: "sl_task l = Waiting \<Longrightarrow>
    standalone_step os l (l\<lparr>sl_delivered := insert sig (sl_delivered l)\<rparr>)"
| received: "sl_task l = Waiting \<Longrightarrow> sig \<in> sl_delivered l \<Longrightarrow>
    standalone_step os l (l\<lparr>sl_task := Parked (Some sig), sl_server := send_shutdown (sl_server l)\<rparr>)"

inductive_cases standalone_stepE: "standalone_step os l l'"

text \<open>\<open>serve_listener\<close>: the channel starts at \<open>false\<close>; \<open>s\<close> is the server it is called with.\<close>

definition serve_listener :: "serving \<Rightarrow> standalone" where
  "serve_listener s =
     \<lparr>sl_server = s\<lparr>tr_shutdown := \<lparr>wc_value = False, wc_closed = False\<rparr>\<rparr>, sl_task = Spawned, sl_delivered = {}\<rparr>"

definition standalone_init :: "standalone \<Rightarrow> bool" where
  "standalone_init l \<longleftrightarrow> (\<exists>s. serve_init s \<and> l = serve_listener s)"

section \<open>The standalone server is a server\<close>

text \<open>
  A machine simulates another by a map of its states: its initial states are mapped to initial
  ones and each of its steps to a step or to none. What is reachable is then mapped to what is
  reachable, and an invariant of the other machine holds of the image.
\<close>

locale simulation = abstract: invariant_machine init' step' inv'
  for init' :: "'a \<Rightarrow> bool" and step' :: "'a \<Rightarrow> 'a \<Rightarrow> bool" and inv' :: "'a \<Rightarrow> bool" +
  fixes init :: "'c \<Rightarrow> bool" and step :: "'c \<Rightarrow> 'c \<Rightarrow> bool" and abs :: "'c \<Rightarrow> 'a"
  assumes sim_init: "init c \<Longrightarrow> init' (abs c)"
    and sim_step: "step c d \<Longrightarrow> step' (abs c) (abs d) \<or> abs d = abs c"
begin

lemma sim_reach: "reach init step c \<Longrightarrow> reach init' step' (abs c)"
  by (induction rule: reach.induct) (auto intro: reach.intros sim_init dest!: sim_step)

lemma sim_steps: "step\<^sup>*\<^sup>* c d \<Longrightarrow> step'\<^sup>*\<^sup>* (abs c) (abs d)"
  by (induction rule: rtranclp_induct) (auto dest!: sim_step)

lemma sim_inv: "reach init step c \<Longrightarrow> inv' (abs c)"
  by (rule abstract.inv_reach) (rule sim_reach)

end

lemma send_shutdown_step: "serve_step grace s (send_shutdown s)"
  unfolding send_shutdown_def by (rule serve_step.signal)

lemma serve_init_channel: "serve_init (s\<lparr>tr_shutdown := c\<rparr>) = serve_init s"
  by (simp add: serve_init_def)

interpretation standalone: simulation
  serve_init "serve_step SHUTDOWN_GRACE" "serve_inv SHUTDOWN_GRACE" standalone_init "standalone_step os" sl_server for os
  by unfold_locales
    (auto simp: standalone_init_def serve_listener_def serve_init_channel
      elim!: standalone_stepE intro: send_shutdown_step)

section \<open>Signals and the server\<close>

text \<open>A server whose shutdown has not begun runs normally or has failed.\<close>

definition undisturbed :: "serving \<Rightarrow> bool" where
  "undisturbed s \<longleftrightarrow> (tr_pc s = Serving \<and> tr_accepting s) \<or> (\<exists>e. tr_pc s = Returned (Inl e))"

lemma undisturbed_step:
  "undisturbed s \<Longrightarrow> serve_step grace s s' \<Longrightarrow> \<not> wait_for_shutdown_over (tr_shutdown s) \<Longrightarrow> undisturbed s'"
  by (erule serve_stepE) (auto simp: undisturbed_def returned_def)

definition standalone_inv :: "standalone \<Rightarrow> bool" where
  "standalone_inv l \<longleftrightarrow>
     (\<not> wc_closed (tr_shutdown (sl_server l)))
     \<and> (case sl_task l of
          Parked (Some sig) \<Rightarrow> wc_value (tr_shutdown (sl_server l)) \<and> sig \<in> sl_delivered l
        | Waiting \<Rightarrow> \<not> wc_value (tr_shutdown (sl_server l)) \<and> undisturbed (sl_server l)
        | _ \<Rightarrow> \<not> wc_value (tr_shutdown (sl_server l)) \<and> undisturbed (sl_server l) \<and> sl_delivered l = {})"

lemma standalone_inv_step: "standalone_inv l \<Longrightarrow> standalone_step os l l' \<Longrightarrow> standalone_inv l'"
  by (erule standalone_stepE)
    (auto simp: standalone_inv_def send_shutdown_def wait_for_shutdown_over_def
      split: signal_task.splits option.splits intro: undisturbed_step)

interpretation signals: invariant_machine standalone_init "standalone_step os" standalone_inv for os
proof unfold_locales
  fix l assume "standalone_init l"
  then show "standalone_inv l"
    by (auto simp: standalone_init_def standalone_inv_def serve_listener_def undisturbed_def serve_init_def)
qed (rule standalone_inv_step)

text \<open>From the arrival of a signal at \<open>t0\<close> on, the deadlines of the server are those of \<open>due_by\<close>.\<close>

definition signalled_by :: "nat \<Rightarrow> standalone \<Rightarrow> bool" where
  "signalled_by t0 l \<longleftrightarrow>
     (if sl_task l = Waiting then sl_delivered l \<noteq> {} \<and> (returned (sl_server l) \<or> tr_now (sl_server l) = t0)
      else due_by SHUTDOWN_GRACE t0 (sl_server l) \<and> wait_for_shutdown_over (tr_shutdown (sl_server l)))"

lemma returned_step: "returned s \<Longrightarrow> serve_step grace s s' \<Longrightarrow> returned s'"
  by (erule serve_stepE) (auto simp: returned_def)

lemma signalled_by_step:
  assumes "serve_inv SHUTDOWN_GRACE (sl_server l)" "standalone_inv l" "signalled_by t0 l" "standalone_step os l l'"
  shows "signalled_by t0 l'"
  using assms(4)
proof (cases rule: standalone_step.cases)
  case (serves s)
  then show ?thesis
    using assms(3) due_by_step[OF assms(1)] returned_step
    by (auto simp: signalled_by_def task_settled_def split: if_splits)
next
  case (received sig)
  then show ?thesis
    using assms(1,2,3)
    by (auto simp: signalled_by_def standalone_inv_def undisturbed_def due_by_def send_shutdown_def
        wait_for_shutdown_over_def returned_def)
qed (use assms(2,3) in \<open>auto simp: signalled_by_def standalone_inv_def wait_for_shutdown_over_def\<close>)

lemma signalled_by_start:
  assumes "serve_inv SHUTDOWN_GRACE (sl_server l)" "standalone_inv l" "sl_delivered l \<noteq> {}"
  shows "signalled_by (tr_now (sl_server l)) l"
  using assms
  by (auto simp: signalled_by_def standalone_inv_def serve_inv_def due_by_def wait_for_shutdown_over_def
      split: signal_task.splits option.splits serve_pc.splits)

lemma signalled_by_steps:
  assumes "(standalone_step os)\<^sup>*\<^sup>* l l'" "serve_inv SHUTDOWN_GRACE (sl_server l)" "standalone_inv l" "signalled_by t0 l"
  shows "serve_inv SHUTDOWN_GRACE (sl_server l') \<and> standalone_inv l' \<and> signalled_by t0 l'"
  using assms
proof (induction rule: rtranclp_induct)
  case (step u v)
  then show ?case
    using standalone.sim_step[OF step(2)] standalone_inv_step signalled_by_step serve_inv_step by metis
qed simp

lemma handlers_needed:
  assumes "reach standalone_init (standalone_step os) l" "install_handlers os \<noteq> Inr ()"
  shows "sl_delivered l = {} \<and> sl_task l \<in> {Spawned, Parked None}"
  using assms(1)
  by (induction rule: reach.induct)
    (auto simp: standalone_init_def serve_listener_def elim!: standalone_stepE, (use assms(2) in simp)+)

text \<open>
  Property C25: the standalone server stops when it is told to and only then. As long as no SIGINT or SIGTERM
  has been delivered to its handlers, it serves normally, unless the HTTP server itself failed, and
  when a handler cannot be installed none ever is; once one is delivered, it has returned or no more
  than the three seconds of the grace period and the one of the forced close have passed.
\<close>

theorem only_a_signal_stops_the_server:
  assumes "reach standalone_init (standalone_step os) l" "(standalone_step os)\<^sup>*\<^sup>* l l'"
  shows "(sl_delivered l = {} \<longrightarrow> tr_pc (sl_server l) = Serving \<and> tr_accepting (sl_server l)
            \<or> (\<exists>e. tr_pc (sl_server l) = Returned (Inl e)))
    \<and> (install_handlers os \<noteq> Inr () \<longrightarrow> sl_delivered l = {})
    \<and> (sl_delivered l \<noteq> {} \<longrightarrow>
         returned (sl_server l') \<or> tr_now (sl_server l') \<le> tr_now (sl_server l) + 4000)"
proof (intro conjI impI)
  have inv: "standalone_inv l" and sinv: "serve_inv SHUTDOWN_GRACE (sl_server l)"
    using assms(1) by (rule signals.inv_reach, rule standalone.sim_inv)
  show "tr_pc (sl_server l) = Serving \<and> tr_accepting (sl_server l) \<or> (\<exists>e. tr_pc (sl_server l) = Returned (Inl e))"
    if "sl_delivered l = {}"
    using inv that by (auto simp: standalone_inv_def undisturbed_def split: signal_task.splits option.splits)
  show "sl_delivered l = {}" if "install_handlers os \<noteq> Inr ()"
    using handlers_needed[OF assms(1) that] by simp
  show "returned (sl_server l') \<or> tr_now (sl_server l') \<le> tr_now (sl_server l) + 4000" if "sl_delivered l \<noteq> {}"
    using signalled_by_steps[OF assms(2) sinv inv signalled_by_start[OF sinv inv that]]
    by (auto simp: signalled_by_def due_by_def serve_inv_def returned_def SHUTDOWN_GRACE_def FORCE_CLOSE_GRACE_def
        split: if_splits serve_pc.splits)
qed

definition demo_standalone :: standalone where
  "demo_standalone = serve_listener demo_serving"

lemma demo_standalone_signalled:
  "reach standalone_init (standalone_step (\<lambda>_. Inr ()))
     (demo_standalone\<lparr>sl_task := Waiting, sl_delivered := insert SIGINT (sl_delivered demo_standalone)\<rparr>)"
proof -
  let ?os = "\<lambda>_. Inr ()"
  have "standalone_init demo_standalone"
    unfolding standalone_init_def demo_standalone_def
    by (rule exI[of _ demo_serving]) (simp add: serve_init_def demo_serving_def wait_for_shutdown_over_def)
  moreover have "standalone_step ?os demo_standalone (demo_standalone\<lparr>sl_task := Waiting\<rparr>)"
    by (rule standalone_step.installed) (simp_all add: demo_standalone_def serve_listener_def install_handlers_def)
  moreover have "standalone_step ?os (demo_standalone\<lparr>sl_task := Waiting\<rparr>)
      (demo_standalone\<lparr>sl_task := Waiting, sl_delivered := insert SIGINT (sl_delivered demo_standalone)\<rparr>)"
    using standalone_step.delivered[of "demo_standalone\<lparr>sl_task := Waiting\<rparr>" ?os SIGINT] by simp
  ultimately show ?thesis by (meson reach.intros)
qed

theorem only_a_signal_stops_the_server_witness:
  "\<exists>l l'. sl_delivered l = {SIGINT} \<and> standalone_step (\<lambda>_. Inr ()) l l' \<and> sl_task l' = Parked (Some SIGINT)
     \<and> (returned (sl_server l') \<or> tr_now (sl_server l') \<le> 0 + 4000)"
proof -
  let ?l = "demo_standalone\<lparr>sl_task := Waiting, sl_delivered := insert SIGINT (sl_delivered demo_standalone)\<rparr>"
  let ?l' = "?l\<lparr>sl_task := Parked (Some SIGINT), sl_server := send_shutdown (sl_server ?l)\<rparr>"
  have "standalone_step (\<lambda>_. Inr ()) ?l ?l'" by (rule standalone_step.received) simp_all
  with only_a_signal_stops_the_server[OF demo_standalone_signalled r_into_rtranclp[of "standalone_step (\<lambda>_. Inr ())"], OF this]
  show ?thesis
    by (intro exI[of _ ?l] exI[of _ ?l']) (simp add: demo_standalone_def serve_listener_def demo_serving_def)
qed

section \<open>The accept loop\<close>

text \<open>
  \<open>ForceCloseListener::accept\<close> over the outcomes of the listener's own \<open>accept\<close>: the connection, whose
  operations are from then on those of \<open>poll_io\<close>, and the time that was slept (100 ms after each
  failure); \<open>None\<close> is a call that still waits after these outcomes.
\<close>

fun accept_loop :: "(io_error + 'c \<times> 'addr) list \<Rightarrow> nat \<Rightarrow> (('c \<times> 'addr) \<times> nat) option" where
  "accept_loop [] slept = None"
| "accept_loop (Inr connection # _) slept = Some (connection, slept)"
| "accept_loop (Inl _ # outcomes) slept = accept_loop outcomes (slept + 100)"

text \<open>Failures never end the loop and never lose a connection: the first one that comes is handed out.\<close>

lemma accept_loop_outlives_failures:
  "accept_loop (map Inl es @ Inr connection # rest) slept = Some (connection, slept + 100 * length es)"
  by (induction es arbitrary: slept) simp_all

lemma accept_loop_waits: "accept_loop outcomes slept = None \<longleftrightarrow> (\<forall>x \<in> set outcomes. \<exists>e. x = Inl e)"
  by (induction outcomes slept rule: accept_loop.induct) auto

end
