(* ===== verification/Spec2Isabelle.thy ===== *)
theory Spec2Isabelle
  imports Health_Machine Admission Serve_Config Route_Runtime Transport Daemon_Concurrency Publication
    Cache_Inventory Commands Daemon_Life Staging Launching Signals Binary_Types
begin

text \<open>
  A verification library for \<open>acp-agent\<close>, a command-line program (\<open>src/src/\<close>, Rust) that discovers,
  installs and runs agents of the Agent Client Protocol, serves one of them over HTTP, and keeps
  named servers in a daemon that the command line talks to over a Unix socket. The definitions are
  translated from the source, function by function; the theorems say what makes each part correct.
  This theory only collects the others.

  \<^bold>\<open>How the parts interact.\<close> \<open>main\<close> sweeps what interrupted installs left behind and runs one command.
  \<open>install\<close>, \<open>update\<close> and \<open>uninstall\<close> run the lifecycle operation of each agent, at most four at a time;
  a binary agent is downloaded, extracted into a staging directory, validated, and moved into its
  cache entry, under the locks of that entry; \<open>run\<close> starts the command of the agent's chosen
  distribution. \<open>serve\<close> builds the runtime of one route: a router with admission control that
  launches a process per connection and records how the launch went. The daemon serves the same
  runtimes for named servers, each with a route table, and answers requests of the client, which
  starts a daemon when there is none.

  \<^bold>\<open>Conventions\<close> (\<open>Prelude\<close>, \<open>Text_Ops\<close>, \<open>Files\<close>). An \<open>anyhow\<close> error is its chain of messages, a fallible
  function returns \<open>error + 'a\<close>, and an effectful one is a function \<open>('w, 'a) io\<close> of an explicit
  world. \<open>str\<close> and bytes are character lists (one character a byte), paths lists of names where the
  program takes them apart. \<open>u16\<close>, \<open>u32\<close> and \<open>u64\<close> are words, so counters wrap where the code's do;
  lengths and file sizes are natural numbers. \<open>Files\<close> has a file system with files, directories,
  links and modes; its world carries an oracle that makes any call fail, so that a theorem about all
  worlds is a theorem about all failures. Concurrency is a step relation whose steps lie between two
  awaits (or two locks); the locale \<open>invariant_machine\<close> of \<open>Prelude\<close> gives each relation its
  reachability lemma, \<open>terminating_machine\<close> the end of all its schedules, \<open>simulation\<close> (\<open>Signals\<close>) the
  invariant of another machine; the locale of \<open>Files\<close> has the laws of the file calls, those of \<open>Routes\<close>
  the longest match and the canonical order of a listing (routes, agents, installations). What is not
  under \<open>src/\<close> (HTTP, JSON, SHA-256, archive decoders, the package managers, the clock, processes and
  the lock manager of the operating system) is an argument of the definitions that use it.

  \<^bold>\<open>Installer\<close> (\<open>src/src/installer/\<close>).
  \<^item> \<open>Binary_Types\<close>, \<open>Cache_Keys\<close>, \<open>Archive_Paths\<close>: the types of \<open>binary/mod.rs\<close>, the names of entries, locks
    and work directories of \<open>cache.rs\<close>, and the path checks of \<open>binary/paths.rs\<close>. Work directories lead back
    to their entry; two different ids can name the same directory (a finding).
  \<^item> \<open>Download\<close>, \<open>Archive\<close>: \<open>binary/download.rs\<close> and \<open>archive.rs\<close>. A stored download has the checksum and
    the size that were asked for; extraction stays inside its directory, links included, and inside
    the limits.
  \<^item> \<open>Payload\<close>, \<open>Validation\<close>: \<open>validation.rs\<close>. The hashed bytes determine the tree; a cache entry that is
    accepted has the recorded digests.
  \<^item> \<open>Publication\<close>, \<open>Install\<close>, \<open>Install_Log\<close>: \<open>publication.rs\<close>, \<open>install.rs\<close>, \<open>staging.rs\<close>, \<open>log.rs\<close>. The
    promotion transaction refines one atomic move and never loses the old entry; an installed
    binary has been validated, a valid entry is reused as it is; the log stays bounded and keeps whole lines.
  \<^item> \<open>Staging\<close>: the guards and tasks that own a staging directory when the install future is dropped
    at an await (\<open>staging.rs\<close>, \<open>archive.rs\<close>). Nobody removes the directory under a writer, every
    installation ends, and its directory is gone, with one exception (a finding).
  \<^item> \<open>Cache_Locks\<close>, \<open>Lock_Protocol\<close>: the lock files of \<open>cache.rs\<close>, and installations, leases, removals and
    sweeps of one entry interleaved, with crashes. A lease protects the entry it was given for, and
    the lock order excludes deadlock.
  \<^item> \<open>Cache_Inventory\<close>, \<open>Recovery\<close>: listing and removal (\<open>cache.rs\<close>) spare the entries they were not asked
    for; the sweep (\<open>recovery.rs\<close>) spares published entries and undoes an interrupted refresh, except
    that a failed restore deletes its backup (a finding).
  \<^item> \<open>Lifecycle\<close>: \<open>lifecycle.rs\<close>. An update keeps the fresh entry; a batch runs each distinct id once,
    reports in the order of the request, and always ends.
  \<^item> \<open>Toolchain\<close>: \<open>environment.rs\<close> and \<open>process.rs\<close>, detection, plan and execution of \<open>install-env\<close>.

  \<^bold>\<open>Agents\<close>. \<open>Registry\<close> (\<open>registry.rs\<close>), \<open>Yolo\<close> (\<open>yolo.rs\<close>) and \<open>Runner\<close> (\<open>runner.rs\<close>): data, validation, look-up
  and search, the catalog with its bundled fallback, and the choice of distribution and command.

  \<^bold>\<open>Serving\<close> (\<open>src/src/serve/\<close>).
  \<^item> \<open>Serve_Config\<close>, \<open>Route_Runtime\<close>: \<open>mod.rs\<close> and the assembly of a route in \<open>runtime.rs\<close>; a runtime that is
    built is well-formed, and the lines of its stderr queue are accounted for.
  \<^item> \<open>Admission\<close>: process permits over all requests and agents of a route. Permits are conserved and no
    more agents run than allowed; an abandoned WebSocket handshake keeps its permit (a finding).
  \<^item> \<open>Agent_Health\<close>, \<open>Health_Machine\<close>: one launch, and all launches of a route interleaved. Each records
    exactly one outcome, and \<open>/readyz\<close> does not depend on their order.
  \<^item> \<open>Transport\<close>: \<open>transport.rs\<close>. Shutting down takes a bounded time, and connections have the grace
    period before they are cut.

  \<^bold>\<open>Daemon\<close> (\<open>src/src/server/\<close>).
  \<^item> \<open>Protocol\<close>, \<open>Control_Socket\<close>: messages, frames and the socket of \<open>protocol.rs\<close>. However many daemons start
    and crash, a running one owns the socket, and a stale socket is recovered.
  \<^item> \<open>Routes\<close>, \<open>Daemon\<close>: \<open>routes.rs\<close>, \<open>daemon.rs\<close>, \<open>control.rs\<close>, each handler run alone: dispatch takes the
    longest route, requests keep the supervisor consistent.
  \<^item> \<open>Daemon_Concurrency\<close>: the same handlers interleaved at their awaits: consistency, no registration on
    a stopping instance, no deadlock.
  \<^item> \<open>Daemon_Life\<close>: the whole run of a daemon process (\<open>run_supervisor\<close>): what it set up it takes down, and it leaves
    a live daemon's socket alone.
  \<^item> \<open>Launching\<close>: installer, runner, route and daemon composed, as \<open>daemon.rs\<close> and \<open>commands/mod.rs\<close> call
    them: what \<open>run\<close> starts and what a route of the daemon launches is a package runner or a binary that
    was validated when it was resolved, and that a lease protects from removal since.
  \<^item> \<open>Client\<close>: \<open>client.rs\<close>. A request over the socket has the outcome of its handler; a start leaves no
    child behind.

  \<^bold>\<open>Command line\<close>. \<open>Commands\<close>: \<open>main.rs\<close> and \<open>commands/\<close>, from the parsed command to its output and exit code,
  which reflects the outcome of every agent of a batch.

  \<^bold>\<open>Bounds and fuel.\<close> The numeric limits are those of the code: 40 symbolic links for a path, as Linux
  has; 1024 queued stderr lines; 16 KiB of stderr tail; frames of 1 MiB; the limits of \<open>ArchiveLimits\<close>;
  3 and 1 seconds of shutdown grace. Recursion over a directory tree takes fuel; \<open>Payload\<close> proves that
  a fuel above the depth of the tree reaches all of it. The rounds of a start's health check are a
  list, as long as the timeout allows; an installation's blocking task has a finite amount of work.
  No other definition needs fuel.

  \<^bold>\<open>Not modelled\<close>, and why. The parser of the arguments (clap) and the encodings of serde are generated
  code; \<open>init_tracing\<close> and \<open>kill_on_drop\<close> only configure libraries. The HTTP routers are the
  library's; \<open>Route_Runtime\<close>, \<open>Admission\<close> and \<open>Routes\<close> hold what the program adds to them. Weak memory,
  thread starvation and a runtime that is torn down while its tasks run are outside of every step
  relation. Code under \<open>cfg(test)\<close> is not part of the program.
\<close>

end
